(* ===== verification/Prelude.thy ===== *)
theory Prelude
  imports Main "HOL-Library.Word" "HOL-Library.Sublist"
begin

text \<open>
  Generic material shared by all components: Rust string operations on UTF-8 byte strings
  (a HOL \<^typ>\<open>string\<close> is a list of bytes), the vector operations the crate uses (\<^verbatim>\<open>position\<close>, \<^verbatim>\<open>swap_remove\<close>), and the
  collections of simplification rules the component theories extend.
\<close>

named_theorems wf_preserve \<open>every operation keeps its component's invariant\<close>
named_theorems lookup_laws \<open>what a lookup returns after an update\<close>

unbundle bit_operations_syntax

declare Let_def [simp]

section \<open>Strings\<close>

text \<open>
  Length in bytes of the white space character that starts a UTF-8 string, 0 when it starts with
  something else. The characters are those with the Unicode property White_Space, which is what
  \<^verbatim>\<open>str::trim\<close> removes.
\<close>

definition ws3 :: "nat \<Rightarrow> nat \<Rightarrow> nat \<Rightarrow> bool" where
  "ws3 a b c =
    ((a = 225 \<and> b = 154 \<and> c = 128) \<or>
     (a = 226 \<and> b = 128 \<and> (128 \<le> c \<and> c \<le> 138 \<or> c = 168 \<or> c = 169 \<or> c = 175)) \<or>
     (a = 226 \<and> b = 129 \<and> c = 159) \<or>
     (a = 227 \<and> b = 128 \<and> c = 128))"

definition ws1 :: "nat \<Rightarrow> bool" where
  "ws1 a = (9 \<le> a \<and> a \<le> 13 \<or> a = 32)"

definition ws2 :: "nat \<Rightarrow> nat \<Rightarrow> bool" where
  "ws2 a b = (a = 194 \<and> (b = 133 \<or> b = 160))"

definition code :: "char \<Rightarrow> nat" where
  "code c = of_char c"

definition ws_len :: "string \<Rightarrow> nat" where
  "ws_len s =
    (if 1 \<le> length s \<and> ws1 (code (s ! 0)) then 1
     else if 2 \<le> length s \<and> ws2 (code (s ! 0)) (code (s ! 1)) then 2
     else if 3 \<le> length s \<and> ws3 (code (s ! 0)) (code (s ! 1)) (code (s ! 2)) then 3
     else 0)"

text \<open>The same for the character that ends a string, given reversed.\<close>

definition ws_len_rev :: "string \<Rightarrow> nat" where
  "ws_len_rev s =
    (if 1 \<le> length s \<and> ws1 (code (s ! 0)) then 1
     else if 2 \<le> length s \<and> ws2 (code (s ! 1)) (code (s ! 0)) then 2
     else if 3 \<le> length s \<and> ws3 (code (s ! 2)) (code (s ! 1)) (code (s ! 0)) then 3
     else 0)"

lemma ws_len_pos_Cons: "0 < ws_len s \<Longrightarrow> length s - ws_len s < length s"
  by (auto simp: ws_len_def split: if_splits)

lemma ws_len_rev_pos_Cons: "0 < ws_len_rev s \<Longrightarrow> length s - ws_len_rev s < length s"
  by (auto simp: ws_len_rev_def split: if_splits)

function trim_start :: "string \<Rightarrow> string" where
  "trim_start s = (if 0 < ws_len s then trim_start (drop (ws_len s) s) else s)"
  by pat_completeness auto
termination
  by (relation "measure length") (simp_all add: ws_len_pos_Cons)

function trim_rev :: "string \<Rightarrow> string" where
  "trim_rev s = (if 0 < ws_len_rev s then trim_rev (drop (ws_len_rev s) s) else s)"
  by pat_completeness auto
termination
  by (relation "measure length") (simp_all add: ws_len_rev_pos_Cons)

declare trim_start.simps [simp del] trim_rev.simps [simp del]

definition trim :: "string \<Rightarrow> string" where
  "trim s = rev (trim_rev (rev (trim_start s)))"

text \<open>\<^verbatim>\<open>str.split(pat)\<close> for a set of characters: one piece more than there are separators.\<close>

fun split_on :: "(char \<Rightarrow> bool) \<Rightarrow> string \<Rightarrow> string list" where
  "split_on p [] = [[]]"
| "split_on p (c # cs) =
    (if p c then [] # split_on p cs
     else case split_on p cs of [] \<Rightarrow> [[c]] | w # ws \<Rightarrow> (c # w) # ws)"

text \<open>\<^verbatim>\<open>str.find(c)\<close>: the byte offset of the first occurrence of an ASCII character.\<close>

fun find_char :: "char \<Rightarrow> string \<Rightarrow> nat option" where
  "find_char x [] = None"
| "find_char x (c # cs) = (if c = x then Some 0 else map_option Suc (find_char x cs))"

fun strip_prefix :: "string \<Rightarrow> string \<Rightarrow> string option" where
  "strip_prefix [] s = Some s"
| "strip_prefix (x # xs) [] = None"
| "strip_prefix (x # xs) (c # cs) = (if x = c then strip_prefix xs cs else None)"

text \<open>
  \<^verbatim>\<open>str.split(sep)\<close> for a non-empty string separator: leftmost, non-overlapping. The accumulator
  holds the current piece reversed.
\<close>

function split_str_aux :: "string \<Rightarrow> string \<Rightarrow> string \<Rightarrow> string list" where
  "split_str_aux sep acc [] = [rev acc]"
| "split_str_aux sep acc (c # cs) =
    (if sep = [] then [rev acc @ c # cs]
     else case strip_prefix sep (c # cs) of
       Some rest \<Rightarrow> rev acc # split_str_aux sep [] rest
     | None \<Rightarrow> split_str_aux sep (c # acc) cs)"
  by pat_completeness auto

lemma strip_prefix_Some: "strip_prefix p s = Some r \<longleftrightarrow> s = p @ r"
  by (induction p s rule: strip_prefix.induct) auto

lemma strip_prefix_None: "strip_prefix p s = None \<longleftrightarrow> \<not> prefix p s"
  by (induction p s rule: strip_prefix.induct) auto

lemma strip_prefix_append [simp]: "strip_prefix p (p @ r) = Some r"
  by (simp add: strip_prefix_Some)

lemma strip_prefix_shorter: "strip_prefix p s = Some r \<Longrightarrow> p \<noteq> [] \<Longrightarrow> length r < length s"
  by (cases p) (auto simp: strip_prefix_Some)

termination split_str_aux
  by (relation "measure (\<lambda>(sep, acc, s). length s)") (auto dest: strip_prefix_shorter)

definition split_str :: "string \<Rightarrow> string \<Rightarrow> string list" where
  "split_str sep s = split_str_aux sep [] s"

fun contains :: "string \<Rightarrow> string \<Rightarrow> bool" where
  "contains [] pat = (pat = [])"
| "contains (c # cs) pat = (prefix pat (c # cs) \<or> contains cs pat)"

lemma contains_sublist: "contains s pat \<longleftrightarrow> sublist pat s"
  by (induction s) (auto simp: sublist_Cons_right)

text \<open>\<^verbatim>\<open>str::to_ascii_lowercase\<close>\<close>

definition lower_char :: "char \<Rightarrow> char" where
  "lower_char c = (if 65 \<le> code c \<and> code c \<le> 90 then char_of (code c + 32) else c)"

definition to_ascii_lowercase :: "string \<Rightarrow> string" where
  "to_ascii_lowercase s = map lower_char s"

subsection \<open>Lemmas on trimming and splitting\<close>

lemma ws_len_Nil [simp]: "ws_len [] = 0" "ws_len_rev [] = 0"
  by (simp_all add: ws_len_def ws_len_rev_def)

lemma trim_start_Nil [simp]: "trim_start [] = []" "trim_rev [] = []"
  by (simp_all add: trim_start.simps trim_rev.simps)

lemma trim_Nil [simp]: "trim [] = []"
  by (simp add: trim_def)

lemma trim_start_suffix: "suffix (trim_start s) s"
  by (induction s rule: trim_start.induct)
    (subst trim_start.simps, auto intro: suffix_order.trans suffix_drop)

lemma trim_rev_suffix: "suffix (trim_rev s) s"
  by (induction s rule: trim_rev.induct)
    (subst trim_rev.simps, auto intro: suffix_order.trans suffix_drop)

lemma trim_sublist: "sublist (trim s) s"
proof -
  have "suffix (trim_rev (rev (trim_start s))) (rev (trim_start s))"
    by (rule trim_rev_suffix)
  then have "prefix (trim s) (trim_start s)"
    by (simp add: trim_def suffix_to_prefix)
  then show ?thesis
    using trim_start_suffix[of s] by (metis prefix_imp_sublist sublist_order.order.trans suffix_imp_sublist)
qed

lemma set_trim: "set (trim s) \<subseteq> set s"
  by (rule set_mono_sublist[OF trim_sublist])

text \<open>A string is trimmed when neither end is white space.\<close>

definition trimmed :: "string \<Rightarrow> bool" where
  "trimmed s = (ws_len s = 0 \<and> ws_len_rev (rev s) = 0)"

lemma trim_trimmed: "trimmed s \<Longrightarrow> trim s = s"
  by (simp add: trimmed_def trim_def trim_start.simps[of s] trim_rev.simps[of "rev s"])

lemma trim_start_ws_len: "ws_len (trim_start s) = 0"
  by (induction s rule: trim_start.induct) (subst trim_start.simps, simp)

lemma trim_rev_ws_len: "ws_len_rev (trim_rev s) = 0"
  by (induction s rule: trim_rev.induct) (subst trim_rev.simps, simp)

lemma ws_len_prefix: "ws_len s = 0 \<Longrightarrow> prefix t s \<Longrightarrow> ws_len t = 0"
  by (auto simp: ws_len_def prefix_def nth_append split: if_splits)

lemma trimmed_trim: "trimmed (trim s)"
proof -
  have "prefix (trim s) (trim_start s)"
    using trim_rev_suffix[of "rev (trim_start s)"] by (simp add: trim_def suffix_to_prefix)
  with trim_start_ws_len have "ws_len (trim s) = 0" by (rule ws_len_prefix)
  then show ?thesis by (simp add: trimmed_def trim_def trim_rev_ws_len)
qed

lemma trim_idem [simp]: "trim (trim s) = trim s"
  by (rule trim_trimmed[OF trimmed_trim])

lemma split_on_ne [simp]: "split_on p s \<noteq> []"
  by (induction s) (auto split: list.splits)

lemma split_on_none: "\<forall>c\<in>set s. \<not> p c \<Longrightarrow> split_on p s = [s]"
  by (induction s) auto

lemma split_on_append:
  "\<forall>c\<in>set w. \<not> p c \<Longrightarrow> p x \<Longrightarrow> split_on p (w @ x # s) = w # split_on p s"
  by (induction w) auto

lemma split_on_elem: "w \<in> set (split_on p s) \<Longrightarrow> c \<in> set w \<Longrightarrow> \<not> p c \<and> c \<in> set s"
proof (induction s arbitrary: w)
  case (Cons a s)
  obtain u us where "split_on p s = u # us" using split_on_ne[of p s] by (cases "split_on p s") auto
  then show ?case using Cons.prems Cons.IH[of u] Cons.IH[of w] by (auto split: if_splits)
qed simp

text \<open>The pieces put back together with single separators give the string again.\<close>

fun join :: "string \<Rightarrow> string list \<Rightarrow> string" where
  "join sep [] = []"
| "join sep [w] = w"
| "join sep (w # v # ws) = w @ sep @ join sep (v # ws)"

lemma join_Cons: "ws \<noteq> [] \<Longrightarrow> join sep (w # ws) = w @ sep @ join sep ws"
  by (cases ws) auto

lemma split_on_join:
  assumes "\<forall>w\<in>set ws. x \<notin> set w" "ws \<noteq> []"
  shows "split_on (\<lambda>c. c = x) (join [x] ws) = ws"
  using assms
proof (induction ws rule: induct_list012)
  case (2 w)
  then show ?case by (auto intro: split_on_none)
next
  case (3 w v ws)
  moreover have "split_on (\<lambda>c. c = x) (w @ x # join [x] (v # ws)) = w # split_on (\<lambda>c. c = x) (join [x] (v # ws))"
    using 3 by (intro split_on_append) auto
  ultimately show ?case by simp
qed simp

lemma split_str_aux_ne [simp]: "split_str_aux sep acc s \<noteq> []"
  by (induction sep acc s rule: split_str_aux.induct) (auto split: option.splits)

lemma join_split_str_aux: "sep \<noteq> [] \<Longrightarrow> join sep (split_str_aux sep acc s) = rev acc @ s"
proof (induction sep acc s rule: split_str_aux.induct)
  case (2 sep acc c cs)
  show ?case
  proof (cases "strip_prefix sep (c # cs)")
    case None
    then show ?thesis using 2 by simp
  next
    case (Some rest)
    then have "sep @ rest = c # cs" by (simp add: strip_prefix_Some)
    then show ?thesis using 2 Some by (simp add: join_Cons)
  qed
qed simp

lemma join_split_str: "sep \<noteq> [] \<Longrightarrow> join sep (split_str sep s) = s"
  by (simp add: split_str_def join_split_str_aux)

lemma find_char_None: "find_char x s = None \<longleftrightarrow> x \<notin> set s"
  by (induction s) auto

lemma find_char_append [simp]: "x \<notin> set a \<Longrightarrow> find_char x (a @ x # b) = Some (length a)"
  by (induction a) auto

lemma find_char_Some:
  "find_char x s = Some i \<Longrightarrow> i < length s \<and> s ! i = x \<and> x \<notin> set (take i s)"
  by (induction s arbitrary: i) (auto split: if_splits)

text \<open>Printable ASCII other than the space; a string that starts and ends so is trimmed.\<close>

definition visible :: "char \<Rightarrow> bool" where
  "visible c = (33 \<le> code c \<and> code c \<le> 126)"

lemma visible_ws:
  assumes "33 \<le> n" "n \<le> 126"
  shows "\<not> ws1 n" "\<not> ws2 n x" "\<not> ws2 x n" "\<not> ws3 n x y" "\<not> ws3 x y n"
proof -
  show "\<not> ws1 n" using assms by (simp add: ws1_def)
  show "\<not> ws2 n x" using assms by (simp add: ws2_def)
  show "\<not> ws2 x n" using assms by (simp add: ws2_def)
  show "\<not> ws3 n x y" using assms by (simp add: ws3_def)
  show "\<not> ws3 x y n" using assms by (simp add: ws3_def)
qed

lemma visible_trimmed:
  assumes "s \<noteq> []" "visible (hd s)" "visible (last s)"
  shows "trimmed s"
proof -
  have ws: "\<not> ws1 (code c)" "\<not> ws2 (code c) x" "\<not> ws2 x (code c)" "\<not> ws3 (code c) x y" "\<not> ws3 x y (code c)"
    if "visible c" for c x y
    using visible_ws[of "code c"] that by (simp_all add: visible_def)
  have s0: "s ! 0 = hd s" "rev s ! 0 = last s"
    using assms(1) by (simp_all add: hd_conv_nth last_conv_nth rev_nth)
  have "ws_len s = 0" using ws[OF assms(2)] by (simp add: ws_len_def s0)
  moreover have "ws_len_rev (rev s) = 0" using ws[OF assms(3)] by (simp add: ws_len_rev_def s0)
  ultimately show ?thesis by (simp add: trimmed_def)
qed

lemma visible_not_blank: "s \<noteq> [] \<Longrightarrow> visible (hd s) \<Longrightarrow> visible (last s) \<Longrightarrow> trim s \<noteq> []"
  using visible_trimmed trim_trimmed by metis

lemma trim_space: "trim '' '' = []"
  by code_simp

end
