(* ===== verification/Decimal.thy ===== *)
theory Decimal
  imports Prelude
begin

text \<open>
  Decimal rendering of integers (\<^verbatim>\<open>to_string\<close>, \<^verbatim>\<open>format!\<close>) and Rust's
  \<^verbatim>\<open>parse\<close> for unsigned integers and booleans. \<^verbatim>\<open>parse\<close> of an unsigned type accepts one
  leading plus sign, at least one digit, leading zeros, and fails on a value out of range.
\<close>

definition digit_char :: "nat \<Rightarrow> char" where
  "digit_char d = char_of (48 + d)"

definition digit_val :: "char \<Rightarrow> nat option" where
  "digit_val c = (if 48 \<le> code c \<and> code c \<le> 57 then Some (code c - 48) else None)"

fun show_nat :: "nat \<Rightarrow> string" where
  "show_nat n = (if n < 10 then [digit_char n] else show_nat (n div 10) @ [digit_char (n mod 10)])"

declare show_nat.simps [simp del]

definition show_int :: "int \<Rightarrow> string" where
  "show_int i = (if i < 0 then CHR ''-'' # show_nat (nat (- i)) else show_nat (nat i))"

text \<open>Value of a digit string, on top of the value of the digits already read.\<close>

fun digits_val :: "nat \<Rightarrow> string \<Rightarrow> nat option" where
  "digits_val acc [] = Some acc"
| "digits_val acc (c # cs) =
    (case digit_val c of None \<Rightarrow> None | Some d \<Rightarrow> digits_val (10 * acc + d) cs)"

text \<open>\<^verbatim>\<open>s.parse::<uN>()\<close> for an unsigned type whose largest value is \<open>maxv\<close>.\<close>

definition parse_uint :: "nat \<Rightarrow> string \<Rightarrow> nat option" where
  "parse_uint maxv s =
    (let body = (case s of [] \<Rightarrow> [] | c # cs \<Rightarrow> if c = CHR ''+'' then cs else s) in
     if body = [] then None
     else case digits_val 0 body of
            None \<Rightarrow> None
          | Some n \<Rightarrow> if n \<le> maxv then Some n else None)"

definition parse_u16 :: "string \<Rightarrow> 16 word option" where
  "parse_u16 s = map_option of_nat (parse_uint 65535 s)"

definition parse_bool :: "string \<Rightarrow> bool option" where
  "parse_bool s = (if s = ''true'' then Some True else if s = ''false'' then Some False else None)"

definition show_u16 :: "16 word \<Rightarrow> string" where
  "show_u16 w = show_nat (unat w)"

definition show_u64 :: "64 word \<Rightarrow> string" where
  "show_u64 w = show_nat (unat w)"

definition show_i32 :: "32 word \<Rightarrow> string" where
  "show_i32 w = show_int (sint w)"

definition show_i64 :: "64 word \<Rightarrow> string" where
  "show_i64 w = show_int (sint w)"

definition show_bool :: "bool \<Rightarrow> string" where
  "show_bool b = (if b then ''true'' else ''false'')"

subsection \<open>Round trips\<close>

lemma code_char_of: "n < 256 \<Longrightarrow> code (char_of n) = n"
  by (simp add: code_def)

lemma digit_val_char [simp]: "d < 10 \<Longrightarrow> digit_val (digit_char d) = Some d"
  by (simp add: digit_val_def digit_char_def code_char_of)

lemma digits_val_append:
  "digits_val a (xs @ ys) = (case digits_val a xs of None \<Rightarrow> None | Some b \<Rightarrow> digits_val b ys)"
  by (induction xs arbitrary: a) (auto split: option.splits)

lemma show_nat_ne [simp]: "show_nat n \<noteq> []"
  by (subst show_nat.simps) simp

lemma digits_val_show_nat: "digits_val 0 (show_nat n) = Some n"
proof (induction n rule: show_nat.induct)
  case (1 n)
  show ?case
  proof (cases "n < 10")
    case True
    then show ?thesis by (subst show_nat.simps) simp
  next
    case False
    then have "digits_val 0 (show_nat (n div 10) @ [digit_char (n mod 10)]) = Some (10 * (n div 10) + n mod 10)"
      using 1 by (simp add: digits_val_append)
    then show ?thesis using False by (subst show_nat.simps) simp
  qed
qed

lemma show_nat_digits: "c \<in> set (show_nat n) \<Longrightarrow> \<exists>d<10. c = digit_char d"
proof (induction n rule: show_nat.induct)
  case (1 n)
  show ?case
  proof (cases "n < 10")
    case True
    then show ?thesis using 1(2) by (subst (asm) show_nat.simps) auto
  next
    case False
    then have "c \<in> set (show_nat (n div 10)) \<or> c = digit_char (n mod 10)"
      using 1(2) by (subst (asm) show_nat.simps) auto
    then show ?thesis using 1(1)[OF False] by (metis mod_less_divisor zero_less_numeral)
  qed
qed

lemma show_nat_code: "c \<in> set (show_nat n) \<Longrightarrow> 48 \<le> code c \<and> code c \<le> 57"
  by (drule show_nat_digits) (auto simp: digit_char_def code_char_of)

lemma show_nat_notin: "code c < 48 \<or> 57 < code c \<Longrightarrow> c \<notin> set (show_nat n)"
  using show_nat_code by fastforce

lemma show_nat_inj: "show_nat m = show_nat n \<Longrightarrow> m = n"
  using digits_val_show_nat by (metis option.inject)

lemma parse_uint_show_nat: "n \<le> maxv \<Longrightarrow> parse_uint maxv (show_nat n) = Some n"
proof -
  assume n: "n \<le> maxv"
  obtain c cs where s: "show_nat n = c # cs" using show_nat_ne[of n] by (cases "show_nat n") auto
  have "c \<noteq> CHR ''+''"
    using show_nat_code[of c n] s by (auto simp: code_def)
  then show ?thesis using n s digits_val_show_nat[of n]
    by (simp add: parse_uint_def)
qed

lemma parse_u16_show_u16 [simp]: "parse_u16 (show_u16 w) = Some w"
proof -
  have "unat w < 2 ^ 16" using unsigned_less[of w] by simp
  then have "unat w \<le> 65535" by simp
  then show ?thesis
    by (simp add: parse_u16_def show_u16_def parse_uint_show_nat)
qed

lemma parse_uint_bound: "parse_uint maxv s = Some n \<Longrightarrow> n \<le> maxv"
  by (auto simp: parse_uint_def Let_def split: if_splits option.splits list.splits)

lemma digits_val_digits: "digits_val a s = Some n \<Longrightarrow> c \<in> set s \<Longrightarrow> 48 \<le> code c \<and> code c \<le> 57"
  by (induction a s rule: digits_val.induct) (auto simp: digit_val_def split: if_splits option.splits)

lemma show_nat_no_minus: "show_nat n \<noteq> CHR ''-'' # s"
  using show_nat_notin[of "CHR ''-''" n] by (auto simp: code_def)

lemma show_int_inj: "show_int a = show_int b \<Longrightarrow> a = b"
  by (auto simp: show_int_def show_nat_no_minus show_nat_no_minus[symmetric] dest!: show_nat_inj
      split: if_splits)

end
