(* ===== verification/Common.thy ===== *)
theory Common
  imports Decimal "HOL-Library.Multiset"
begin

text \<open>
  The crate's shared pieces: the \<^verbatim>\<open>Error\<close> enum (src/api/error.rs), the process wide properties
  (src/lib.rs), the helpers of src/common/util.rs, the response check of src/common/error.rs and the
  request id sequence of src/common/remote/mod.rs with its reset, also under concurrent callers.
\<close>

section \<open>Errors and results\<close>

text \<open>
  The payloads of errors that wrap an error of another crate (serde, tonic, tower) are kept as
  strings.
\<close>

datatype error =
    Serialization string
  | ErrResult string
  | InvalidParam string string
  | ErrResponse "string option" "32 word" "32 word" "string option"
  | ConfigNotFound string
  | ConfigQueryConflict string
  | ClientShutdown string
  | ClientUnhealthy string
  | TonicGrpcTransport string
  | TonicGrpcStatus string
  | GrpcBufferRequest string
  | NoAvailableServer
  | WrongServerAddress string
  | MaxRetriesExceeded "32 word"

type_synonym 'a result = "error + 'a"

abbreviation Ok :: "'a \<Rightarrow> 'a result" where "Ok \<equiv> Inr"
abbreviation Err :: "error \<Rightarrow> 'a result" where "Err \<equiv> Inl"

text \<open>The question mark operator.\<close>

fun and_then :: "'a result \<Rightarrow> ('a \<Rightarrow> 'b result) \<Rightarrow> 'b result" where
  "and_then (Inl e) f = Inl e"
| "and_then (Inr x) f = f x"

fun is_ok :: "'a result \<Rightarrow> bool" where
  "is_ok (Inl e) = False"
| "is_ok (Inr x) = True"

lemma and_then_Ok: "and_then r f = Inr y \<longleftrightarrow> (\<exists>x. r = Inr x \<and> f x = Inr y)"
  by (cases r) auto

lemma and_then_Err: "and_then r f = Inl e \<longleftrightarrow> r = Inl e \<or> (\<exists>x. r = Inr x \<and> f x = Inl e)"
  by (cases r) auto

lemma is_ok_iff: "is_ok r \<longleftrightarrow> (\<exists>x. r = Inr x)"
  by (cases r) auto

section \<open>Properties\<close>

text \<open>\<^verbatim>\<open>PROPERTIES\<close>: the environment and the dotenv file, read once; here an argument.\<close>

type_synonym props = "string \<rightharpoonup> string"

definition get_value_option :: "props \<Rightarrow> string \<Rightarrow> string option" where
  "get_value_option P key = P key"

definition get_value :: "props \<Rightarrow> string \<Rightarrow> string \<Rightarrow> string" where
  "get_value P key dflt = (case P key of None \<Rightarrow> dflt | Some v \<Rightarrow> v)"

definition get_value_u16 :: "props \<Rightarrow> string \<Rightarrow> 16 word \<Rightarrow> 16 word" where
  "get_value_u16 P key dflt =
    (case P key of None \<Rightarrow> dflt
     | Some v \<Rightarrow> (case parse_u16 v of None \<Rightarrow> dflt | Some n \<Rightarrow> n))"

definition get_value_bool :: "props \<Rightarrow> string \<Rightarrow> bool \<Rightarrow> bool" where
  "get_value_bool P key dflt =
    (case P key of None \<Rightarrow> dflt
     | Some v \<Rightarrow> (case parse_bool v of None \<Rightarrow> dflt | Some b \<Rightarrow> b))"

section \<open>Helpers of src/common/util.rs\<close>

definition DEFAULT_GROUP :: string where
  "DEFAULT_GROUP = ''DEFAULT_GROUP''"

text \<open>The sequence number is the atomic's old value; the atomic wraps.\<close>

definition generate_client_id ::
    "string \<Rightarrow> string \<Rightarrow> string \<Rightarrow> 64 word \<Rightarrow> string \<times> 64 word" where
  "generate_client_id module_name server_addr namespace seq =
    (module_name @ ''-_-'' @ server_addr @ ''-_-'' @ namespace @ ''-_-'' @ show_u64 seq, seq + 1)"

definition normalize_group_name :: "string option \<Rightarrow> string" where
  "normalize_group_name g =
    (case g of None \<Rightarrow> DEFAULT_GROUP | Some d \<Rightarrow> if d = [] then DEFAULT_GROUP else d)"

definition unordered_eq :: "'a::linorder list \<Rightarrow> 'a list \<Rightarrow> bool" where
  "unordered_eq a b = (if length a \<noteq> length b then False else sort a = sort b)"

definition check_not_blank :: "string \<Rightarrow> string \<Rightarrow> string result" where
  "check_not_blank param_val param_name =
    (if trim param_val = [] then Err (InvalidParam param_name ''param must not blank!'')
     else Ok param_val)"

lemma unordered_eq_mset: "unordered_eq a b \<longleftrightarrow> mset a = mset b"
proof
  show "unordered_eq a b \<Longrightarrow> mset a = mset b"
    by (metis unordered_eq_def mset_sort)
  show "mset a = mset b \<Longrightarrow> unordered_eq a b"
    by (auto simp: unordered_eq_def dest: mset_eq_length)
      (metis mset_sort properties_for_sort sorted_sort)
qed

lemma check_not_blank_Ok: "check_not_blank v n = Inr x \<longleftrightarrow> x = v \<and> trim v \<noteq> []"
  by (auto simp: check_not_blank_def)

lemma check_not_blank_nonempty: "check_not_blank v n = Inr x \<Longrightarrow> x \<noteq> []"
  by (auto simp: check_not_blank_def split: if_splits)

text \<open>Two clients of one process never share an id: the id ends in the sequence number.\<close>

lemma append_digits_inj:
  assumes "a @ CHR ''-'' # show_nat m = b @ CHR ''-'' # show_nat n"
  shows "a = b \<and> m = n"
proof -
  have nin: "CHR ''-'' \<notin> set (show_nat k)" for k
    by (rule show_nat_notin) (simp add: code_def)
  have "takeWhile (\<lambda>c. c \<noteq> CHR ''-'') (rev (x @ CHR ''-'' # show_nat k)) = rev (show_nat k)" for x k
    using takeWhile_append2[of "rev (show_nat k)" "\<lambda>c. c \<noteq> CHR ''-''" "CHR ''-'' # rev x"] nin[of k]
    by auto
  from this[of a m] this[of b n] assms have "show_nat m = show_nat n" by simp
  then show ?thesis using assms show_nat_inj by auto
qed

section \<open>Responses\<close>

text \<open>
  The fields the \<^verbatim>\<open>response\<close> attribute macro appends to every response struct
  (nacos-macro/src/message/response.rs); a response type extends this record.
\<close>

record grpc_response =
  result_code :: "32 word"
  error_code :: "32 word"
  message :: "string option"
  response_id :: "string option"

definition SUCCESS_CODE :: "32 word" where "SUCCESS_CODE = 200"
definition FAIL_CODE :: "32 word" where "FAIL_CODE = 500"

definition response_default :: grpc_response where
  "response_default = \<lparr>result_code = 0, error_code = 0, message = None, response_id = None\<rparr>"

definition response_ok :: grpc_response where
  "response_ok = response_default\<lparr>result_code := SUCCESS_CODE, message := Some ''Response ok''\<rparr>"

definition response_fail :: grpc_response where
  "response_fail = response_default\<lparr>result_code := FAIL_CODE, message := Some ''Response fail''\<rparr>"

definition is_success :: "'a grpc_response_scheme \<Rightarrow> bool" where
  "is_success r = (result_code r = SUCCESS_CODE)"

definition to_err_msg :: "'a grpc_response_scheme \<Rightarrow> string \<Rightarrow> string" where
  "to_err_msg r operation =
    ''handle '' @ operation @ '' failed: result_code='' @ show_i32 (result_code r) @
    '', error_code='' @ show_i32 (error_code r) @ '', message='' @
    (case message r of None \<Rightarrow> [] | Some m \<Rightarrow> m)"

definition handle_response :: "'a grpc_response_scheme \<Rightarrow> string \<Rightarrow> unit result" where
  "handle_response r operation =
    (if is_success r then Ok () else Err (ErrResult (to_err_msg r operation)))"

lemma handle_response_Ok [simp]: "handle_response r oper = Inr u \<longleftrightarrow> is_success r"
  by (simp add: handle_response_def)

lemma response_ok_success [simp]: "is_success response_ok" "\<not> is_success response_fail"
  by (simp_all add: is_success_def response_ok_def response_fail_def SUCCESS_CODE_def FAIL_CODE_def)

section \<open>The shared HTTP client\<close>

text \<open>The limits, in milliseconds, that every request over HTTP has: for the connection, and in all.\<close>

record http_client =
  http_connect_timeout :: nat
  http_timeout :: nat

definition HTTP_CLIENT :: http_client where
  "HTTP_CLIENT = \<lparr>http_connect_timeout = 5 * 1000, http_timeout = 10 * 1000\<rparr>"

section \<open>Request ids\<close>

definition SEQUENCE_INITIAL_VALUE :: "64 word" where "SEQUENCE_INITIAL_VALUE = 1"
definition SEQUENCE_DELTA :: "64 word" where "SEQUENCE_DELTA = 2"

definition I64_MAX :: int where "I64_MAX = 2 ^ 63 - 1"

text \<open>
  The two atomic operations of \<^verbatim>\<open>generate_request_id\<close>: the \<^verbatim>\<open>fetch_add\<close> (which wraps), and the
  \<^verbatim>\<open>store\<close> a caller makes afterwards when its value is within 1000 of the largest.
\<close>

definition seq_fetch :: "64 word \<Rightarrow> 64 word \<times> 64 word" where
  "seq_fetch a = (a, a + SEQUENCE_DELTA)"

definition seq_must_reset :: "64 word \<Rightarrow> bool" where
  "seq_must_reset s = (I64_MAX - 1000 < sint s)"

definition generate_request_id :: "64 word \<Rightarrow> string \<times> 64 word" where
  "generate_request_id a =
    (let (s, a1) = seq_fetch a;
         a2 = (if seq_must_reset s then SEQUENCE_INITIAL_VALUE else a1)
     in (show_i64 s, a2))"

text \<open>
  Interleavings: \<open>pending\<close> callers have fetched a value near the maximum and have not stored yet;
  \<open>issued\<close> lists the ids handed out, the latest first.
\<close>

record seq_state =
  atomic :: "64 word"
  pending :: nat
  issued :: "64 word list"

inductive seq_step :: "seq_state \<Rightarrow> seq_state \<Rightarrow> bool" where
  fetch: "s = atomic st \<Longrightarrow>
    seq_step st (st\<lparr>atomic := snd (seq_fetch s), issued := s # issued st,
      pending := (if seq_must_reset s then Suc (pending st) else pending st)\<rparr>)"
| reset: "pending st = Suc p \<Longrightarrow>
    seq_step st (st\<lparr>atomic := SEQUENCE_INITIAL_VALUE, pending := p\<rparr>)"

inductive seq_reach :: "nat \<Rightarrow> seq_state \<Rightarrow> bool" for n where
  init: "seq_reach n \<lparr>atomic = SEQUENCE_INITIAL_VALUE, pending = 0, issued = []\<rparr>"
| step: "seq_reach n st \<Longrightarrow> seq_step st st' \<Longrightarrow> pending st' \<le> n \<Longrightarrow> seq_reach n st'"

fun request_ids :: "nat \<Rightarrow> 64 word \<Rightarrow> string list" where
  "request_ids 0 a = []"
| "request_ids (Suc k) a = (let (i, a') = generate_request_id a in i # request_ids k a')"

lemma sint_add_word:
  assumes "- (2 ^ 63) \<le> sint (a :: 64 word) + i" "sint a + i < 2 ^ 63"
  shows "sint (a + word_of_int i) = sint a + i"
proof -
  have "a + word_of_int i = (word_of_int (sint a + i) :: 64 word)" by simp
  then have "sint (a + word_of_int i) = signed_take_bit 63 (sint a + i)"
    using sint_sbintrunc'[of "sint a + i", where ?'a = 64] by (simp only:) simp
  then show ?thesis using assms by (simp add: signed_take_bit_int_eq_self)
qed

lemma sint_fetch: "sint a \<le> I64_MAX - 2 \<Longrightarrow> sint (snd (seq_fetch a)) = sint a + 2"
  using sint_add_word[of a 2] sint_greater_eq[of a]
  by (simp add: seq_fetch_def SEQUENCE_DELTA_def I64_MAX_def)

definition seq_inv :: "seq_state \<Rightarrow> bool" where
  "seq_inv st =
    (odd (sint (atomic st)) \<and> 1 \<le> sint (atomic st) \<and>
     sint (atomic st) \<le> I64_MAX - 998 + 2 * int (pending st) \<and>
     (\<forall>s\<in>set (issued st). odd (sint s) \<and> 1 \<le> sint s))"

lemma seq_inv_step [wf_preserve]:
  assumes "seq_step st st'" "seq_inv st" "pending st' \<le> 499"
  shows "seq_inv st'"
  using assms(1)
proof (cases rule: seq_step.cases)
  case (fetch s)
  have le: "sint s \<le> I64_MAX - 2"
  proof (cases "seq_must_reset s")
    case True
    then have "pending st \<le> 498" using assms(3) fetch by simp
    then show ?thesis using assms(2) fetch by (simp add: seq_inv_def)
  next
    case False
    then show ?thesis by (simp add: seq_must_reset_def)
  qed
  from sint_fetch[OF le] show ?thesis
    using assms(2) fetch by (auto simp: seq_inv_def seq_must_reset_def)
next
  case (reset p)
  then show ?thesis using assms(2) by (simp add: seq_inv_def SEQUENCE_INITIAL_VALUE_def I64_MAX_def)
qed

lemma seq_reach_inv: "seq_reach n st \<Longrightarrow> n \<le> 499 \<Longrightarrow> seq_inv st"
proof (induction rule: seq_reach.induct)
  case init
  then show ?case by (simp add: seq_inv_def SEQUENCE_INITIAL_VALUE_def I64_MAX_def)
next
  case (step st st')
  then show ?case using seq_inv_step by simp
qed

lemma request_ids_values:
  "1 \<le> sint a \<Longrightarrow> sint a + 2 * int k \<le> I64_MAX - 998 \<Longrightarrow>
    request_ids k a = map (\<lambda>j. show_int (sint a + 2 * int j)) [0..<k]"
proof (induction k arbitrary: a)
  case (Suc k)
  then have nr: "\<not> seq_must_reset a" by (simp add: seq_must_reset_def)
  have a': "sint (a + 2) = sint a + 2"
    using sint_fetch[of a] Suc.prems by (simp add: seq_fetch_def SEQUENCE_DELTA_def)
  have "request_ids k (a + 2) = map (\<lambda>j. show_int (sint a + 2 * int (Suc j))) [0..<k]"
    using Suc.IH[of "a + 2"] Suc.prems a' by (simp add: algebra_simps)
  then have "request_ids (Suc k) a =
      show_int (sint a + 2 * int 0) # map ((\<lambda>j. show_int (sint a + 2 * int j)) \<circ> Suc) [0..<k]"
    using nr by (simp add: generate_request_id_def seq_fetch_def SEQUENCE_DELTA_def show_i64_def)
  also have "\<dots> = map (\<lambda>j. show_int (sint a + 2 * int j)) [0..<Suc k]"
    by (simp only: map_map[symmetric] map_Suc_upt upt_conv_Cons[of 0 "Suc k"] zero_less_Suc list.map)
  finally show ?case .
qed simp

text \<open>
  with at most 499 callers between their fetch and their store, every request id the client
  hands out is odd and positive: the sequence never wraps into the negative or even numbers.
\<close>

lemma request_ids_odd_positive:
  assumes "seq_reach n st" "n \<le> 499" "s \<in> set (issued st)"
  shows "odd (sint s) \<and> 0 < sint s"
  using seq_reach_inv[OF assms(1,2)] assms(3) by (auto simp: seq_inv_def)

lemma request_ids_odd_positive_witness:
  "odd (sint (1 :: 64 word)) \<and> 0 < sint (1 :: 64 word)"
proof -
  let ?i = "\<lparr>atomic = SEQUENCE_INITIAL_VALUE, pending = 0, issued = []\<rparr>"
  have "seq_step ?i \<lparr>atomic = 3, pending = 0, issued = [1]\<rparr>"
    using seq_step.fetch[of 1 ?i]
    by (simp add: SEQUENCE_INITIAL_VALUE_def seq_fetch_def SEQUENCE_DELTA_def seq_must_reset_def I64_MAX_def)
  then have "seq_reach 3 \<lparr>atomic = 3, pending = 0, issued = [1]\<rparr>"
    by (rule seq_reach.step[OF seq_reach.init]) simp
  from request_ids_odd_positive[OF this, of 1] show ?thesis by simp
qed

text \<open>
  C36: ids do not repeat before the reset: any run of fewer than 2 to the 62 minus 1000 calls by one
  caller from the initial state yields pairwise distinct ids.
\<close>

theorem request_ids_distinct:
  assumes "int k \<le> 2 ^ 62 - 1000"
  shows "distinct (request_ids k SEQUENCE_INITIAL_VALUE)"
proof -
  have "request_ids k SEQUENCE_INITIAL_VALUE = map (\<lambda>j. show_int (1 + 2 * int j)) [0..<k]"
    using request_ids_values[of 1 k] assms by (simp add: I64_MAX_def SEQUENCE_INITIAL_VALUE_def)
  then show ?thesis by (auto simp: distinct_map inj_on_def dest!: show_int_inj)
qed

lemma request_ids_distinct_witness:
  "distinct (request_ids 3 SEQUENCE_INITIAL_VALUE)"
  using request_ids_distinct[of 3] by simp

end
