(* ===== verification/Messages.thy ===== *)
theory Messages
  imports Common
begin

text \<open>
  The gRPC envelope: the fields and methods the \<^verbatim>\<open>request\<close> attribute macro generates
  (nacos-macro/src/message/request.rs), and \<^verbatim>\<open>GrpcMessage\<close> with its conversion to and from a
  protobuf \<^verbatim>\<open>Payload\<close> (src/common/remote/grpc/message/mod.rs). serde\_json is the pair of
  parameters \<open>to_vec\<close> and \<open>from_slice\<close>, one per message type.
\<close>

section \<open>Requests\<close>

type_synonym headers = "string \<rightharpoonup> string"
type_synonym bytes = string

record grpc_request =
  req_headers :: headers
  request_id :: "string option"

record RequestResource =
  request_type :: string
  rr_namespace :: "string option"
  rr_group :: "string option"
  rr_resource :: "string option"

text \<open>The fields the macro adds to the requests of the two modules.\<close>

record config_request = grpc_request +
  cr_namespace :: "string option"
  cr_data_id :: "string option"
  cr_group :: "string option"

record naming_request = grpc_request +
  nr_namespace :: "string option"
  nr_service_name :: "string option"
  nr_group_name :: "string option"

datatype req_module = Config | Naming | Internal

fun req_module_name :: "req_module \<Rightarrow> string" where
  "req_module_name Config = ''config''"
| "req_module_name Naming = ''naming''"
| "req_module_name Internal = ''internal''"

definition config_resource :: "'a config_request_scheme \<Rightarrow> RequestResource option" where
  "config_resource r = Some \<lparr>request_type = ''Config'', rr_namespace = cr_namespace r,
     rr_group = cr_group r, rr_resource = cr_data_id r\<rparr>"

definition naming_resource :: "'a naming_request_scheme \<Rightarrow> RequestResource option" where
  "naming_resource r = Some \<lparr>request_type = ''Naming'', rr_namespace = nr_namespace r,
     rr_group = nr_group_name r, rr_resource = nr_service_name r\<rparr>"

definition internal_resource :: "'a grpc_request_scheme \<Rightarrow> RequestResource option" where
  "internal_resource r = None"

definition req_header :: "'a grpc_request_scheme \<Rightarrow> string \<Rightarrow> string option" where
  "req_header r key = req_headers r key"

definition take_headers :: "'a grpc_request_scheme \<Rightarrow> headers \<times> 'a grpc_request_scheme" where
  "take_headers r = (req_headers r, r\<lparr>req_headers := Map.empty\<rparr>)"

definition add_headers :: "headers \<Rightarrow> 'a grpc_request_scheme \<Rightarrow> 'a grpc_request_scheme" where
  "add_headers m r = r\<lparr>req_headers := req_headers r ++ m\<rparr>"

lemma add_headers_lookup [lookup_laws]:
  "req_header (add_headers m r) k = (case m k of Some v \<Rightarrow> Some v | None \<Rightarrow> req_header r k)"
  by (simp add: req_header_def add_headers_def map_add_def split: option.splits)

lemma take_headers_lookup [lookup_laws]:
  "req_header (snd (take_headers r)) k = None" "fst (take_headers r) k = req_header r k"
  by (simp_all add: req_header_def take_headers_def)

section \<open>Payloads\<close>

record proto_any =
  type_url :: string
  any_value :: bytes

record metadata =
  m_type :: string
  m_client_ip :: string
  m_headers :: headers

record payload =
  p_metadata :: "metadata option"
  p_body :: "proto_any option"

definition metadata_default :: metadata where
  "metadata_default = \<lparr>m_type = [], m_client_ip = [], m_headers = Map.empty\<rparr>"

record 'b grpc_message =
  gm_headers :: headers
  gm_body :: 'b
  gm_client_ip :: string

type_synonym 'b to_vec = "'b \<Rightarrow> string + bytes"
type_synonym 'b from_slice = "bytes \<Rightarrow> string + 'b"

definition to_proto_any :: "string \<Rightarrow> 'b to_vec \<Rightarrow> 'b \<Rightarrow> proto_any result" where
  "to_proto_any identity to_vec body =
    (case to_vec body of
       Inl e \<Rightarrow> Err (Serialization e)
     | Inr d \<Rightarrow> Ok \<lparr>type_url = identity, any_value = d\<rparr>)"

definition from_proto_any :: "'b from_slice \<Rightarrow> proto_any \<Rightarrow> 'b result" where
  "from_proto_any from_slice any =
    (case from_slice (any_value any) of
       Inl e \<Rightarrow> Err (Serialization e)
     | Inr b \<Rightarrow> Ok b)"

definition into_payload :: "string \<Rightarrow> 'b to_vec \<Rightarrow> 'b grpc_message \<Rightarrow> payload result" where
  "into_payload identity to_vec m =
    and_then (to_proto_any identity to_vec (gm_body m)) (\<lambda>body.
      Ok \<lparr>p_metadata = Some \<lparr>m_type = identity, m_client_ip = gm_client_ip m, m_headers = gm_headers m\<rparr>,
          p_body = Some body\<rparr>)"

definition err_response :: "grpc_response \<Rightarrow> error" where
  "err_response er = ErrResponse (response_id er) (result_code er) (error_code er) (message er)"

definition from_payload ::
    "string \<Rightarrow> 'b from_slice \<Rightarrow> grpc_response from_slice \<Rightarrow> payload \<Rightarrow> 'b grpc_message result" where
  "from_payload identity from_slice err_slice p =
    (case p_body p of
       None \<Rightarrow> Err (ErrResult ''grpc payload body is empty'')
     | Some body_any \<Rightarrow>
       (let md = (case p_metadata p of None \<Rightarrow> metadata_default | Some md \<Rightarrow> md);
            mk = (\<lambda>b. \<lparr>gm_headers = m_headers md, gm_body = b, gm_client_ip = m_client_ip md\<rparr>)
        in if m_type md \<noteq> [] then
             if identity = m_type md then
               and_then (from_proto_any from_slice body_any) (\<lambda>b. Ok (mk b))
             else
               and_then (from_proto_any err_slice body_any) (\<lambda>er. Err (err_response er))
           else
             (case from_proto_any from_slice body_any of
                Inr b \<Rightarrow> Ok (mk b)
              | Inl error \<Rightarrow>
                  (case from_proto_any err_slice body_any of
                     Inr er \<Rightarrow> Err (err_response er)
                   | Inl _ \<Rightarrow> Err error))))"

text \<open>\<^verbatim>\<open>GrpcMessageBuilder\<close>; the local address is a parameter.\<close>

definition builder_new :: "string \<Rightarrow> 'b \<Rightarrow> 'b grpc_message" where
  "builder_new local_ip body = \<lparr>gm_headers = Map.empty, gm_body = body, gm_client_ip = local_ip\<rparr>"

definition builder_header :: "string \<Rightarrow> string \<Rightarrow> 'b grpc_message \<Rightarrow> 'b grpc_message" where
  "builder_header k v b = b\<lparr>gm_headers := (gm_headers b)(k \<mapsto> v)\<rparr>"

definition builder_headers :: "headers \<Rightarrow> 'b grpc_message \<Rightarrow> 'b grpc_message" where
  "builder_headers m b = b\<lparr>gm_headers := gm_headers b ++ m\<rparr>"

definition builder_build :: "'b grpc_message \<Rightarrow> 'b grpc_message" where
  "builder_build b = \<lparr>gm_headers = gm_headers b, gm_body = gm_body b, gm_client_ip = gm_client_ip b\<rparr>"

lemma builder_build_id [simp]: "builder_build b = b"
  by (cases b) (simp add: builder_build_def)

section \<open>Connection set-up\<close>

record NacosClientRemoteAbility =
  ra_support_remote_connection :: bool

record NacosClientConfigAbility =
  ca_support_remote_metrics :: bool

record NacosClientNamingAbility =
  na_support_delta_push :: bool
  na_support_remote_metric :: bool

record NacosClientAbilities =
  remote_ability :: NacosClientRemoteAbility
  config_ability :: NacosClientConfigAbility
  naming_ability :: NacosClientNamingAbility

definition RemoteAbility_new :: NacosClientRemoteAbility where
  "RemoteAbility_new = \<lparr>ra_support_remote_connection = False\<rparr>"

definition set_remote_connection :: "bool \<Rightarrow> NacosClientRemoteAbility \<Rightarrow> NacosClientRemoteAbility" where
  "set_remote_connection b r = r\<lparr>ra_support_remote_connection := b\<rparr>"

definition ConfigAbility_new :: NacosClientConfigAbility where
  "ConfigAbility_new = \<lparr>ca_support_remote_metrics = False\<rparr>"

definition set_remote_metrics :: "bool \<Rightarrow> NacosClientConfigAbility \<Rightarrow> NacosClientConfigAbility" where
  "set_remote_metrics b c = c\<lparr>ca_support_remote_metrics := b\<rparr>"

definition NamingAbility_new :: NacosClientNamingAbility where
  "NamingAbility_new = \<lparr>na_support_delta_push = False, na_support_remote_metric = False\<rparr>"

definition set_delta_push :: "bool \<Rightarrow> NacosClientNamingAbility \<Rightarrow> NacosClientNamingAbility" where
  "set_delta_push b n = n\<lparr>na_support_delta_push := b\<rparr>"

definition set_remote_metric :: "bool \<Rightarrow> NacosClientNamingAbility \<Rightarrow> NacosClientNamingAbility" where
  "set_remote_metric b n = n\<lparr>na_support_remote_metric := b\<rparr>"

definition abilities_new :: NacosClientAbilities where
  "abilities_new = \<lparr>remote_ability = RemoteAbility_new, config_ability = ConfigAbility_new, naming_ability = NamingAbility_new\<rparr>"

definition support_remote_connection :: "bool \<Rightarrow> NacosClientAbilities \<Rightarrow> NacosClientAbilities" where
  "support_remote_connection b a = a\<lparr>remote_ability := set_remote_connection b (remote_ability a)\<rparr>"

definition support_config_remote_metrics :: "bool \<Rightarrow> NacosClientAbilities \<Rightarrow> NacosClientAbilities" where
  "support_config_remote_metrics b a = a\<lparr>config_ability := set_remote_metrics b (config_ability a)\<rparr>"

definition support_naming_delta_push :: "bool \<Rightarrow> NacosClientAbilities \<Rightarrow> NacosClientAbilities" where
  "support_naming_delta_push b a = a\<lparr>naming_ability := set_delta_push b (naming_ability a)\<rparr>"

definition support_naming_remote_metric :: "bool \<Rightarrow> NacosClientAbilities \<Rightarrow> NacosClientAbilities" where
  "support_naming_remote_metric b a = a\<lparr>naming_ability := set_remote_metric b (naming_ability a)\<rparr>"

lemmas ability_defs = RemoteAbility_new_def ConfigAbility_new_def NamingAbility_new_def set_remote_connection_def
  set_remote_metrics_def set_delta_push_def set_remote_metric_def abilities_new_def support_remote_connection_def
  support_config_remote_metrics_def support_naming_delta_push_def support_naming_remote_metric_def

record ConnectionSetupRequest = grpc_request +
  client_version :: string
  abilities :: NacosClientAbilities
  tenant :: string
  labels :: headers

record ServerCheckResponse = grpc_response +
  connection_id :: "string option"

definition ServerCheckRequest_new :: "64 word \<Rightarrow> grpc_request \<times> 64 word" where
  "ServerCheckRequest_new seq =
    (let (i, seq') = generate_request_id seq
     in (\<lparr>req_headers = Map.empty, request_id = Some i\<rparr>, seq'))"

section \<open>Properties\<close>

text \<open>The codec of one message type: decoding undoes encoding.\<close>

definition codec_ok :: "'b to_vec \<Rightarrow> 'b from_slice \<Rightarrow> bool" where
  "codec_ok to_vec from_slice = (\<forall>b d. to_vec b = Inr d \<longrightarrow> from_slice d = Inr b)"

text \<open>
  a message put into a payload is read back from it unchanged, headers and client address
  included, whatever the payload's error decoder is; the codec of the body is assumed to be a
  round trip, nothing else.
\<close>

lemma payload_roundtrip:
  assumes "codec_ok to_vec from_slice" "into_payload identity to_vec m = Inr p"
  shows "from_payload identity from_slice err_slice p = Inr m"
proof -
  obtain d where d: "to_vec (gm_body m) = Inr d"
    and p: "p = \<lparr>p_metadata = Some \<lparr>m_type = identity, m_client_ip = gm_client_ip m, m_headers = gm_headers m\<rparr>,
       p_body = Some \<lparr>type_url = identity, any_value = d\<rparr>\<rparr>"
    using assms(2) by (auto simp: into_payload_def to_proto_any_def split: sum.splits)
  have "from_slice d = Inr (gm_body m)" using assms(1) d by (simp add: codec_ok_def)
  then show ?thesis
    by (cases m) (auto simp: p from_payload_def from_proto_any_def Let_def)
qed

lemma payload_roundtrip_witness:
  "from_payload ''T'' Inr (\<lambda>_. Inl []) \<lparr>p_metadata = Some \<lparr>m_type = ''T'', m_client_ip = ''ip'', m_headers = [''k'' \<mapsto> ''v'']\<rparr>,
     p_body = Some \<lparr>type_url = ''T'', any_value = ''x''\<rparr>\<rparr>
   = Inr \<lparr>gm_headers = [''k'' \<mapsto> ''v''], gm_body = ''x'', gm_client_ip = ''ip''\<rparr>"
  by (rule payload_roundtrip[of Inr]) (simp_all add: codec_ok_def into_payload_def to_proto_any_def)

text \<open>
  a payload is decoded as the expected type exactly when it has a body and its type name is the
  expected one or empty; a payload of another type is always an error, the server's error response
  when the body is one.
\<close>

lemma from_payload_accepts:
  "from_payload identity from_slice err_slice p = Inr m \<longleftrightarrow>
    (\<exists>body md b. p_body p = Some body \<and> md = (case p_metadata p of None \<Rightarrow> metadata_default | Some md \<Rightarrow> md) \<and>
      (m_type md = identity \<or> m_type md = []) \<and> from_slice (any_value body) = Inr b \<and>
      m = \<lparr>gm_headers = m_headers md, gm_body = b, gm_client_ip = m_client_ip md\<rparr>)"
  by (auto simp: from_payload_def from_proto_any_def Let_def and_then_Ok split: option.splits sum.splits if_splits)

lemma from_payload_foreign:
  assumes "p_body p = Some body" "p_metadata p = Some md" "m_type md \<noteq> []" "m_type md \<noteq> identity"
    "err_slice (any_value body) = Inr er"
  shows "from_payload identity from_slice err_slice p = Inl (err_response er)"
  using assms by (simp add: from_payload_def from_proto_any_def)

end
