(* ===== verification/Connection.thy ===== *)
theory Connection
  imports Messages
begin

text \<open>
  The connection to a server (src/common/remote/grpc/nacos\_grpc\_connection.rs): its set-up, the state
  machine of \<^verbatim>\<open>poll_ready\<close> with retries and back-off, the stream of server requests, the listeners
  of connects and disconnects, and the health check that gives a connection up.
\<close>

section \<open>Set-up\<close>

text \<open>src/common/remote/grpc/utils.rs.\<close>

definition convert :: "'a result \<Rightarrow> string \<Rightarrow> 'a result" where
  "convert r ctxt = (case r of Inl e \<Rightarrow> Err (ErrResult ctxt) | Inr x \<Rightarrow> Ok x)"

definition recv_response :: "'a option \<Rightarrow> string \<Rightarrow> 'a result" where
  "recv_response r ctxt = (case r of None \<Rightarrow> Err (ErrResult ctxt) | Some x \<Rightarrow> Ok x)"

definition unwrap_option :: "'a option \<Rightarrow> string \<Rightarrow> 'a result" where
  "unwrap_option r ctxt = (case r of None \<Rightarrow> Err (ErrResult ctxt) | Some x \<Rightarrow> Ok x)"

text \<open>The first message of the stream to the server.\<close>

definition setup_payload ::
    "ConnectionSetupRequest to_vec \<Rightarrow> string \<Rightarrow> string \<Rightarrow> string \<Rightarrow> headers \<Rightarrow> NacosClientAbilities \<Rightarrow> payload result" where
  "setup_payload to_vec local_ip version namespace lbls abl =
    convert (into_payload ''ConnectionSetupRequest'' to_vec (builder_build (builder_new local_ip
      \<lparr>req_headers = Map.empty, request_id = None, client_version = version, abilities = abl, tenant = namespace, labels = lbls\<rparr>)))
    ''setup message convert to grpc message occur an error''"

text \<open>
  A unary call: None when the reply channel was dropped, Some otherwise. A call of the health check
  may time out.
\<close>

datatype 'a timed = Elapsed | InTime 'a

definition connection_health_check ::
    "grpc_response from_slice \<Rightarrow> grpc_response from_slice \<Rightarrow> payload result option timed \<Rightarrow> unit result" where
  "connection_health_check from_slice err_slice reply =
    (case reply of
       Elapsed \<Rightarrow> Err (ErrResult ''connection health check request timeout'')
     | InTime resp \<Rightarrow>
         and_then (recv_response resp ''grpc request callback failed'') (\<lambda>r.
         and_then (convert r ''connection health check failed'') (\<lambda>response.
           case from_payload ''HealthCheckResponse'' from_slice err_slice response of
             Inl e \<Rightarrow> Err (ErrResult ''connection health check failed, convert to grpc message failed'')
           | Inr _ \<Rightarrow> Ok ())))"

definition check_server ::
    "ServerCheckResponse from_slice \<Rightarrow> grpc_response from_slice \<Rightarrow> payload result option \<Rightarrow> string result" where
  "check_server from_slice err_slice reply =
    and_then (recv_response reply ''grpc request callback failed'') (\<lambda>r.
    and_then (convert r ''check server failed'') (\<lambda>response.
    and_then (convert (from_payload ''ServerCheckResponse'' from_slice err_slice response)
      ''check server failed convert to grpc message failed'') (\<lambda>m.
      unwrap_option (connection_id (gm_body m)) ''check server failed connection id is empty'')))"

text \<open>
  \<^verbatim>\<open>init_connection\<close>: the milliseconds it pauses between its health checks, whose results do not
  matter beyond that, and its result; \<open>sent\<close> tells whether the stream task took the connection id.
\<close>

fun init_pauses :: "nat \<Rightarrow> unit result list \<Rightarrow> nat list" where
  "init_pauses i [] = []"
| "init_pauses i (r # rs) =
    (if i < 4 \<and> \<not> is_ok r then 300 * 2 ^ i # init_pauses (i + 1) rs else [])"

definition init_connection :: "unit result \<Rightarrow> string result \<Rightarrow> bool \<Rightarrow> string result" where
  "init_connection setup server sent =
    and_then setup (\<lambda>_. and_then server (\<lambda>cid.
      if sent then Ok cid
      else Err (ErrResult ''the bi stream task has already quit, because connection id sender send id occur an error'')))"

section \<open>The server's requests\<close>

type_synonym handler_map = "string \<rightharpoonup> (payload \<Rightarrow> payload option)"

definition DefaultHandler :: "payload \<Rightarrow> payload option" where
  "DefaultHandler p = None"

definition stream_reply :: "handler_map \<Rightarrow> payload \<Rightarrow> payload option" where
  "stream_reply handlers response =
    (case map_option m_type (p_metadata response) of
       None \<Rightarrow> None
     | Some handler_key \<Rightarrow> (case handlers handler_key of None \<Rightarrow> DefaultHandler | Some h \<Rightarrow> h) response)"

text \<open>The messages of the stream up to its first error; the replies the task sends, in order.\<close>

fun stream_task :: "handler_map \<Rightarrow> payload result list \<Rightarrow> payload list" where
  "stream_task handlers [] = []"
| "stream_task handlers (Inl e # rest) = []"
| "stream_task handlers (Inr response # rest) =
    (case stream_reply handlers response of
       None \<Rightarrow> stream_task handlers rest
     | Some ret \<Rightarrow> ret # stream_task handlers rest)"

text \<open>src/common/remote/grpc/handlers/client\_detection\_request\_handler.rs.\<close>

definition ClientDetection_reply ::
    "grpc_request from_slice \<Rightarrow> grpc_response from_slice \<Rightarrow> grpc_response to_vec \<Rightarrow> string \<Rightarrow> payload \<Rightarrow> payload option" where
  "ClientDetection_reply from_slice err_slice to_vec local_ip request =
    (case from_payload ''ClientDetectionRequest'' from_slice err_slice request of
       Inl e \<Rightarrow> None
     | Inr m \<Rightarrow>
         (let response = response_ok\<lparr>response_id := request_id (gm_body m)\<rparr>
          in case into_payload ''ClientDetectionResponse'' to_vec (builder_build (builder_new local_ip response)) of
               Inl e \<Rightarrow> None
             | Inr p \<Rightarrow> Some p))"

section \<open>The state machine\<close>

definition MAX_RETRY :: nat where "MAX_RETRY = 6"

definition sleep_time :: "nat \<Rightarrow> nat" where
  "sleep_time retry_count = (if MAX_RETRY < retry_count then 2 ^ MAX_RETRY else 2 ^ retry_count)"

datatype conn_state = Idle | Connecting | Initializing | Connected | Retry nat

text \<open>
  \<open>cn_watch\<close> lists what was sent on the connection id channel, the latest last; \<open>cn_streams\<close> the
  connections whose stream task is running. The retry counter is a number that does not wrap: with a
  pause of a minute after each, \<open>2 ^ 32\<close> failures take 8000 years.
\<close>

record conn =
  cn_state :: conn_state
  cn_health :: bool
  cn_last_active :: nat
  cn_connection_id :: "string option"
  cn_retry_count :: nat
  cn_max_retries :: "nat option"
  cn_initialized :: bool
  cn_watch :: "string option list"
  cn_streams :: "string list"

definition conn_new :: "nat \<Rightarrow> nat option \<Rightarrow> conn" where
  "conn_new now max_retries =
    \<lparr>cn_state = Idle, cn_health = False, cn_last_active = now, cn_connection_id = None, cn_retry_count = 0,
     cn_max_retries = max_retries, cn_initialized = False, cn_watch = [], cn_streams = []\<rparr>"

text \<open>What the futures an iteration may poll answer, None when pending.\<close>

record poll_env =
  pe_make :: "unit result option"
  pe_init :: "string result option"
  pe_service :: "unit result option"
  pe_slept :: bool
  pe_now :: nat

datatype poll_outcome = PollPending | PollReady

definition start_retry :: "conn \<Rightarrow> conn" where
  "start_retry c = c\<lparr>cn_retry_count := cn_retry_count c + 1, cn_state := Retry (sleep_time (cn_retry_count c + 1))\<rparr>"

text \<open>One iteration of the loop of \<^verbatim>\<open>poll_ready\<close>: Some when it returns.\<close>

definition given_up :: "conn \<Rightarrow> bool" where
  "given_up c = (\<not> cn_initialized c \<and> (case cn_max_retries c of None \<Rightarrow> 1 | Some n \<Rightarrow> n) \<le> cn_retry_count c)"

definition poll_iter :: "poll_env \<Rightarrow> conn \<Rightarrow> poll_outcome option \<times> conn" where
  "poll_iter e c =
    (if given_up c then (Some PollReady, c\<lparr>cn_retry_count := 0\<rparr>)
     else case cn_state c of
       Idle \<Rightarrow> (None, c\<lparr>cn_watch := cn_watch c @ [None], cn_state := Connecting\<rparr>)
     | Connecting \<Rightarrow>
         (case pe_make e of
            None \<Rightarrow> (Some PollPending, c)
          | Some (Inr _) \<Rightarrow> (None, c\<lparr>cn_state := Initializing\<rparr>)
          | Some (Inl err) \<Rightarrow> (None, start_retry c))
     | Initializing \<Rightarrow>
         (case pe_init e of
            None \<Rightarrow> (Some PollPending, c)
          | Some (Inr cid) \<Rightarrow>
              (None, c\<lparr>cn_watch := cn_watch c @ [Some cid], cn_retry_count := 0, cn_health := True, cn_last_active := pe_now e,
                 cn_initialized := True, cn_state := Connected, cn_connection_id := Some cid, cn_streams := cid # cn_streams c\<rparr>)
          | Some (Inl err) \<Rightarrow> (None, start_retry c))
     | Connected \<Rightarrow>
         (case pe_service e of
            None \<Rightarrow> (Some PollPending, c)
          | Some (Inr _) \<Rightarrow> if \<not> cn_health c then (None, start_retry c) else (Some PollReady, c)
          | Some (Inl err) \<Rightarrow> (None, start_retry (c\<lparr>cn_health := False\<rparr>)))
     | Retry secs \<Rightarrow> if \<not> pe_slept e then (Some PollPending, c) else (None, c\<lparr>cn_state := Idle\<rparr>))"

text \<open>The loop, over the answers of its iterations; None when they are used up.\<close>

fun poll_ready :: "poll_env list \<Rightarrow> conn \<Rightarrow> (poll_outcome \<times> conn) option" where
  "poll_ready [] c = None"
| "poll_ready (e # es) c =
    (case poll_iter e c of
       (Some out, c') \<Rightarrow> Some (out, c')
     | (None, c') \<Rightarrow> poll_ready es c')"

text \<open>\<^verbatim>\<open>call\<close>; the reply is None when the sender was dropped.\<close>

definition conn_call :: "(payload \<Rightarrow> payload result option) \<Rightarrow> nat \<Rightarrow> payload \<Rightarrow> conn \<Rightarrow> payload result \<times> conn" where
  "conn_call service now req c =
    (case cn_state c of
       Connected \<Rightarrow>
         (case recv_response (service req) ''sender has been drop'' of
            Inl e \<Rightarrow> (Err e, c)
          | Inr response \<Rightarrow> (response, c\<lparr>cn_last_active := now\<rparr>))
     | _ \<Rightarrow> (Err (ErrResult ''the connection is not connected''), c))"

text \<open>The end of a stream: its task clears the health flag, which all connections share.\<close>

definition stream_closed :: "string \<Rightarrow> conn \<Rightarrow> conn" where
  "stream_closed cid c = c\<lparr>cn_streams := remove1 cid (cn_streams c), cn_health := (if cn_health c then False else cn_health c)\<rparr>"

section \<open>The health check\<close>

definition HEALTH_CHECK_INTERVAL :: nat where "HEALTH_CHECK_INTERVAL = 5000"
definition HEALTH_CHECK_RETRY_TIMES :: nat where "HEALTH_CHECK_RETRY_TIMES = 3"

text \<open>One attempt: the connection is not ready, or what the request brought.\<close>

datatype attempt = NotReady | NoReply | Failure error | Reply payload

fun probe :: "(payload \<Rightarrow> bool) \<Rightarrow> nat \<Rightarrow> attempt list \<Rightarrow> bool" where
  "probe good 0 as = False"
| "probe good (Suc n) [] = False"
| "probe good (Suc n) (NotReady # as) = False"
| "probe good (Suc n) (NoReply # as) = probe good n as"
| "probe good (Suc n) (Failure e # as) = probe good n as"
| "probe good (Suc n) (Reply p # as) = (if good p then True else probe good n as)"

definition failover :: "conn \<Rightarrow> conn" where
  "failover c = c\<lparr>cn_health := (if cn_health c then False else cn_health c)\<rparr>"

text \<open>A round of the background task at \<open>now\<close>; a probe that takes place ends at \<open>later\<close>.\<close>

definition health_check ::
    "grpc_response from_slice \<Rightarrow> grpc_response from_slice \<Rightarrow> nat \<Rightarrow> nat \<Rightarrow> attempt list \<Rightarrow> conn \<Rightarrow> conn" where
  "health_check from_slice err_slice now later attempts c =
    (let idle_millis = now - cn_last_active c
     in if idle_millis < HEALTH_CHECK_INTERVAL then c
        else if probe (\<lambda>p. is_ok (from_payload ''HealthCheckResponse'' from_slice err_slice p)) HEALTH_CHECK_RETRY_TIMES attempts
        then c\<lparr>cn_last_active := later\<rparr>
        else failover c)"

section \<open>Listeners\<close>

text \<open>The loops of the two listeners over the values they see.\<close>

fun connected_events :: "string option \<Rightarrow> string option list \<Rightarrow> string list" where
  "connected_events previous_id [] = []"
| "connected_events previous_id (current_id # rest) =
    (case (previous_id, current_id) of (None, Some cid) \<Rightarrow> [cid] | _ \<Rightarrow> []) @ connected_events current_id rest"

fun disconnected_events :: "string option \<Rightarrow> string option list \<Rightarrow> string list" where
  "disconnected_events previous_id [] = []"
| "disconnected_events previous_id (current_id # rest) =
    (case (previous_id, current_id) of (Some cid, None) \<Rightarrow> [cid] | _ \<Rightarrow> []) @ disconnected_events current_id rest"

section \<open>Runs\<close>

text \<open>Iterations of the loop, interleaved with calls, ending streams and health checks.\<close>

inductive conn_step :: "conn \<Rightarrow> conn \<Rightarrow> bool" where
  iter: "poll_iter e c = (out, c') \<Longrightarrow> conn_step c c'"
| call: "conn_call service now req c = (res, c') \<Longrightarrow> conn_step c c'"
| stream: "cid \<in> set (cn_streams c) \<Longrightarrow> conn_step c (stream_closed cid c)"
| message: "cid \<in> set (cn_streams c) \<Longrightarrow> conn_step c (c\<lparr>cn_last_active := now\<rparr>)"
| health: "c' = health_check from_slice err_slice now later attempts c \<Longrightarrow> conn_step c c'"
| fail: "conn_step c (failover c)"

inductive conn_reach :: "nat option \<Rightarrow> conn \<Rightarrow> bool" for max_retries where
  init: "conn_reach max_retries (conn_new now max_retries)"
| step: "conn_reach max_retries c \<Longrightarrow> conn_step c c' \<Longrightarrow> conn_reach max_retries c'"

inductive_cases conn_stepE: "conn_step c c'"

section \<open>Properties\<close>

lemma sleep_time_min: "sleep_time n = 2 ^ min n 6"
  by (simp add: sleep_time_def MAX_RETRY_def min_def)

text \<open>
  The invariant: a connected state has been announced with its id, a state on the way there has
  withdrawn the last id, and two ids on the channel never follow one another.
\<close>

fun ids_separated :: "string option list \<Rightarrow> bool" where
  "ids_separated (a # b # ws) = ((a = None \<or> b = None) \<and> ids_separated (b # ws))"
| "ids_separated [w] = True"
| "ids_separated [] = True"

definition conn_ok :: "conn \<Rightarrow> bool" where
  "conn_ok c =
    ((cn_state c = Connected \<longrightarrow> cn_initialized c \<and> cn_connection_id c \<noteq> None \<and>
        cn_watch c \<noteq> [] \<and> last (cn_watch c) = cn_connection_id c) \<and>
     (cn_state c = Connecting \<or> cn_state c = Initializing \<longrightarrow> cn_watch c \<noteq> [] \<and> last (cn_watch c) = None) \<and>
     (cn_watch c \<noteq> [] \<longrightarrow> hd (cn_watch c) = None) \<and>
     ids_separated (cn_watch c) \<and>
     (cn_initialized c \<longleftrightarrow> cn_connection_id c \<noteq> None) \<and>
     (\<forall>n. cn_state c = Retry n \<longrightarrow> n \<le> 64))"

lemma ids_separated_snoc:
  "ids_separated (ws @ [w]) \<longleftrightarrow> ids_separated ws \<and> (ws = [] \<or> last ws = None \<or> w = None)"
  by (induction ws rule: ids_separated.induct) (auto split: if_splits)

lemma sleep_time_le: "sleep_time n \<le> 64"
proof -
  have "(2::nat) ^ min n 6 \<le> 2 ^ 6" by (rule power_increasing) simp_all
  then show ?thesis by (simp add: sleep_time_min)
qed

lemma poll_iter_ok [wf_preserve]:
  assumes "conn_ok c" "poll_iter e c = (out, c')"
  shows "conn_ok c'"
proof (cases "given_up c")
  case True
  then show ?thesis using assms by (auto simp: poll_iter_def conn_ok_def)
next
  case False
  then show ?thesis using assms
    by (cases "cn_state c")
      (auto simp: poll_iter_def conn_ok_def start_retry_def sleep_time_le ids_separated_snoc hd_append
        split: option.splits sum.splits if_splits)
qed

lemma other_steps_ok [wf_preserve]:
  "conn_ok c \<Longrightarrow> conn_ok (stream_closed cid c)" "conn_ok c \<Longrightarrow> conn_ok (failover c)"
  "conn_ok c \<Longrightarrow> conn_ok (c\<lparr>cn_last_active := t\<rparr>)" "conn_ok c \<Longrightarrow> conn_ok (health_check fs es now later as c)"
  "conn_ok c \<Longrightarrow> conn_ok (snd (conn_call service now req c))"
  by (auto simp: conn_ok_def stream_closed_def failover_def health_check_def conn_call_def
      split: conn_state.splits sum.splits)

lemma conn_step_ok [wf_preserve]:
  assumes "conn_step c c'" "conn_ok c"
  shows "conn_ok c'"
  using assms(1)
proof (cases rule: conn_step.cases)
  case (iter e out)
  then show ?thesis using poll_iter_ok assms(2) by blast
next
  case (call service now req res)
  then show ?thesis using other_steps_ok(5)[OF assms(2), of service now req] by simp
qed (use assms(2) in \<open>auto intro: other_steps_ok\<close>)

lemma conn_reach_ok: "conn_reach n c \<Longrightarrow> conn_ok c"
proof (induction rule: conn_reach.induct)
  case (init now)
  then show ?case by (simp add: conn_ok_def conn_new_def)
qed (rule conn_step_ok)

lemma connected_events_all:
  assumes "ids_separated (p # ws)"
  shows "connected_events p ws = List.map_filter id ws"
  using assms
proof (induction ws arbitrary: p)
  case (Cons w ws)
  then show ?case by (cases p; cases w) (simp_all add: map_filter_simps)
qed (simp add: map_filter_simps)

lemma disconnected_events_all:
  "ids_separated (p # ws) \<Longrightarrow> disconnected_events p ws @ (case last (p # ws) of None \<Rightarrow> [] | Some a \<Rightarrow> [a]) = List.map_filter id (p # ws)"
proof (induction ws arbitrary: p)
  case Nil
  then show ?case by (simp add: map_filter_simps split: option.split)
next
  case (Cons w ws)
  then show ?case by (cases p; cases w) (auto simp: map_filter_simps split: option.splits)
qed

text \<open>
  C8: in every run, listeners that see every value of the channel are told of each connection exactly
  once: the connected listener gets the ids of all connections in order, the disconnected listener
  the same ids, up to the one that is still announced.
\<close>

theorem listeners_told_once:
  assumes "conn_reach n c"
  shows "connected_events None (cn_watch c) = List.map_filter id (cn_watch c) \<and>
    connected_events None (cn_watch c) = disconnected_events None (cn_watch c) @
      (if cn_watch c = [] then [] else case last (cn_watch c) of None \<Rightarrow> [] | Some a \<Rightarrow> [a])"
proof -
  have ok: "conn_ok c" using conn_reach_ok[OF assms] .
  have "ids_separated (None # cn_watch c)" using ok by (cases "cn_watch c") (simp_all add: conn_ok_def)
  from connected_events_all[OF this] disconnected_events_all[OF this] show ?thesis
    by (auto simp: map_filter_simps)
qed

text \<open>
  C7: when \<^verbatim>\<open>poll_ready\<close> reports readiness, the connection is connected and healthy, or no connection
  was ever made and the attempts are used up: then the next call fails at once and the attempts
  start over. It reports no error.
\<close>

theorem ready_means_usable:
  assumes "conn_reach n c" "poll_ready es c = Some (PollReady, c')"
  shows "(cn_state c' = Connected \<and> cn_health c' \<and> cn_initialized c' \<and> cn_connection_id c' \<noteq> None) \<or>
    (\<not> cn_initialized c' \<and> cn_connection_id c' = None \<and> cn_retry_count c' = 0 \<and>
      conn_call service now req c' = (Err (ErrResult ''the connection is not connected''), c'))"
proof -
  have "conn_ok c" using conn_reach_ok[OF assms(1)] .
  then show ?thesis using assms(2)
  proof (induction es c rule: poll_ready.induct)
    case (2 e es c)
    obtain out c1 where 1: "poll_iter e c = (out, c1)" by (metis prod.collapse)
    have ok1: "conn_ok c1" by (rule poll_iter_ok[OF 2(2) 1])
    show ?case
    proof (cases out)
      case None
      then show ?thesis using 2(1)[OF 1[symmetric] None ok1] 2(3) 1 by simp
    next
      case (Some o')
      then have c': "c1 = c'" "o' = PollReady" using 2(3) 1 by auto
      show ?thesis
      proof (cases "given_up c")
        case True
        then have "c' = c\<lparr>cn_retry_count := 0\<rparr>" using 1 c' by (simp add: poll_iter_def)
        moreover have "\<not> cn_initialized c" using True by (simp add: given_up_def)
        ultimately show ?thesis using 2(2) by (cases "cn_state c") (simp_all add: conn_ok_def conn_call_def)
      next
        case False
        then have "cn_state c = Connected \<and> cn_health c \<and> c' = c" using 1 c' Some
          by (auto simp: poll_iter_def split: conn_state.splits option.splits sum.splits if_splits)
        then show ?thesis using 2(2) by (simp add: conn_ok_def)
      qed
    qed
  qed simp
qed

text \<open>A run that connects as \<open>a\<close>, loses the connection and connects as \<open>b\<close>.\<close>

definition demo_poll :: "string \<Rightarrow> poll_env" where
  "demo_poll cid = \<lparr>pe_make = Some (Ok ()), pe_init = Some (Ok cid), pe_service = Some (Ok ()), pe_slept = True, pe_now = 0\<rparr>"

definition demo_run :: conn where
  "demo_run = fold (\<lambda>e c. snd (poll_iter e c)) (replicate 5 (demo_poll ''b''))
    (failover (fold (\<lambda>e c. snd (poll_iter e c)) (replicate 3 (demo_poll ''a'')) (conn_new 0 None)))"

lemma iters_reach: "conn_reach n c \<Longrightarrow> conn_reach n (fold (\<lambda>e c. snd (poll_iter e c)) es c)"
  by (induction es arbitrary: c) (auto intro: conn_reach.step conn_step.iter[OF prod.collapse[symmetric]])

lemma demo_run_reach: "conn_reach None demo_run"
  unfolding demo_run_def by (intro iters_reach conn_reach.step[OF _ conn_step.fail] conn_reach.init)

lemma demo_run_value:
  "demo_run = \<lparr>cn_state = Connected, cn_health = True, cn_last_active = 0, cn_connection_id = Some ''b'', cn_retry_count = 0,
     cn_max_retries = None, cn_initialized = True, cn_watch = [None, Some ''a'', None, Some ''b''], cn_streams = [''b'', ''a'']\<rparr>"
  by code_simp

lemma listeners_told_once_witness:
  "connected_events None (cn_watch demo_run) = disconnected_events None (cn_watch demo_run) @ [''b'']"
  using listeners_told_once[OF demo_run_reach] by (simp add: demo_run_value)

lemma ready_means_usable_witness:
  "\<exists>c'. poll_ready [demo_poll ''b''] demo_run = Some (PollReady, c') \<and> cn_state c' = Connected"
proof -
  have "poll_ready [demo_poll ''b''] demo_run = Some (PollReady, demo_run)"
    by (simp add: demo_run_value poll_iter_def given_up_def demo_poll_def)
  with ready_means_usable[OF demo_run_reach this] show ?thesis by (auto simp: demo_run_value)
qed

text \<open>Iterations left until a connection that never succeeds gives up.\<close>

definition attempts_left :: "conn \<Rightarrow> nat" where
  "attempts_left c = 4 * ((case cn_max_retries c of None \<Rightarrow> 1 | Some n \<Rightarrow> n) - cn_retry_count c) +
    (case cn_state c of Retry s \<Rightarrow> 3 | Idle \<Rightarrow> 2 | Connecting \<Rightarrow> 1 | _ \<Rightarrow> 0)"

text \<open>Answers of a server that cannot be set up a connection with.\<close>

definition unreachable :: "poll_env \<Rightarrow> bool" where
  "unreachable e = (pe_make e \<noteq> None \<and> (case pe_init e of Some (Inl err) \<Rightarrow> True | _ \<Rightarrow> False) \<and> pe_slept e)"

lemma unreachable_iter:
  assumes "conn_ok c" "\<not> cn_initialized c" "unreachable e" "\<not> given_up c"
  shows "\<exists>c'. poll_iter e c = (None, c') \<and> conn_ok c' \<and> \<not> cn_initialized c' \<and> attempts_left c' < attempts_left c"
proof -
  obtain out c' where i: "poll_iter e c = (out, c')" by (metis prod.collapse)
  have "cn_retry_count c < (case cn_max_retries c of None \<Rightarrow> 1 | Some n \<Rightarrow> n)"
    using assms(2,4) by (auto simp: given_up_def not_le)
  moreover have "cn_state c \<noteq> Connected" using assms(1,2) by (auto simp: conn_ok_def)
  ultimately have "out = None \<and> \<not> cn_initialized c' \<and> attempts_left c' < attempts_left c"
    using i assms(2,3,4)
    by (cases "cn_state c"; cases "pe_make e"; cases "pe_init e")
      (auto simp: poll_iter_def unreachable_def attempts_left_def start_retry_def split: sum.splits)
  then show ?thesis using i poll_iter_ok[OF assms(1) i] by blast
qed

lemma unreachable_gives_up:
  assumes "conn_ok c" "\<not> cn_initialized c" "\<forall>e\<in>set es. unreachable e" "attempts_left c < length es"
  shows "\<exists>c'. poll_ready es c = Some (PollReady, c') \<and> conn_ok c' \<and> \<not> cn_initialized c' \<and> cn_retry_count c' = 0"
  using assms
proof (induction es arbitrary: c)
  case (Cons e es)
  show ?case
  proof (cases "given_up c")
    case True
    then have i: "poll_iter e c = (Some PollReady, c\<lparr>cn_retry_count := 0\<rparr>)" by (simp add: poll_iter_def)
    from poll_iter_ok[OF Cons.prems(1) i] show ?thesis using i Cons.prems(2) by simp
  next
    case False
    then obtain c1 where "poll_iter e c = (None, c1)" "conn_ok c1" "\<not> cn_initialized c1" "attempts_left c1 < attempts_left c"
      using unreachable_iter[of c e] Cons.prems by auto
    then show ?thesis using Cons.IH[of c1] Cons.prems(3,4) by simp
  qed
qed simp

text \<open>
  C9: against a server that cannot be reached, a connection that was never made stops waiting: when
  its attempts (the configured number, one by default) are used up, \<^verbatim>\<open>poll_ready\<close> returns, whatever
  point it started from.
\<close>

theorem first_connection_gives_up:
  assumes "conn_reach n c" "\<not> cn_initialized c" "\<forall>e\<in>set es. unreachable e" "attempts_left c < length es"
  shows "\<exists>c'. poll_ready es c = Some (PollReady, c') \<and> \<not> cn_initialized c' \<and> cn_retry_count c' = 0"
  using unreachable_gives_up[OF conn_reach_ok[OF assms(1)] assms(2-4)] by blast

lemma first_connection_gives_up_witness:
  "\<exists>c'. poll_ready (replicate 13 \<lparr>pe_make = Some (Ok ()), pe_init = Some (Err NoAvailableServer), pe_service = None, pe_slept = True, pe_now = 0\<rparr>)
    (conn_new 0 (Some 2)) = Some (PollReady, c')"
proof -
  let ?e = "\<lparr>pe_make = Some (Ok ()), pe_init = Some (Err NoAvailableServer), pe_service = None, pe_slept = True, pe_now = 0\<rparr>"
  have "\<forall>e\<in>set (replicate 13 ?e). unreachable e" by (auto simp: unreachable_def)
  from first_connection_gives_up[OF conn_reach.init[of "Some 2" 0] _ this] show ?thesis
    by (auto simp: conn_new_def attempts_left_def)
qed

text \<open>
  every failure puts the connection to rest for a pause that doubles from two seconds up to 64,
  counted from the last time it was connected; connecting resets it.
\<close>

lemma retry_pauses:
  assumes "poll_iter e c = (out, c')" "cn_state c' = Retry s" "cn_state c' \<noteq> cn_state c"
  shows "out = None \<and> cn_retry_count c' = cn_retry_count c + 1 \<and> s = 2 ^ min (cn_retry_count c') 6 \<and> 2 \<le> s \<and> s \<le> 64"
proof -
  have "out = None \<and> cn_retry_count c' = cn_retry_count c + 1 \<and> s = sleep_time (cn_retry_count c')"
    using assms
    by (cases "given_up c"; cases "cn_state c")
      (auto simp: poll_iter_def start_retry_def split: option.splits sum.splits if_splits)
  moreover have "(2::nat) ^ 1 \<le> 2 ^ min (cn_retry_count c + 1) 6" by (rule power_increasing) simp_all
  ultimately show ?thesis using sleep_time_le[of "cn_retry_count c'"] by (simp add: sleep_time_min)
qed

lemma retry_pauses_witness:
  "\<exists>c'. poll_iter (demo_poll ''b'') (failover demo_run) = (None, c') \<and> cn_state c' = Retry 2"
proof -
  let ?c = "failover demo_run"
  obtain out c' where i: "poll_iter (demo_poll ''b'') ?c = (out, c')" by (metis prod.collapse)
  have st: "cn_state c' = Retry (sleep_time 1)" "cn_retry_count ?c = 0" "cn_state ?c = Connected"
    using i by (auto simp: demo_run_value failover_def poll_iter_def given_up_def demo_poll_def start_retry_def)
  from retry_pauses[OF i st(1)] st i show ?thesis by simp
qed

text \<open>
  the end of the stream of an earlier connection takes a later, healthy one down: all streams
  clear the one health flag, and the next poll retries although the connection's own stream runs.
\<close>

lemma old_stream_ends_new_connection:
  assumes "conn_reach n c" "cn_state c = Connected" "cn_health c" "cn_connection_id c = Some b"
    "b \<in> set (cn_streams c)" "a \<in> set (cn_streams c)" "a \<noteq> b" "pe_service e = Some (Ok ())"
  shows "conn_step c (stream_closed a c) \<and> b \<in> set (cn_streams (stream_closed a c)) \<and>
    fst (poll_iter e c) = Some PollReady \<and>
    (\<exists>s. cn_state (snd (poll_iter e (stream_closed a c))) = Retry s)"
proof -
  have "cn_initialized c" using conn_reach_ok[OF assms(1)] assms(2) by (simp add: conn_ok_def)
  then have "\<not> given_up c" "\<not> given_up (stream_closed a c)" by (simp_all add: given_up_def stream_closed_def)
  moreover have "conn_step c (stream_closed a c)" by (rule conn_step.stream[OF assms(6)])
  ultimately show ?thesis using assms by (simp add: poll_iter_def stream_closed_def start_retry_def)
qed

lemma old_stream_ends_new_connection_witness:
  "\<exists>s. cn_state (snd (poll_iter (demo_poll ''b'') (stream_closed ''a'' demo_run))) = Retry s"
  using old_stream_ends_new_connection[OF demo_run_reach, of "''b''" "''a''" "demo_poll ''b''"]
  by (simp add: demo_run_value demo_poll_def)

lemma first_index:
  assumes "a \<noteq> x"
  shows "(\<exists>i<Suc n. i < length (a # as) \<and> Q ((a # as) ! i) \<and> (\<forall>j<i. (a # as) ! j \<noteq> x)) \<longleftrightarrow>
    Q a \<or> (\<exists>i<n. i < length as \<and> Q (as ! i) \<and> (\<forall>j<i. as ! j \<noteq> x))"
  using assms by (simp add: Ex_less_Suc2 All_less_Suc2)

lemma probe_iff:
  "probe good n as \<longleftrightarrow> (\<exists>i<n. i < length as \<and> (case as ! i of Reply p \<Rightarrow> good p | _ \<Rightarrow> False) \<and> (\<forall>j<i. as ! j \<noteq> NotReady))"
proof (induction good n as rule: probe.induct)
  case (3 good n as)
  then show ?case by (auto simp: Ex_less_Suc2)
next
  case (4 good n as)
  then show ?case by (simp only: probe.simps first_index[of NoReply] attempt.distinct simp_thms attempt.case not_False_eq_True)
next
  case (5 good n e as)
  then show ?case by (simp only: probe.simps first_index[of "Failure e"] attempt.distinct simp_thms attempt.case not_False_eq_True)
next
  case (6 good n p as)
  then show ?case
    by (cases "good p") (simp_all only: probe.simps first_index[of "Reply p"] attempt.distinct simp_thms attempt.case not_False_eq_True if_True if_False)
qed simp_all

text \<open>
  a connection that received something within the last five seconds is left alone; an idle one is
  given up exactly when none of up to three health checks is answered well before the connection is
  not ready.
\<close>

lemma health_check_verdict:
  "cn_health (health_check from_slice err_slice now later attempts c) \<longleftrightarrow>
    cn_health c \<and> (now - cn_last_active c < 5000 \<or>
      (\<exists>i<3. i < length attempts \<and> (\<forall>j<i. attempts ! j \<noteq> NotReady) \<and>
        (case attempts ! i of Reply p \<Rightarrow> is_ok (from_payload ''HealthCheckResponse'' from_slice err_slice p) | _ \<Rightarrow> False)))"
  by (auto simp: health_check_def failover_def probe_iff HEALTH_CHECK_INTERVAL_def HEALTH_CHECK_RETRY_TIMES_def)

lemma health_check_verdict_witness:
  "\<not> cn_health (health_check (\<lambda>_. Inl []) (\<lambda>_. Inl []) 6000 6000 [NoReply, NotReady] demo_run)"
  by (simp only: health_check_verdict) (auto simp: demo_run_value less_Suc_eq numeral_3_eq_3)

end
