(* ===== verification/Transport.thy ===== *)
theory Transport
  imports Connection
begin

text \<open>
  What a connection is made of (src/common/remote/grpc): the options of the channel (config.rs), the
  services and layers (nacos\_grpc\_service.rs), the tonic services and the builder that makes one for
  each connection attempt (tonic.rs), and the attempt itself, from the address of a server to the
  connection id. The crates tower and tonic are arguments: what stacking two layers gives, how a URI is
  built and how the generated clients answer.
\<close>

section \<open>Options\<close>

text \<open>Durations are in milliseconds; a parsed URI or header value is its text.\<close>

record GrpcConfiguration =
  cfg_host :: string
  cfg_port :: "16 word option"
  cfg_origin :: "string option"
  cfg_user_agent :: "string option"
  cfg_timeout :: "nat option"
  cfg_concurrency_limit :: "64 word option"
  cfg_rate_limit :: "(64 word \<times> nat) option"
  cfg_init_stream_window_size :: "32 word option"
  cfg_init_connection_window_size :: "32 word option"
  cfg_tcp_keepalive :: "nat option"
  cfg_tcp_nodelay :: bool
  cfg_http2_keep_alive_interval :: "nat option"
  cfg_http2_keep_alive_timeout :: "nat option"
  cfg_http2_keep_alive_while_idle :: "bool option"
  cfg_connect_timeout :: "nat option"
  cfg_http2_adaptive_window :: "bool option"

definition GrpcConfiguration_default :: GrpcConfiguration where
  "GrpcConfiguration_default =
    \<lparr>cfg_host = ''127.0.0.1'', cfg_port = None, cfg_origin = None, cfg_user_agent = None, cfg_timeout = None,
     cfg_concurrency_limit = None, cfg_rate_limit = None, cfg_init_stream_window_size = None,
     cfg_init_connection_window_size = None, cfg_tcp_keepalive = None, cfg_tcp_nodelay = False,
     cfg_http2_keep_alive_interval = Some 360000, cfg_http2_keep_alive_timeout = Some 20000,
     cfg_http2_keep_alive_while_idle = None, cfg_connect_timeout = None, cfg_http2_adaptive_window = None\<rparr>"

definition with_origin :: "(string \<Rightarrow> string option) \<Rightarrow> string \<Rightarrow> GrpcConfiguration \<Rightarrow> GrpcConfiguration" where
  "with_origin parse_uri uri cfg = (case parse_uri uri of Some u \<Rightarrow> cfg\<lparr>cfg_origin := Some u\<rparr> | None \<Rightarrow> cfg)"

definition with_user_agent :: "(string \<Rightarrow> string option) \<Rightarrow> string \<Rightarrow> GrpcConfiguration \<Rightarrow> GrpcConfiguration" where
  "with_user_agent parse_header ua cfg = (case parse_header ua of Some u \<Rightarrow> cfg\<lparr>cfg_user_agent := Some u\<rparr> | None \<Rightarrow> cfg)"

text \<open>The methods \<^verbatim>\<open>Tonic::new\<close> calls on the endpoint, in order.\<close>

datatype endpoint_option =
    Origin string
  | UserAgent string
  | Timeout nat
  | ConcurrencyLimit "64 word"
  | RateLimit "64 word" nat
  | InitialStreamWindowSize "32 word"
  | InitialConnectionWindowSize "32 word"
  | Http2KeepAliveInterval nat
  | KeepAliveTimeout nat
  | KeepAliveWhileIdle bool
  | Http2AdaptiveWindow bool
  | ConnectTimeout nat
  | TcpNodelay bool
  | TcpKeepalive "nat option"
  | TlsConfig "string option"

definition given :: "('a \<Rightarrow> endpoint_option) \<Rightarrow> 'a option \<Rightarrow> endpoint_option list" where
  "given f x = (case x of None \<Rightarrow> [] | Some v \<Rightarrow> [f v])"

definition endpoint_options :: "GrpcConfiguration \<Rightarrow> endpoint_option list" where
  "endpoint_options cfg =
    given Origin (cfg_origin cfg) @ given UserAgent (cfg_user_agent cfg) @ given Timeout (cfg_timeout cfg) @
    given ConcurrencyLimit (cfg_concurrency_limit cfg) @ given (\<lambda>(n, d). RateLimit n d) (cfg_rate_limit cfg) @
    given InitialStreamWindowSize (cfg_init_stream_window_size cfg) @
    given InitialConnectionWindowSize (cfg_init_connection_window_size cfg) @
    given Http2KeepAliveInterval (cfg_http2_keep_alive_interval cfg) @
    given KeepAliveTimeout (cfg_http2_keep_alive_timeout cfg) @
    given KeepAliveWhileIdle (cfg_http2_keep_alive_while_idle cfg) @
    given Http2AdaptiveWindow (cfg_http2_adaptive_window cfg) @ given ConnectTimeout (cfg_connect_timeout cfg) @
    [TcpNodelay (cfg_tcp_nodelay cfg), TcpKeepalive (cfg_tcp_keepalive cfg)]"

text \<open>
  With the feature \<^verbatim>\<open>tls\<close>: a certificate of the environment is read, and a file that cannot be read
  panics.
\<close>

definition tls_options :: "bool \<Rightarrow> string option \<Rightarrow> (string \<Rightarrow> string option) \<Rightarrow> endpoint_option list option" where
  "tls_options tls ca_cert_path read_file =
    (if \<not> tls then Some []
     else case ca_cert_path of
       None \<Rightarrow> Some [TlsConfig None]
     | Some path \<Rightarrow> map_option (\<lambda>pem. [TlsConfig (Some pem)]) (read_file path))"

section \<open>Services and layers\<close>

record ('q, 'r) service =
  svc_ready :: "unit result"
  svc_call :: "'q \<Rightarrow> 'r result"

text \<open>A stream is the list of its items.\<close>

type_synonym unary_service = "(payload, payload) service"
type_synonym bi_service = "(payload list, payload result list) service"
type_synonym ('q, 'r) layer = "('q, 'r) service \<Rightarrow> ('q, 'r) service"

definition UnaryCallIdentityLayer :: "(payload, payload) layer" where
  "UnaryCallIdentityLayer inner = inner"

definition BiStreamingCallIdentityLayer :: "(payload list, payload result list) layer" where
  "BiStreamingCallIdentityLayer inner = inner"

text \<open>
  The generated clients (src/\_.rs) over a channel: whether it gets ready, and what a call of a method,
  by path, service and name, brings; a status is its text.
\<close>

record grpc_channel =
  gch_ready :: "string + unit"
  gch_unary :: "string \<Rightarrow> string \<times> string \<Rightarrow> payload \<Rightarrow> string + payload"
  gch_streaming :: "string \<Rightarrow> string \<times> string \<Rightarrow> payload list \<Rightarrow> string + (string + payload) list"

definition RequestClient_request :: "grpc_channel \<Rightarrow> payload \<Rightarrow> string + payload" where
  "RequestClient_request channel req =
    (case gch_ready channel of
       Inl e \<Rightarrow> Inl (''Service was not ready: '' @ e)
     | Inr _ \<Rightarrow> gch_unary channel ''/Request/request'' (''Request'', ''request'') req)"

definition request_bi_stream :: "grpc_channel \<Rightarrow> payload list \<Rightarrow> string + (string + payload) list" where
  "request_bi_stream channel req =
    (case gch_ready channel of
       Inl e \<Rightarrow> Inl (''Service was not ready: '' @ e)
     | Inr _ \<Rightarrow> gch_streaming channel ''/BiRequestStream/requestBiStream'' (''BiRequestStream'', ''requestBiStream'') req)"

text \<open>The gRPC calls; a tonic status is an error of its own kind.\<close>

definition unary_call :: "(payload \<Rightarrow> string + payload) \<Rightarrow> payload \<Rightarrow> payload result" where
  "unary_call client req = (case client req of Inr ret \<Rightarrow> Ok ret | Inl status \<Rightarrow> Err (TonicGrpcStatus status))"

definition bi_streaming_call :: "(payload list \<Rightarrow> string + (string + payload) list) \<Rightarrow> payload list \<Rightarrow> payload result list result" where
  "bi_streaming_call client req =
    (case client req of
       Inr response \<Rightarrow> Ok (map (\<lambda>item. case item of Inr p \<Rightarrow> Ok p | Inl status \<Rightarrow> Err (TonicGrpcStatus status)) response)
     | Inl status \<Rightarrow> Err (TonicGrpcStatus status))"

definition UnaryCallService :: "(payload \<Rightarrow> string + payload) \<Rightarrow> unary_service" where
  "UnaryCallService client = \<lparr>svc_ready = Ok (), svc_call = unary_call client\<rparr>"

definition BiStreamingCallService :: "(payload list \<Rightarrow> string + (string + payload) list) \<Rightarrow> bi_service" where
  "BiStreamingCallService client = \<lparr>svc_ready = Ok (), svc_call = bi_streaming_call client\<rparr>"

section \<open>Callbacks\<close>

text \<open>
  The sender half of a reply: whether it is still there, whether the caller wants the reply and still
  holds the receiver, and what the receiver got.
\<close>

record 'a callback =
  cb_tx :: bool
  cb_wanted :: bool
  cb_receiver :: bool
  cb_received :: "'a option"

definition create_grpc_callback :: "'a callback" where
  "create_grpc_callback = \<lparr>cb_tx = True, cb_wanted = True, cb_receiver = True, cb_received = None\<rparr>"

definition can_send :: "'a callback \<Rightarrow> bool" where
  "can_send cb = cb_wanted cb"

definition callback_send :: "'a \<Rightarrow> 'a callback \<Rightarrow> unit result \<times> 'a callback" where
  "callback_send d cb =
    (if \<not> cb_tx cb then (Ok (), cb)
     else if cb_receiver cb then (Ok (), cb\<lparr>cb_tx := False, cb_received := Some d\<rparr>)
     else (Err (ErrResult ''callback send failed. the receiver has been dropped''), cb\<lparr>cb_tx := False\<rparr>))"

text \<open>
  The call tasks: \<^verbatim>\<open>unary_request\<close> and \<^verbatim>\<open>bi_request\<close> are the same but for their name in the errors. The
  result is the task's own and the callback.
\<close>

definition call_task :: "string \<Rightarrow> ('q, 'r) service \<Rightarrow> 'q \<Rightarrow> 'r result callback \<Rightarrow> unit result \<times> 'r result callback" where
  "call_task name svc request cb =
    (if \<not> can_send cb then
       (Err (ErrResult (name @ '' failed, callback can not invoke, receiver has been closed.'')), cb)
     else case svc_ready svc of
       Inl e \<Rightarrow> (Err e, cb)
     | Inr _ \<Rightarrow>
         (let (send_ret, cb') = callback_send (svc_call svc request) cb
          in case send_ret of
               Inl e \<Rightarrow> (Err (ErrResult (name @ '' failed, callback can not invoke, send error.'')), cb')
             | Inr _ \<Rightarrow> (Ok (), cb')))"

definition unary_request :: "unary_service \<Rightarrow> payload \<Rightarrow> payload result callback \<Rightarrow> unit result \<times> payload result callback" where
  "unary_request = call_task ''unary_request''"

definition bi_request ::
    "bi_service \<Rightarrow> payload list \<Rightarrow> payload result list result callback \<Rightarrow> unit result \<times> payload result list result callback" where
  "bi_request = call_task ''bi_request''"

section \<open>Tonic\<close>

record tonic =
  tn_unary_layer :: "(payload, payload) layer"
  tn_bi_layer :: "(payload list, payload result list) layer"
  tn_endpoint_uri :: string
  tn_options :: "endpoint_option list"
  tn_server_address :: "string \<times> 16 word"

definition tonic_authority :: "string \<Rightarrow> 16 word option \<Rightarrow> string" where
  "tonic_authority host grpc_port =
    (case grpc_port of Some p \<Rightarrow> host @ '':'' @ show_nat (unat p) | None \<Rightarrow> host)"

text \<open>\<open>build_uri\<close> is the URI builder for a scheme and an authority; what does not build panics.\<close>

definition Tonic_new ::
    "bool \<Rightarrow> string option \<Rightarrow> (string \<Rightarrow> string option) \<Rightarrow> (string \<Rightarrow> string \<Rightarrow> string option) \<Rightarrow> GrpcConfiguration \<Rightarrow>
      (payload, payload) layer \<Rightarrow> (payload list, payload result list) layer \<Rightarrow> string \<times> 16 word \<Rightarrow> tonic option" where
  "Tonic_new tls ca_cert_path read_file build_uri cfg unary bi address =
    (case build_uri (if tls then ''https'' else ''http'') (tonic_authority (cfg_host cfg) (cfg_port cfg)) of
       None \<Rightarrow> None
     | Some uri \<Rightarrow>
         map_option (\<lambda>topts. \<lparr>tn_unary_layer = unary, tn_bi_layer = bi, tn_endpoint_uri = uri,
           tn_options = endpoint_options cfg @ topts, tn_server_address = address\<rparr>)
           (tls_options tls ca_cert_path read_file))"

definition tonic_ready :: "bool \<Rightarrow> (string + unit) option \<Rightarrow> unit result option" where
  "tonic_ready available channel =
    (if \<not> available then Some (Err NoAvailableServer)
     else case channel of
       None \<Rightarrow> None
     | Some (Inr _) \<Rightarrow> Some (Ok ())
     | Some (Inl e) \<Rightarrow> Some (Err (TonicGrpcTransport e)))"

datatype NacosGrpcCall =
    RequestService payload "payload result callback"
  | BIRequestService "payload list" "payload result list result callback"

fun tonic_call ::
    "(payload \<Rightarrow> string + payload) \<Rightarrow> (payload list \<Rightarrow> string + (string + payload) list) \<Rightarrow> tonic \<Rightarrow>
      NacosGrpcCall \<Rightarrow> unit result \<times> NacosGrpcCall" where
  "tonic_call request_client bi_client t (RequestService p cb) =
    (let (r, cb') = unary_request (tn_unary_layer t (UnaryCallService request_client)) p cb in (r, RequestService p cb'))"
| "tonic_call request_client bi_client t (BIRequestService ps cb) =
    (let (r, cb') = bi_request (tn_bi_layer t (BiStreamingCallService bi_client)) ps cb in (r, BIRequestService ps cb'))"

text \<open>
  The builder. \<open>stack\<close> is \<^verbatim>\<open>tower::layer::util::Stack::new\<close> with the inner layer first; its documented
  behaviour is that the outer layer wraps what the inner one makes.
\<close>

record tonic_builder =
  tb_config :: GrpcConfiguration
  tb_unary_layer :: "(payload, payload) layer"
  tb_bi_layer :: "(payload list, payload result list) layer"

type_synonym ('q, 'r) stack = "('q, 'r) layer \<Rightarrow> ('q, 'r) layer \<Rightarrow> ('q, 'r) layer"

definition stacks :: "('q, 'r) stack \<Rightarrow> bool" where
  "stacks stack = (\<forall>inner outer s. stack inner outer s = outer (inner s))"

definition TonicBuilder_new :: "GrpcConfiguration \<Rightarrow> tonic_builder" where
  "TonicBuilder_new cfg = \<lparr>tb_config = cfg, tb_unary_layer = UnaryCallIdentityLayer, tb_bi_layer = BiStreamingCallIdentityLayer\<rparr>"

definition tb_add_unary_layer :: "(payload, payload) stack \<Rightarrow> (payload, payload) layer \<Rightarrow> tonic_builder \<Rightarrow> tonic_builder" where
  "tb_add_unary_layer stack l b = b\<lparr>tb_unary_layer := stack l (tb_unary_layer b)\<rparr>"

definition tb_add_bi_layer ::
    "(payload list, payload result list) stack \<Rightarrow> (payload list, payload result list) layer \<Rightarrow> tonic_builder \<Rightarrow> tonic_builder" where
  "tb_add_bi_layer stack l b = b\<lparr>tb_bi_layer := stack l (tb_bi_layer b)\<rparr>"

text \<open>
  \<^verbatim>\<open>call\<close>: the address a channel connects to, whatever host was configured, and the service. The sum
  of the port is of \<^verbatim>\<open>u16\<close>.
\<close>

definition server_config :: "string \<times> 16 word \<Rightarrow> GrpcConfiguration \<Rightarrow> GrpcConfiguration" where
  "server_config address cfg =
    cfg\<lparr>cfg_port := Some (case cfg_port cfg of None \<Rightarrow> snd address + 1000 | Some p \<Rightarrow> p), cfg_host := fst address\<rparr>"

definition tonic_builder_call ::
    "bool \<Rightarrow> string option \<Rightarrow> (string \<Rightarrow> string option) \<Rightarrow> (string \<Rightarrow> string \<Rightarrow> string option) \<Rightarrow>
      (string \<times> 16 word) result \<Rightarrow> tonic_builder \<Rightarrow> tonic result option" where
  "tonic_builder_call tls ca_cert_path read_file build_uri server_info b =
    (case server_info of
       Inl e \<Rightarrow> Some (Err e)
     | Inr address \<Rightarrow>
         map_option Ok (Tonic_new tls ca_cert_path read_file build_uri (server_config address (tb_config b))
           (tb_unary_layer b) (tb_bi_layer b) address))"

section \<open>A connection attempt\<close>

text \<open>What a caller of the connection sees of a call: None when its callback was dropped.\<close>

definition unary_exchange :: "(payload \<Rightarrow> string + payload) \<Rightarrow> tonic \<Rightarrow> payload \<Rightarrow> payload result option" where
  "unary_exchange request_client t p =
    (case snd (tonic_call request_client (\<lambda>_. Inl []) t (RequestService p create_grpc_callback)) of
       RequestService _ cb \<Rightarrow> cb_received cb
     | BIRequestService _ _ \<Rightarrow> None)"

definition bi_exchange ::
    "(payload list \<Rightarrow> string + (string + payload) list) \<Rightarrow> tonic \<Rightarrow> payload list \<Rightarrow> payload result list result option" where
  "bi_exchange bi_client t ps =
    (case snd (tonic_call (\<lambda>_. Inl []) bi_client t (BIRequestService ps create_grpc_callback)) of
       RequestService _ _ \<Rightarrow> None
     | BIRequestService _ cb \<Rightarrow> cb_received cb)"

text \<open>
  \<^verbatim>\<open>init_connection\<close> over a service: the set-up message opens the stream, the server is asked for the
  connection id, and the stream task takes it if the stream was opened.
\<close>

definition init_attempt ::
    "(payload \<Rightarrow> string + payload) \<Rightarrow> (payload list \<Rightarrow> string + (string + payload) list) \<Rightarrow>
      payload result \<Rightarrow> payload result \<Rightarrow> ServerCheckResponse from_slice \<Rightarrow> grpc_response from_slice \<Rightarrow> tonic \<Rightarrow> string result" where
  "init_attempt request_client bi_client setup_message check_message from_slice err_slice t =
    and_then setup_message (\<lambda>msg.
      init_connection (Ok ())
        (and_then (convert check_message ''server check request message convert to grpc message occur an error'') (\<lambda>check.
           check_server from_slice err_slice (unary_exchange request_client t check)))
        (\<exists>stream. bi_exchange bi_client t [msg] = Some (Ok stream)))"

section \<open>Lemmas\<close>

lemma callback_fresh: "cb_received create_grpc_callback = None"
  by (simp add: create_grpc_callback_def)

lemma call_task_fresh:
  "call_task name svc request create_grpc_callback =
    (case svc_ready svc of
       Inl e \<Rightarrow> (Err e, create_grpc_callback)
     | Inr _ \<Rightarrow> (Ok (), create_grpc_callback\<lparr>cb_tx := False, cb_received := Some (svc_call svc request)\<rparr>))"
  by (simp add: call_task_def can_send_def create_grpc_callback_def callback_send_def split: sum.splits)

lemma unary_exchange_eq:
  "unary_exchange client t p =
    (let svc = tn_unary_layer t (UnaryCallService client) in case svc_ready svc of Inl e \<Rightarrow> None | Inr _ \<Rightarrow> Some (svc_call svc p))"
  by (simp add: unary_exchange_def unary_request_def call_task_fresh callback_fresh Let_def split: sum.split)

lemma bi_exchange_eq:
  "bi_exchange client t ps =
    (let svc = tn_bi_layer t (BiStreamingCallService client) in case svc_ready svc of Inl e \<Rightarrow> None | Inr _ \<Rightarrow> Some (svc_call svc ps))"
  by (simp add: bi_exchange_def bi_request_def call_task_fresh callback_fresh Let_def split: sum.split)

text \<open>Both services answer at once on a channel that does not get ready, with the status the client made.\<close>

lemma channel_not_ready:
  assumes "gch_ready ch = Inl e"
  shows "svc_call (UnaryCallService (RequestClient_request ch)) p = Err (TonicGrpcStatus (''Service was not ready: '' @ e))"
    "svc_call (BiStreamingCallService (request_bi_stream ch)) ps = Err (TonicGrpcStatus (''Service was not ready: '' @ e))"
  by (simp_all add: UnaryCallService_def BiStreamingCallService_def unary_call_def bi_streaming_call_def RequestClient_request_def
      request_bi_stream_def assms)

text \<open>A callback delivers once: sending again changes nothing, and is not an error.\<close>

lemma callback_sends_once:
  "snd (callback_send e (snd (callback_send d cb))) = snd (callback_send d cb)"
  by (simp add: callback_send_def)

text \<open>Nobody hears of a call whose task failed, and one that succeeded has delivered the response.\<close>

lemma call_task_delivers:
  assumes "call_task name svc request cb = (r, cb')" "cb_tx cb"
  shows "if is_ok r then cb_received cb' = Some (svc_call svc request) else cb_received cb' = cb_received cb"
  using assms by (cases "svc_ready svc") (auto simp: call_task_def callback_send_def is_ok_iff split: if_splits)

text \<open>
  Without a configured port the channel connects to the server's port plus 1000; a server port
  above 64535 wraps to one below 1000 (in a build with overflow checks the connection attempt
  panics instead).
\<close>

lemma tonic_port:
  "\<exists>p. cfg_port (server_config (host, port) GrpcConfiguration_default) = Some p \<and>
    unat p = (if unat port < 64536 then unat port + 1000 else unat port - 64536)"
proof -
  have "unat (port + 1000) = (unat port + 1000) mod 65536" by (simp add: unat_word_ariths(1))
  moreover have "unat port < 65536" using unsigned_less[of port] by simp
  ultimately show ?thesis by (auto simp: server_config_def GrpcConfiguration_default_def mod_if)
qed

lemma tonic_builder_layers:
  "tonic_builder_call tls ca_cert_path read_file build_uri address tb = Some (Ok t) \<Longrightarrow>
    tn_unary_layer t = tb_unary_layer tb \<and> tn_bi_layer t = tb_bi_layer tb"
  by (auto simp: tonic_builder_call_def Tonic_new_def split: sum.splits option.splits)

text \<open>The options of an endpoint are those configured, each at most once.\<close>

lemma given_set: "set (given f x) = f ` set_option x"
  by (cases x) (simp_all add: given_def)

lemma endpoint_options_distinct: "distinct (endpoint_options cfg)"
  by (auto simp: endpoint_options_def given_def split: option.splits)

lemma endpoint_options_set:
  "set (endpoint_options cfg) =
    {TcpNodelay (cfg_tcp_nodelay cfg), TcpKeepalive (cfg_tcp_keepalive cfg)} \<union>
    Origin ` set_option (cfg_origin cfg) \<union> UserAgent ` set_option (cfg_user_agent cfg) \<union> Timeout ` set_option (cfg_timeout cfg) \<union>
    ConcurrencyLimit ` set_option (cfg_concurrency_limit cfg) \<union> (\<lambda>(n, d). RateLimit n d) ` set_option (cfg_rate_limit cfg) \<union>
    InitialStreamWindowSize ` set_option (cfg_init_stream_window_size cfg) \<union>
    InitialConnectionWindowSize ` set_option (cfg_init_connection_window_size cfg) \<union>
    Http2KeepAliveInterval ` set_option (cfg_http2_keep_alive_interval cfg) \<union>
    KeepAliveTimeout ` set_option (cfg_http2_keep_alive_timeout cfg) \<union>
    KeepAliveWhileIdle ` set_option (cfg_http2_keep_alive_while_idle cfg) \<union>
    Http2AdaptiveWindow ` set_option (cfg_http2_adaptive_window cfg) \<union> ConnectTimeout ` set_option (cfg_connect_timeout cfg)"
  by (simp only: endpoint_options_def set_append given_set) (simp add: Un_ac)

end
