(* ===== verification/GrpcClient.thy ===== *)
theory GrpcClient
  imports Transport
begin

text \<open>
  Sending a request (src/common/remote/grpc/nacos\_grpc\_client.rs), what the failover connection and the
  tonic services do with it (nacos\_grpc\_connection.rs, tonic.rs, nacos\_grpc\_service.rs), and the start
  of a client.
\<close>

section \<open>Requests\<close>

definition APP_FIELD :: string where "APP_FIELD = ''app''"

record grpc_client =
  gc_app_name :: string
  gc_identity :: "RequestResource \<Rightarrow> headers"

text \<open>
  \<^verbatim>\<open>send_request\<close>: the message built of a request, and the exchange. The codecs of the two message
  types, their names, the local address and the transport are arguments.
\<close>

definition request_message ::
    "grpc_client \<Rightarrow> ('r grpc_request_scheme \<Rightarrow> RequestResource option) \<Rightarrow> string \<Rightarrow>
      'r grpc_request_scheme \<Rightarrow> 'r grpc_request_scheme grpc_message" where
  "request_message client resource_of local_ip request =
    (let (own_headers, body) = take_headers request;
         request_headers = (case resource_of body of None \<Rightarrow> own_headers
                            | Some resource \<Rightarrow> own_headers ++ gc_identity client resource)
     in builder_build (builder_headers request_headers (builder_header APP_FIELD (gc_app_name client) (builder_new local_ip body))))"

definition send_request ::
    "grpc_client \<Rightarrow> ('r grpc_request_scheme \<Rightarrow> RequestResource option) \<Rightarrow> string \<Rightarrow>
      string \<Rightarrow> 'r grpc_request_scheme to_vec \<Rightarrow> (payload \<Rightarrow> payload result) \<Rightarrow>
      string \<Rightarrow> 'b from_slice \<Rightarrow> grpc_response from_slice \<Rightarrow> 'r grpc_request_scheme \<Rightarrow> 'b result" where
  "send_request client resource_of local_ip identity to_vec transport resp_identity from_slice err_slice request =
    and_then (into_payload identity to_vec (request_message client resource_of local_ip request)) (\<lambda>grpc_request.
    and_then (transport grpc_request) (\<lambda>grpc_response.
    and_then (from_payload resp_identity from_slice err_slice grpc_response) (\<lambda>m. Ok (gm_body m))))"

text \<open>
  \<^verbatim>\<open>FailoverConnection::send_request\<close> once the buffer's worker found the connection ready: the error of
  a call is wrapped, \<open>boxed\<close> renders it.
\<close>

definition failover_send_request ::
    "(error \<Rightarrow> string) \<Rightarrow> (payload \<Rightarrow> payload result option) \<Rightarrow> nat \<Rightarrow> conn \<Rightarrow> payload \<Rightarrow> payload result" where
  "failover_send_request boxed service now c request =
    (case fst (conn_call service now request c) of
       Inl e \<Rightarrow> Err (GrpcBufferRequest (boxed e))
     | Inr p \<Rightarrow> Ok p)"

section \<open>Starting a client\<close>

record 'l grpc_builder =
  gb_app_name :: string
  gb_client_version :: string
  gb_namespace :: string
  gb_labels :: headers
  gb_abilities :: NacosClientAbilities
  gb_config :: GrpcConfiguration
  gb_handlers :: handler_map
  gb_connected_listener :: "'l option"
  gb_disconnected_listener :: "'l option"
  gb_unary_layer :: "(payload, payload) layer option"
  gb_bi_layer :: "(payload list, payload result list) layer option"
  gb_auth_context :: headers
  gb_max_retries :: "nat option"
  gb_emergency_start :: bool

definition grpc_builder_new :: "'l grpc_builder" where
  "grpc_builder_new = \<lparr>gb_app_name = ''unknown'', gb_client_version = [], gb_namespace = [], gb_labels = Map.empty,
     gb_abilities = abilities_new, gb_config = GrpcConfiguration_default, gb_handlers = Map.empty,
     gb_connected_listener = None, gb_disconnected_listener = None, gb_unary_layer = None, gb_bi_layer = None,
     gb_auth_context = Map.empty, gb_max_retries = None, gb_emergency_start = False\<rparr>"

text \<open>The setters of one field.\<close>

definition gb_with_app_name :: "string \<Rightarrow> 'l grpc_builder \<Rightarrow> 'l grpc_builder" where
  "gb_with_app_name name b = b\<lparr>gb_app_name := name\<rparr>"

definition gb_with_client_version :: "string \<Rightarrow> 'l grpc_builder \<Rightarrow> 'l grpc_builder" where
  "gb_with_client_version version b = b\<lparr>gb_client_version := version\<rparr>"

definition gb_with_namespace :: "string \<Rightarrow> 'l grpc_builder \<Rightarrow> 'l grpc_builder" where
  "gb_with_namespace namespace b = b\<lparr>gb_namespace := namespace\<rparr>"

definition gb_with_max_retries :: "nat option \<Rightarrow> 'l grpc_builder \<Rightarrow> 'l grpc_builder" where
  "gb_with_max_retries n b = b\<lparr>gb_max_retries := n\<rparr>"

definition gb_with_emergency_start :: "bool \<Rightarrow> 'l grpc_builder \<Rightarrow> 'l grpc_builder" where
  "gb_with_emergency_start flag b = b\<lparr>gb_emergency_start := flag\<rparr>"

definition gb_with_auth_context :: "headers \<Rightarrow> 'l grpc_builder \<Rightarrow> 'l grpc_builder" where
  "gb_with_auth_context ctx b = b\<lparr>gb_auth_context := ctx\<rparr>"

definition gb_with_connected_listener :: "'l \<Rightarrow> 'l grpc_builder \<Rightarrow> 'l grpc_builder" where
  "gb_with_connected_listener l b = b\<lparr>gb_connected_listener := Some l\<rparr>"

definition gb_with_disconnected_listener :: "'l \<Rightarrow> 'l grpc_builder \<Rightarrow> 'l grpc_builder" where
  "gb_with_disconnected_listener l b = b\<lparr>gb_disconnected_listener := Some l\<rparr>"

lemmas gb_with_defs = gb_with_app_name_def gb_with_client_version_def gb_with_namespace_def gb_with_max_retries_def
  gb_with_emergency_start_def gb_with_auth_context_def gb_with_connected_listener_def gb_with_disconnected_listener_def

definition gb_add_label :: "string \<Rightarrow> string \<Rightarrow> 'l grpc_builder \<Rightarrow> 'l grpc_builder" where
  "gb_add_label k v b = b\<lparr>gb_labels := (gb_labels b)(k \<mapsto> v)\<rparr>"

definition gb_add_labels :: "headers \<Rightarrow> 'l grpc_builder \<Rightarrow> 'l grpc_builder" where
  "gb_add_labels m b = b\<lparr>gb_labels := gb_labels b ++ m\<rparr>"

definition gb_support_remote_connection :: "bool \<Rightarrow> 'l grpc_builder \<Rightarrow> 'l grpc_builder" where
  "gb_support_remote_connection enable b = b\<lparr>gb_abilities := support_remote_connection enable (gb_abilities b)\<rparr>"

definition gb_support_config_remote_metrics :: "bool \<Rightarrow> 'l grpc_builder \<Rightarrow> 'l grpc_builder" where
  "gb_support_config_remote_metrics enable b = b\<lparr>gb_abilities := support_config_remote_metrics enable (gb_abilities b)\<rparr>"

definition gb_support_naming_delta_push :: "bool \<Rightarrow> 'l grpc_builder \<Rightarrow> 'l grpc_builder" where
  "gb_support_naming_delta_push enable b = b\<lparr>gb_abilities := support_naming_delta_push enable (gb_abilities b)\<rparr>"

definition gb_support_naming_remote_metric :: "bool \<Rightarrow> 'l grpc_builder \<Rightarrow> 'l grpc_builder" where
  "gb_support_naming_remote_metric enable b = b\<lparr>gb_abilities := support_naming_remote_metric enable (gb_abilities b)\<rparr>"

text \<open>The setters of the options: each changes its field of the configuration.\<close>

datatype config_setter =
    SetHost string
  | SetPort "16 word option"
  | SetOrigin string
  | SetUserAgent string
  | SetTimeout nat
  | SetConcurrencyLimit "64 word"
  | SetRateLimit "64 word \<times> nat"
  | SetInitStreamWindowSize "32 word"
  | SetInitConnectionWindowSize "32 word"
  | SetTcpKeepalive nat
  | SetTcpNodelay bool
  | SetHttp2KeepAliveInterval nat
  | SetHttp2KeepAliveTimeout nat
  | SetHttp2KeepAliveWhileIdle bool
  | SetConnectTimeout nat
  | SetHttp2AdaptiveWindow bool

fun set_config :: "(string \<Rightarrow> string option) \<Rightarrow> (string \<Rightarrow> string option) \<Rightarrow> config_setter \<Rightarrow> GrpcConfiguration \<Rightarrow> GrpcConfiguration" where
  "set_config parse_uri parse_header (SetHost host) c = c\<lparr>cfg_host := host\<rparr>"
| "set_config parse_uri parse_header (SetPort p) c = c\<lparr>cfg_port := p\<rparr>"
| "set_config parse_uri parse_header (SetOrigin uri) c = with_origin parse_uri uri c"
| "set_config parse_uri parse_header (SetUserAgent ua) c = with_user_agent parse_header ua c"
| "set_config parse_uri parse_header (SetTimeout d) c = c\<lparr>cfg_timeout := Some d\<rparr>"
| "set_config parse_uri parse_header (SetConcurrencyLimit n) c = c\<lparr>cfg_concurrency_limit := Some n\<rparr>"
| "set_config parse_uri parse_header (SetRateLimit r) c = c\<lparr>cfg_rate_limit := Some r\<rparr>"
| "set_config parse_uri parse_header (SetInitStreamWindowSize n) c = c\<lparr>cfg_init_stream_window_size := Some n\<rparr>"
| "set_config parse_uri parse_header (SetInitConnectionWindowSize n) c = c\<lparr>cfg_init_connection_window_size := Some n\<rparr>"
| "set_config parse_uri parse_header (SetTcpKeepalive d) c = c\<lparr>cfg_tcp_keepalive := Some d\<rparr>"
| "set_config parse_uri parse_header (SetTcpNodelay b) c = c\<lparr>cfg_tcp_nodelay := b\<rparr>"
| "set_config parse_uri parse_header (SetHttp2KeepAliveInterval d) c = c\<lparr>cfg_http2_keep_alive_interval := Some d\<rparr>"
| "set_config parse_uri parse_header (SetHttp2KeepAliveTimeout d) c = c\<lparr>cfg_http2_keep_alive_timeout := Some d\<rparr>"
| "set_config parse_uri parse_header (SetHttp2KeepAliveWhileIdle b) c = c\<lparr>cfg_http2_keep_alive_while_idle := Some b\<rparr>"
| "set_config parse_uri parse_header (SetConnectTimeout d) c = c\<lparr>cfg_connect_timeout := Some d\<rparr>"
| "set_config parse_uri parse_header (SetHttp2AdaptiveWindow b) c = c\<lparr>cfg_http2_adaptive_window := Some b\<rparr>"

definition gb_set_config ::
    "(string \<Rightarrow> string option) \<Rightarrow> (string \<Rightarrow> string option) \<Rightarrow> config_setter \<Rightarrow> 'l grpc_builder \<Rightarrow> 'l grpc_builder" where
  "gb_set_config parse_uri parse_header x b = b\<lparr>gb_config := set_config parse_uri parse_header x (gb_config b)\<rparr>"

definition register_server_request_handler :: "string \<Rightarrow> (payload \<Rightarrow> payload option) \<Rightarrow> 'l grpc_builder \<Rightarrow> 'l grpc_builder" where
  "register_server_request_handler identity h b = b\<lparr>gb_handlers := (gb_handlers b)(identity \<mapsto> h)\<rparr>"

definition gb_add_unary_layer :: "(payload, payload) stack \<Rightarrow> (payload, payload) layer \<Rightarrow> 'l grpc_builder \<Rightarrow> 'l grpc_builder" where
  "gb_add_unary_layer stack l b = b\<lparr>gb_unary_layer := Some (case gb_unary_layer b of Some old \<Rightarrow> stack l old | None \<Rightarrow> l)\<rparr>"

definition gb_add_bi_layer ::
    "(payload list, payload result list) stack \<Rightarrow> (payload list, payload result list) layer \<Rightarrow> 'l grpc_builder \<Rightarrow> 'l grpc_builder" where
  "gb_add_bi_layer stack l b = b\<lparr>gb_bi_layer := Some (case gb_bi_layer b of Some old \<Rightarrow> stack l old | None \<Rightarrow> l)\<rparr>"

text \<open>
  \<^verbatim>\<open>build\<close>: the handlers of the connection, and its check by a first request, whose failure is
  overlooked in an emergency start.
\<close>

definition built_handlers :: "(payload \<Rightarrow> payload option) \<Rightarrow> 'l grpc_builder \<Rightarrow> handler_map" where
  "built_handlers detection b = (gb_handlers b)(''ClientDetectionRequest'' \<mapsto> detection)"

definition built_tonic ::
    "(payload, payload) stack \<Rightarrow> (payload list, payload result list) stack \<Rightarrow> 'l grpc_builder \<Rightarrow> tonic_builder" where
  "built_tonic ustack bstack b =
    (let t = TonicBuilder_new (gb_config b);
         t = (case gb_unary_layer b of None \<Rightarrow> t | Some l \<Rightarrow> tb_add_unary_layer ustack l t)
     in case gb_bi_layer b of None \<Rightarrow> t | Some l \<Rightarrow> tb_add_bi_layer bstack l t)"

definition built_connection :: "nat \<Rightarrow> 'l grpc_builder \<Rightarrow> conn" where
  "built_connection now b = conn_new now (gb_max_retries b)"

definition built_setup_message :: "ConnectionSetupRequest to_vec \<Rightarrow> string \<Rightarrow> 'l grpc_builder \<Rightarrow> payload result" where
  "built_setup_message to_vec local_ip b =
    setup_payload to_vec local_ip (gb_client_version b) (gb_namespace b) (gb_labels b) (gb_abilities b)"

definition grpc_client_build :: "(RequestResource \<Rightarrow> headers) \<Rightarrow> payload result \<Rightarrow> (payload \<Rightarrow> payload result) \<Rightarrow> 'l grpc_builder \<Rightarrow> grpc_client result" where
  "grpc_client_build auth health_check_request transport b =
    and_then health_check_request (\<lambda>request.
      case transport request of
        Inl e \<Rightarrow> if gb_emergency_start b then Ok \<lparr>gc_app_name = gb_app_name b, gc_identity = auth\<rparr> else Err e
      | Inr _ \<Rightarrow> Ok \<lparr>gc_app_name = gb_app_name b, gc_identity = auth\<rparr>)"

section \<open>Properties\<close>

text \<open>A server: decodes a request, answers it, encodes the answer.\<close>

definition serve ::
    "string \<Rightarrow> 'q from_slice \<Rightarrow> grpc_response from_slice \<Rightarrow> string \<Rightarrow> 'b to_vec \<Rightarrow> ('q grpc_message \<Rightarrow> 'b grpc_message) \<Rightarrow>
      payload \<Rightarrow> payload result" where
  "serve identity from_slice err_slice resp_identity to_vec answer p =
    and_then (from_payload identity from_slice err_slice p) (\<lambda>m. into_payload resp_identity to_vec (answer m))"

lemma payload_read_back:
  assumes "codec_ok to_vec from_slice" "into_payload identity to_vec m = Inr p"
  shows "from_payload identity from_slice err_slice p = Inr m"
  using assms
  by (cases m) (auto simp: into_payload_def to_proto_any_def codec_ok_def from_payload_def from_proto_any_def split: sum.splits)

lemma request_message_parts:
  "gm_body (request_message client res ip r) = r\<lparr>req_headers := Map.empty\<rparr>"
  "gm_client_ip (request_message client res ip r) = ip"
  "gm_headers (request_message client res ip r) =
    [APP_FIELD \<mapsto> gc_app_name client] ++ req_headers r ++
    (case res (r\<lparr>req_headers := Map.empty\<rparr>) of None \<Rightarrow> Map.empty | Some q \<Rightarrow> gc_identity client q)"
  by (auto simp: request_message_def take_headers_def builder_headers_def builder_header_def builder_new_def
      map_add_assoc split: option.splits)

text \<open>
  C24: a request and its answer get through: given codecs that decode what they encode, the server
  sees the request without its headers, the headers being those of the login identity, the request's
  own and the application name, in this order of precedence; the caller gets the body the server
  answered with.
\<close>

theorem request_reaches_server:
  assumes "codec_ok req_to_vec req_from_slice" "codec_ok resp_to_vec resp_from_slice"
    "req_to_vec (r\<lparr>req_headers := Map.empty\<rparr>) = Inr d"
    "m = \<lparr>gm_headers = [APP_FIELD \<mapsto> gc_app_name client] ++ req_headers r ++
        (case res (r\<lparr>req_headers := Map.empty\<rparr>) of None \<Rightarrow> Map.empty | Some q \<Rightarrow> gc_identity client q),
      gm_body = r\<lparr>req_headers := Map.empty\<rparr>, gm_client_ip = ip\<rparr>"
    "resp_to_vec (gm_body (answer m)) = Inr d'"
  shows "send_request client res ip identity req_to_vec
      (serve identity req_from_slice err_slice resp_identity resp_to_vec answer) resp_identity resp_from_slice err_slice r
    = Ok (gm_body (answer m))"
proof -
  have m: "request_message client res ip r = m"
    using assms(4) request_message_parts[of client res ip r] by (intro grpc_message.equality) simp_all
  obtain p where p: "into_payload identity req_to_vec m = Inr p"
    using assms(3,4) by (simp add: into_payload_def to_proto_any_def)
  obtain p' where p': "into_payload resp_identity resp_to_vec (answer m) = Inr p'"
    using assms(5) by (simp add: into_payload_def to_proto_any_def)
  show ?thesis
    using p p' payload_read_back[OF assms(1) p] payload_read_back[OF assms(2) p']
    by (simp add: send_request_def m serve_def)
qed

definition demo_encode :: "grpc_request to_vec" where
  "demo_encode r = (case request_id r of None \<Rightarrow> Inl [] | Some i \<Rightarrow> if dom (req_headers r) = {} then Inr i else Inl [])"

definition demo_decode :: "grpc_request from_slice" where
  "demo_decode d = Inr \<lparr>req_headers = Map.empty, request_id = Some d\<rparr>"

lemma demo_codec: "codec_ok demo_encode demo_decode"
  by (auto simp: codec_ok_def demo_encode_def demo_decode_def split: option.splits if_splits)

lemma request_reaches_server_witness:
  "send_request \<lparr>gc_app_name = ''shop'', gc_identity = \<lambda>_. [''accessToken'' \<mapsto> ''t'']\<rparr> internal_resource ''ip'' ''HealthCheckRequest'' demo_encode
      (serve ''HealthCheckRequest'' demo_decode (\<lambda>_. Inl []) ''R'' Inr
        (\<lambda>m. \<lparr>gm_headers = Map.empty, gm_body = the (gm_headers m ''app''), gm_client_ip = []\<rparr>))
      ''R'' Inr (\<lambda>_. Inl []) \<lparr>req_headers = Map.empty, request_id = Some ''7''\<rparr> = Ok ''shop''"
  using request_reaches_server[OF demo_codec, of Inr Inr "\<lparr>req_headers = Map.empty, request_id = Some ''7''\<rparr>" "''7''" _
      "\<lparr>gc_app_name = ''shop'', gc_identity = \<lambda>_. [''accessToken'' \<mapsto> ''t'']\<rparr>" internal_resource "''ip''"
      "\<lambda>m. \<lparr>gm_headers = Map.empty, gm_body = the (gm_headers m ''app''), gm_client_ip = []\<rparr>" "''shop''" "''HealthCheckRequest''" "\<lambda>_. Inl []" "''R''", OF _ _ refl]
  by (simp add: codec_ok_def demo_encode_def internal_resource_def APP_FIELD_def)

text \<open>
  C35: a client whose server cannot be reached does not hang: with enough answers of its connection
  attempts the first request fails, and the client is refused, or started without a connection when
  an emergency start is configured.
\<close>

theorem unreachable_start:
  assumes "\<forall>e\<in>set es. unreachable e" "attempts_left (built_connection now b) < length es"
  shows "\<exists>c. poll_ready es (built_connection now b) = Some (PollReady, c) \<and>
    grpc_client_build auth (Ok req) (failover_send_request boxed service later c) b =
      (if gb_emergency_start b then Ok \<lparr>gc_app_name = gb_app_name b, gc_identity = auth\<rparr>
       else Err (GrpcBufferRequest (boxed (ErrResult ''the connection is not connected''))))"
proof -
  let ?c = "built_connection now b"
  have "conn_ok ?c" "\<not> cn_initialized ?c" by (simp_all add: conn_ok_def conn_new_def built_connection_def)
  from unreachable_gives_up[OF this assms] obtain c where
    c: "poll_ready es ?c = Some (PollReady, c)" "conn_ok c" "\<not> cn_initialized c" by blast
  have "cn_state c \<noteq> Connected" using c(2,3) by (auto simp: conn_ok_def)
  then have "fst (conn_call service later req c) = Err (ErrResult ''the connection is not connected'')"
    by (simp add: conn_call_def split: conn_state.split)
  then show ?thesis using c(1) by (simp add: grpc_client_build_def failover_send_request_def)
qed

lemma unreachable_start_witness:
  "\<exists>c. poll_ready (replicate 7 \<lparr>pe_make = Some (Ok ()), pe_init = Some (Err NoAvailableServer), pe_service = None, pe_slept = True, pe_now = 0\<rparr>)
    (conn_new 0 None) = Some (PollReady, c)"
proof -
  let ?e = "\<lparr>pe_make = Some (Ok ()), pe_init = Some (Err NoAvailableServer), pe_service = None, pe_slept = True, pe_now = 0\<rparr>"
  let ?b = "grpc_builder_new :: unit grpc_builder"
  have "\<forall>e\<in>set (replicate 7 ?e). unreachable e"
    "attempts_left (built_connection 0 ?b) < length (replicate 7 ?e)"
    by (simp_all add: unreachable_def attempts_left_def conn_new_def built_connection_def grpc_builder_new_def)
  then obtain c where "poll_ready (replicate 7 ?e) (built_connection 0 ?b) = Some (PollReady, c)"
    using unreachable_start by blast
  then show ?thesis by (auto simp: built_connection_def grpc_builder_new_def)
qed

section \<open>Layers\<close>

lemma gb_unary_layers:
  assumes "stacks stack"
  shows "(case gb_unary_layer (fold (gb_add_unary_layer stack) ls b) of None \<Rightarrow> s | Some l \<Rightarrow> l s) =
    (case gb_unary_layer b of None \<Rightarrow> \<lambda>s. s | Some l \<Rightarrow> l) (foldr (\<lambda>l. l) ls s)"
  using assms by (induction ls arbitrary: b s) (auto simp: gb_add_unary_layer_def stacks_def split: option.splits)

lemma gb_bi_layers:
  assumes "stacks stack"
  shows "(case gb_bi_layer (fold (gb_add_bi_layer stack) ls b) of None \<Rightarrow> s | Some l \<Rightarrow> l s) =
    (case gb_bi_layer b of None \<Rightarrow> \<lambda>s. s | Some l \<Rightarrow> l) (foldr (\<lambda>l. l) ls s)"
  using assms by (induction ls arbitrary: b s) (auto simp: gb_add_bi_layer_def stacks_def split: option.splits)

lemma fold_other_layers:
  "gb_unary_layer (fold (gb_add_bi_layer stack) ls b) = gb_unary_layer b"
  "gb_bi_layer (fold (gb_add_unary_layer stack') ls' b) = gb_bi_layer b"
  by (induction ls arbitrary: b, simp_all add: gb_add_bi_layer_def)
    (induction ls' arbitrary: b, simp_all add: gb_add_unary_layer_def)

lemma built_tonic_layers:
  assumes "stacks ustack" "stacks bstack"
  shows "tb_unary_layer (built_tonic ustack bstack b) s = (case gb_unary_layer b of None \<Rightarrow> s | Some l \<Rightarrow> l s)"
    "tb_bi_layer (built_tonic ustack bstack b) s' = (case gb_bi_layer b of None \<Rightarrow> s' | Some l \<Rightarrow> l s')"
    "tb_config (built_tonic ustack bstack b) = gb_config b"
  using assms
  by (auto simp: built_tonic_def Let_def TonicBuilder_new_def tb_add_unary_layer_def tb_add_bi_layer_def stacks_def
      UnaryCallIdentityLayer_def BiStreamingCallIdentityLayer_def split: option.splits)

text \<open>
  C28: layers registered with a client wrap its calls in the order of their registration, the first
  one outermost, for both kinds of calls: a request passes the layers as they were registered and
  then reaches the generated client.
\<close>

theorem layers_in_order:
  assumes "stacks ustack" "stacks bstack"
    "b = fold (gb_add_bi_layer bstack) bs (fold (gb_add_unary_layer ustack) us grpc_builder_new)"
    "tonic_builder_call tls ca_cert_path read_file build_uri server_info (built_tonic ustack bstack b) = Some (Ok t)"
  shows "unary_exchange client t p =
      (let svc = foldr (\<lambda>l. l) us (UnaryCallService client) in case svc_ready svc of Inl e \<Rightarrow> None | Inr _ \<Rightarrow> Some (svc_call svc p)) \<and>
    bi_exchange bclient t ps =
      (let svc = foldr (\<lambda>l. l) bs (BiStreamingCallService bclient) in case svc_ready svc of Inl e \<Rightarrow> None | Inr _ \<Rightarrow> Some (svc_call svc ps))"
proof -
  let ?t = "built_tonic ustack bstack b"
  have t: "tn_unary_layer t = tb_unary_layer ?t" "tn_bi_layer t = tb_bi_layer ?t"
    using assms(4) by (auto simp: tonic_builder_call_def Tonic_new_def split: sum.splits option.splits)
  have u: "tn_unary_layer t s = foldr (\<lambda>l. l) us s" for s
    using gb_unary_layers[OF assms(1), where b = grpc_builder_new and ls = us and s = s] built_tonic_layers(1)[OF assms(1,2), of b s]
    unfolding t(1) assms(3) fold_other_layers(1) by (simp add: grpc_builder_new_def)
  have bi: "tn_bi_layer t s = foldr (\<lambda>l. l) bs s" for s
    using gb_bi_layers[OF assms(2), where b = "fold (gb_add_unary_layer ustack) us grpc_builder_new" and ls = bs and s = s]
      built_tonic_layers(2)[OF assms(1,2), of b s]
    unfolding t(2) assms(3) fold_other_layers(2) by (simp add: grpc_builder_new_def)
  show ?thesis by (simp add: unary_exchange_eq bi_exchange_eq u bi)
qed

definition demo_layer :: "string \<Rightarrow> (payload, payload) layer" where
  "demo_layer c svc = svc\<lparr>svc_call := (\<lambda>p. svc_call svc
    (p\<lparr>p_body := map_option (\<lambda>b. b\<lparr>any_value := any_value b @ c\<rparr>) (p_body p)\<rparr>))\<rparr>"

definition demo_stack :: "('q, 'r) stack" where
  "demo_stack inner outer s = outer (inner s)"

lemma demo_stacks: "stacks demo_stack"
  by (simp add: stacks_def demo_stack_def)

lemma layers_in_order_witness:
  "\<exists>t. tonic_builder_call False None (\<lambda>_. None) (\<lambda>scheme auth. Some (scheme @ auth)) (Ok (''h'', 8848))
      (built_tonic demo_stack demo_stack (fold (gb_add_unary_layer demo_stack) [demo_layer ''a'', demo_layer ''b''] (grpc_builder_new :: unit grpc_builder))) = Some (Ok t) \<and>
    unary_exchange Inr t \<lparr>p_metadata = None, p_body = Some \<lparr>type_url = [], any_value = []\<rparr>\<rparr> =
      Some (Ok \<lparr>p_metadata = None, p_body = Some \<lparr>type_url = [], any_value = ''ab''\<rparr>\<rparr>)"
proof -
  let ?b = "fold (gb_add_bi_layer demo_stack) [] (fold (gb_add_unary_layer demo_stack) [demo_layer ''a'', demo_layer ''b''] (grpc_builder_new :: unit grpc_builder))"
  obtain t where t: "tonic_builder_call False None (\<lambda>_. None) (\<lambda>scheme auth. Some (scheme @ auth)) (Ok (''h'', 8848))
      (built_tonic demo_stack demo_stack ?b) = Some (Ok t)"
    by (simp add: tonic_builder_call_def Tonic_new_def tls_options_def)
  from layers_in_order[OF demo_stacks demo_stacks refl t, of Inr "\<lparr>p_metadata = None, p_body = Some \<lparr>type_url = [], any_value = []\<rparr>\<rparr>"]
  show ?thesis using t by (auto simp: demo_layer_def UnaryCallService_def unary_call_def)
qed

section \<open>A server that works\<close>

text \<open>
  C12: against a working server a client starts: one that takes the set-up message, answers the server
  check with a connection id and is not hidden by layers. In four iterations the first connection is
  ready under this id, its listeners are told of it once, the check of the start passes, and every
  request from then on is answered by what the server answers to it.
\<close>

theorem working_server_start:
  assumes "built_setup_message to_vec ip b = Ok msg" "bi_client [msg] = Inr stream"
    "request_client check = Inr reply" "from_payload ''ServerCheckResponse'' from_slice err_slice reply = Inr m"
    "connection_id (gm_body m) = Some cid" "request_client hcheck = Inr healthy"
    "stacks ustack" "stacks bstack" "gb_unary_layer b = None" "gb_bi_layer b = None" "gb_max_retries b \<noteq> Some 0"
    "tonic_builder_call tls ca_cert_path read_file build_uri (Ok address) (built_tonic ustack bstack b) = Some (Ok t)"
    "e = \<lparr>pe_make = Some (Ok ()), pe_init = Some (init_attempt request_client bi_client (Ok msg) (Ok check) from_slice err_slice t),
      pe_service = tonic_ready True (Some (Inr ())), pe_slept = True, pe_now = now'\<rparr>"
  shows "\<exists>c. poll_ready [e, e, e, e] (built_connection now b) = Some (PollReady, c) \<and> cn_connection_id c = Some cid \<and>
    connected_events None (cn_watch c) = [cid] \<and> disconnected_events None (cn_watch c) = [] \<and>
    grpc_client_build auth (Ok hcheck) (failover_send_request boxed (unary_exchange request_client t) later c) b =
      Ok \<lparr>gc_app_name = gb_app_name b, gc_identity = auth\<rparr> \<and>
    (\<forall>p. failover_send_request boxed (unary_exchange request_client t) later c p =
      (case request_client p of Inr r \<Rightarrow> Ok r | Inl status \<Rightarrow> Err (GrpcBufferRequest (boxed (TonicGrpcStatus status)))))"
proof -
  let ?t = "built_tonic ustack bstack b"
  have t: "tn_unary_layer t s = s" "tn_bi_layer t s' = s'" for s s'
    using tonic_builder_layers[OF assms(12)] built_tonic_layers(1,2)[OF assms(7,8), of b] assms(9,10) by simp_all
  have ex: "unary_exchange request_client t p = Some (unary_call request_client p)" for p
    by (simp add: unary_exchange_eq t UnaryCallService_def)
  have "bi_exchange bi_client t [msg] = Some (bi_streaming_call bi_client [msg])"
    by (simp add: bi_exchange_eq t BiStreamingCallService_def)
  then have i: "init_attempt request_client bi_client (Ok msg) (Ok check) from_slice err_slice t = Ok cid"
    using assms(2-5)
    by (simp add: init_attempt_def init_connection_def convert_def check_server_def ex unary_call_def recv_response_def
        unwrap_option_def bi_streaming_call_def)
  have ng: "\<not> given_up (built_connection now b)" using assms(11)
    by (auto simp: given_up_def built_connection_def conn_new_def split: option.split)
  let ?c = "(built_connection now b)\<lparr>cn_watch := [None, Some cid], cn_retry_count := 0, cn_health := True, cn_last_active := now',
    cn_initialized := True, cn_state := Connected, cn_connection_id := Some cid, cn_streams := [cid]\<rparr>"
  have "poll_ready [e, e, e, e] (built_connection now b) = Some (PollReady, ?c)"
    using ng i assms(13) by (simp add: poll_iter_def given_up_def built_connection_def conn_new_def tonic_ready_def)
  moreover have "failover_send_request boxed (unary_exchange request_client t) later ?c p =
      (case request_client p of Inr r \<Rightarrow> Ok r | Inl status \<Rightarrow> Err (GrpcBufferRequest (boxed (TonicGrpcStatus status))))" for p
    by (simp add: failover_send_request_def conn_call_def ex recv_response_def unary_call_def split: sum.split)
  ultimately show ?thesis using assms(6)
    by (intro exI[of _ ?c]) (simp add: grpc_client_build_def)
qed

definition demo_server_reply :: payload where
  "demo_server_reply = \<lparr>p_metadata = Some \<lparr>m_type = ''ServerCheckResponse'', m_client_ip = [], m_headers = Map.empty\<rparr>,
     p_body = Some \<lparr>type_url = [], any_value = ''c1''\<rparr>\<rparr>"

definition demo_check_slice :: "ServerCheckResponse from_slice" where
  "demo_check_slice d = Inr \<lparr>result_code = 200, error_code = 0, message = None, response_id = None, connection_id = Some d\<rparr>"

lemma working_server_start_witness:
  "\<exists>t c. tonic_builder_call False None (\<lambda>_. None) (\<lambda>scheme auth. Some (scheme @ auth)) (Ok (''h'', 8848))
      (built_tonic demo_stack demo_stack (grpc_builder_new :: unit grpc_builder)) = Some (Ok t) \<and>
    cn_connection_id c = Some ''c1'' \<and>
    failover_send_request (\<lambda>_. []) (unary_exchange (\<lambda>_. Inr demo_server_reply) t) 7 c demo_server_reply = Ok demo_server_reply"
proof -
  let ?b = "grpc_builder_new :: unit grpc_builder"
  let ?client = "\<lambda>_ :: payload. Inr demo_server_reply :: string + payload"
  let ?bi = "\<lambda>_ :: payload list. Inr [] :: string + (string + payload) list"
  obtain t where t: "tonic_builder_call False None (\<lambda>_. None) (\<lambda>scheme auth. Some (scheme @ auth)) (Ok (''h'', 8848))
      (built_tonic demo_stack demo_stack ?b) = Some (Ok t)"
    by (simp add: tonic_builder_call_def Tonic_new_def tls_options_def)
  obtain msg where msg: "built_setup_message (\<lambda>_. Inr []) ''ip'' ?b = Ok msg"
    by (simp add: built_setup_message_def setup_payload_def convert_def into_payload_def to_proto_any_def)
  obtain m where m: "from_payload ''ServerCheckResponse'' demo_check_slice (\<lambda>_. Inl []) demo_server_reply = Inr m"
      "connection_id (gm_body m) = Some ''c1''"
    by (simp add: from_payload_def demo_server_reply_def from_proto_any_def demo_check_slice_def)
  have layers: "gb_unary_layer ?b = None" "gb_bi_layer ?b = None" "gb_max_retries ?b \<noteq> Some 0"
    by (simp_all add: grpc_builder_new_def)
  show ?thesis
    using working_server_start[where request_client = ?client and bi_client = ?bi and hcheck = demo_server_reply and boxed = "\<lambda>_. []"
        and later = 7 and check = demo_server_reply and err_slice = "\<lambda>_. Inl []" and auth = "\<lambda>_. Map.empty" and now = 0 and now' = 0,
        OF msg refl refl m refl demo_stacks demo_stacks layers t refl] t
    by auto
qed

end
