(* ===== verification/Float64.thy ===== *)
theory Float64
  imports Complex_Main Prelude "HOL-Library.Log_Nat"
begin

text \<open>
  The comparisons and the arithmetic of \<^verbatim>\<open>f64\<close> the crate uses: IEEE 754 binary64, rounding to
  nearest with ties to even. A finite value is a rational number (both zeros are the number 0, which
  compare equal); comparisons with NaN are false.
\<close>

datatype f64 = Fin rat | PosInf | NegInf | NotANumber

text \<open>\<^verbatim>\<open>==\<close>, which NaN does not satisfy, and \<^verbatim>\<open>PartialOrd\<close>, as the class of orders without laws.\<close>

definition f64_eq :: "f64 \<Rightarrow> f64 \<Rightarrow> bool" where
  "f64_eq x y = (x = y \<and> x \<noteq> NotANumber)"

instantiation f64 :: ord
begin

fun less_f64 :: "f64 \<Rightarrow> f64 \<Rightarrow> bool" where
  "less_f64 (Fin x) (Fin y) = (x < y)"
| "less_f64 NegInf (Fin y) = True"
| "less_f64 NegInf PosInf = True"
| "less_f64 (Fin x) PosInf = True"
| "less_f64 _ _ = False"

definition less_eq_f64 :: "f64 \<Rightarrow> f64 \<Rightarrow> bool" where
  "less_eq_f64 x y = (x < y \<or> f64_eq x y)"

instance ..

end

lemma less_f64_not_NaN: "x < y \<Longrightarrow> x \<noteq> NotANumber \<and> y \<noteq> NotANumber"
  by (cases "(x, y)" rule: less_f64.cases) auto

lemma f64_eq_refl: "f64_eq x x \<longleftrightarrow> x \<noteq> NotANumber"
  by (simp add: f64_eq_def)

lemma less_eq_f64_Fin [simp]: "Fin x \<le> Fin y \<longleftrightarrow> x \<le> y" "f64_eq (Fin x) (Fin y) \<longleftrightarrow> x = y"
  by (auto simp: less_eq_f64_def f64_eq_def)

section \<open>Rounding\<close>

text \<open>The integer nearest to a number, the even one of two.\<close>

definition rne :: "rat \<Rightarrow> int" where
  "rne q = (let f = \<lfloor>q\<rfloor>; d = q - of_int f
     in if d < 1 / 2 then f else if 1 / 2 < d then f + 1 else if even f then f else f + 1)"

text \<open>The exponent of a positive number: \<open>2 powi ilog2 x \<le> x < 2 powi (ilog2 x + 1)\<close>.\<close>

definition ilog2 :: "rat \<Rightarrow> int" where
  "ilog2 x = (let (n, d) = quotient_of x; e = bitlen n - bitlen d
     in if 2 powi e \<le> x then e else e - 1)"

definition ulp :: "rat \<Rightarrow> rat" where
  "ulp x = 2 powi (max (ilog2 \<bar>x\<bar>) (- 1022) - 52)"

definition fl :: "rat \<Rightarrow> f64" where
  "fl x = (if x = 0 then Fin 0
     else let r = of_int (rne (x / ulp x)) * ulp x
          in if 2 ^ 1024 \<le> r then PosInf else if r \<le> - (2 ^ 1024) then NegInf else Fin r)"

section \<open>Arithmetic\<close>

fun f64_add :: "f64 \<Rightarrow> f64 \<Rightarrow> f64" where
  "f64_add (Fin x) (Fin y) = fl (x + y)"
| "f64_add NotANumber _ = NotANumber"
| "f64_add _ NotANumber = NotANumber"
| "f64_add PosInf NegInf = NotANumber"
| "f64_add NegInf PosInf = NotANumber"
| "f64_add PosInf _ = PosInf"
| "f64_add NegInf _ = NegInf"
| "f64_add (Fin x) y = y"

fun f64_neg :: "f64 \<Rightarrow> f64" where
  "f64_neg (Fin x) = Fin (- x)"
| "f64_neg PosInf = NegInf"
| "f64_neg NegInf = PosInf"
| "f64_neg NotANumber = NotANumber"

definition f64_sub :: "f64 \<Rightarrow> f64 \<Rightarrow> f64" where
  "f64_sub x y = f64_add x (f64_neg y)"

fun f64_abs :: "f64 \<Rightarrow> f64" where
  "f64_abs (Fin x) = Fin \<bar>x\<bar>"
| "f64_abs NegInf = PosInf"
| "f64_abs x = x"

text \<open>Division; a divisor zero counts as positive.\<close>

fun f64_div :: "f64 \<Rightarrow> f64 \<Rightarrow> f64" where
  "f64_div (Fin x) (Fin y) =
    (if y \<noteq> 0 then fl (x / y) else if x = 0 then NotANumber else if 0 < x then PosInf else NegInf)"
| "f64_div NotANumber _ = NotANumber"
| "f64_div _ NotANumber = NotANumber"
| "f64_div PosInf (Fin y) = (if 0 \<le> y then PosInf else NegInf)"
| "f64_div NegInf (Fin y) = (if 0 \<le> y then NegInf else PosInf)"
| "f64_div (Fin x) _ = Fin 0"
| "f64_div _ _ = NotANumber"

section \<open>Rounding is monotone and keeps the numbers it yields\<close>

lemma rne_mono: "x \<le> y \<Longrightarrow> rne x \<le> rne y"
proof -
  assume le: "x \<le> y"
  then have fl: "\<lfloor>x\<rfloor> \<le> \<lfloor>y\<rfloor>" by (rule floor_mono)
  have b: "\<lfloor>z\<rfloor> \<le> rne z" "rne z \<le> \<lfloor>z\<rfloor> + 1" for z by (auto simp: rne_def)
  show ?thesis
  proof (cases "\<lfloor>x\<rfloor> = \<lfloor>y\<rfloor>")
    case True
    then show ?thesis using le by (auto simp: rne_def)
  next
    case False
    then have "\<lfloor>x\<rfloor> + 1 \<le> \<lfloor>y\<rfloor>" using fl by linarith
    then show ?thesis using b[of x] b[of y] by linarith
  qed
qed

lemma rne_of_int [simp]: "rne (of_int k) = k"
  by (simp add: rne_def)

lemma rne_0 [simp]: "rne 0 = 0"
  using rne_of_int[of 0] by simp

lemma rne_le_int: "x \<le> of_int k \<Longrightarrow> rne x \<le> k" "of_int k \<le> x \<Longrightarrow> k \<le> rne x"
  using rne_mono[of x "of_int k"] rne_mono[of "of_int k" x] by simp_all

lemma bitlen_powi:
  assumes "0 < n"
  shows "(2::rat) powi (bitlen n - 1) \<le> of_int n" "of_int n < (2::rat) powi bitlen n"
proof -
  have b: "1 \<le> bitlen n" using assms bitlen_bounds[OF assms] by (cases "bitlen n \<le> 0") auto
  have "of_int (2 ^ nat (bitlen n - 1)) \<le> (of_int n :: rat)" "(of_int n :: rat) < of_int (2 ^ nat (bitlen n))"
    using bitlen_bounds[OF assms] by (simp_all only: of_int_le_iff of_int_less_iff)
  then show "(2::rat) powi (bitlen n - 1) \<le> of_int n" "of_int n < (2::rat) powi bitlen n"
    using b by (simp_all add: power_int_def)
qed

lemma powi_mono2: "a \<le> b \<Longrightarrow> (2::rat) powi a \<le> 2 powi b"
  by (rule power_int_increasing) simp_all

lemma powi_add2: "(2::rat) powi (a + b) = 2 powi a * 2 powi b"
  by (rule power_int_add) simp

lemma powi_pos2 [simp]: "(0::rat) < 2 powi a"
  by (rule zero_less_power_int) simp

lemma ilog2_bounds:
  assumes "0 < x"
  shows "2 powi ilog2 x \<le> x \<and> x < 2 powi (ilog2 x + 1)"
proof -
  obtain n d where q: "quotient_of x = (n, d)" by (cases "quotient_of x")
  have d: "0 < d" and x: "x = of_int n / of_int d"
    using quotient_of_denom_pos[OF q] quotient_of_div[OF q] by simp_all
  have n: "0 < n" using assms d x by (simp add: zero_less_divide_iff)
  let ?a = "bitlen n" and ?b = "bitlen d"
  have xd: "x * of_int d = of_int n" using x d by simp
  have up: "x < 2 powi (?a - ?b + 1)"
  proof (rule ccontr)
    assume "\<not> x < 2 powi (?a - ?b + 1)"
    then have "2 powi (?a - ?b + 1) * 2 powi (?b - 1) \<le> x * of_int d"
      using bitlen_powi(1)[OF d] assms by (intro mult_mono) (auto intro: less_imp_le)
    moreover have "(2::rat) powi (?a - ?b + 1) * 2 powi (?b - 1) = 2 powi ?a"
      by (simp add: powi_add2[symmetric])
    ultimately show False using bitlen_powi(2)[OF n] xd by simp
  qed
  have low: "2 powi (?a - ?b - 1) \<le> x"
  proof (rule ccontr)
    assume "\<not> 2 powi (?a - ?b - 1) \<le> x"
    then have "x * of_int d < 2 powi (?a - ?b - 1) * 2 powi ?b"
      using bitlen_powi(2)[OF d] assms d by (intro mult_strict_mono) auto
    moreover have "(2::rat) powi (?a - ?b - 1) * 2 powi ?b = 2 powi (?a - 1)"
      by (simp add: powi_add2[symmetric])
    ultimately show False using bitlen_powi(1)[OF n] xd by simp
  qed
  show ?thesis using up low by (auto simp: ilog2_def q)
qed

lemma ilog2_eqI:
  assumes "2 powi e \<le> x" "x < 2 powi (e + 1)"
  shows "ilog2 x = e"
proof -
  have x: "0 < x" using assms(1) powi_pos2[of e] by linarith
  have "\<not> ilog2 x < e" using powi_mono2[of "ilog2 x + 1" e] ilog2_bounds[OF x] assms by force
  moreover have "\<not> e < ilog2 x" using powi_mono2[of "e + 1" "ilog2 x"] ilog2_bounds[OF x] assms by force
  ultimately show ?thesis by simp
qed

lemma ilog2_mono: "0 < x \<Longrightarrow> x \<le> y \<Longrightarrow> ilog2 x \<le> ilog2 y"
  using ilog2_bounds[of x] ilog2_bounds[of y] powi_mono2[of "ilog2 y + 1" "ilog2 x"] by force

section \<open>The rounded value before the overflow check\<close>

definition ulp_exp :: "rat \<Rightarrow> int" where
  "ulp_exp x = max (ilog2 x) (- 1022) - 52"

definition rd :: "rat \<Rightarrow> rat" where
  "rd x = of_int (rne (x / 2 powi ulp_exp x)) * 2 powi ulp_exp x"

lemma fl_pos: "0 < x \<Longrightarrow> fl x = (if 2 ^ 1024 \<le> rd x then PosInf else if rd x \<le> - (2 ^ 1024) then NegInf else Fin (rd x))"
  by (simp add: fl_def rd_def ulp_def ulp_exp_def)

lemma rd_le:
  assumes "0 < x" "x \<le> of_int k * 2 powi ulp_exp x"
  shows "rd x \<le> of_int k * 2 powi ulp_exp x"
proof -
  have "x / 2 powi ulp_exp x \<le> of_int k" using assms by (simp add: pos_divide_le_eq)
  then have "rne (x / 2 powi ulp_exp x) \<le> k" by (rule rne_le_int)
  then show ?thesis by (simp add: rd_def)
qed

lemma rd_ge:
  assumes "0 < x" "of_int k * 2 powi ulp_exp x \<le> x"
  shows "of_int k * 2 powi ulp_exp x \<le> rd x"
proof -
  have "of_int k \<le> x / 2 powi ulp_exp x" using assms by (simp add: pos_le_divide_eq)
  then have "k \<le> rne (x / 2 powi ulp_exp x)" by (rule rne_le_int)
  then show ?thesis by (simp add: rd_def)
qed

lemma powi_step: "of_int (2 ^ n) * (2::rat) powi e = 2 powi (e + int n)"
  by (simp add: powi_add2 power_int_of_nat)

lemma rd_upper:
  assumes "0 < x"
  shows "rd x \<le> 2 powi (ulp_exp x + 53)"
proof -
  have "x < 2 powi (ilog2 x + 1)" using ilog2_bounds[OF assms] by simp
  also have "\<dots> \<le> 2 powi (ulp_exp x + 53)" by (rule powi_mono2) (simp add: ulp_exp_def)
  finally show ?thesis using rd_le[OF assms, of "2 ^ 53"] powi_step[of 53 "ulp_exp x"] by simp
qed

lemma rd_lower:
  assumes "0 < x" "- 1022 \<le> ilog2 x"
  shows "2 powi (ulp_exp x + 52) \<le> rd x"
proof -
  have "2 powi (ulp_exp x + 52) \<le> x" using ilog2_bounds[OF assms(1)] assms(2) by (simp add: ulp_exp_def)
  then show ?thesis using rd_ge[OF assms(1), of "2 ^ 52"] powi_step[of 52 "ulp_exp x"] by simp
qed

lemma rd_nonneg: "0 < x \<Longrightarrow> 0 \<le> rd x"
  using rd_ge[of x 0] by simp

lemma rd_mono:
  assumes "0 < x" "x \<le> y"
  shows "rd x \<le> rd y"
proof (cases "ulp_exp x = ulp_exp y")
  case True
  have "rne (x / 2 powi ulp_exp y) \<le> rne (y / 2 powi ulp_exp y)"
    using assms(2) by (intro rne_mono divide_right_mono) (auto intro: less_imp_le)
  then show ?thesis using True by (simp add: rd_def)
next
  case False
  then have "ulp_exp x < ulp_exp y" "- 1022 \<le> ilog2 y"
    using ilog2_mono[OF assms] by (auto simp: ulp_exp_def)
  then have "rd x \<le> 2 powi (ulp_exp y + 52)"
    using rd_upper[OF assms(1)] powi_mono2[of "ulp_exp x + 53" "ulp_exp y + 52"] by force
  also have "\<dots> \<le> rd y" using \<open>- 1022 \<le> ilog2 y\<close> assms by (intro rd_lower) auto
  finally show ?thesis .
qed

lemma rd_exact:
  assumes "x = of_int k * 2 powi ulp_exp x"
  shows "rd x = x"
proof -
  have "x / 2 powi ulp_exp x = of_int k" using assms by (simp add: divide_eq_eq)
  then show ?thesis using assms by (simp add: rd_def)
qed

lemma rd_idem:
  assumes "0 < x" "0 < rd x"
  shows "rd (rd x) = rd x"
proof (cases "rd x < 2 powi (ulp_exp x + 53)")
  case True
  have "ulp_exp (rd x) = ulp_exp x"
  proof (cases "- 1022 \<le> ilog2 x")
    case True
    then have "2 powi ilog2 x \<le> rd x" using rd_lower[OF assms(1)] by (simp add: ulp_exp_def)
    moreover have "rd x < 2 powi (ilog2 x + 1)"
      using \<open>rd x < _\<close> True by (simp add: ulp_exp_def add.commute)
    ultimately have "ilog2 (rd x) = ilog2 x" by (rule ilog2_eqI)
    then show ?thesis by (simp add: ulp_exp_def)
  next
    case False
    then have "rd x < 2 powi (- 1021)" using \<open>rd x < _\<close> by (simp add: ulp_exp_def)
    then have "\<not> - 1021 \<le> ilog2 (rd x)"
      using ilog2_bounds[OF assms(2)] powi_mono2[of "- 1021" "ilog2 (rd x)"] by force
    then show ?thesis using False by (simp add: ulp_exp_def)
  qed
  then show ?thesis by (intro rd_exact[of _ "rne (x / 2 powi ulp_exp x)"]) (simp add: rd_def)
next
  case False
  then have r: "rd x = 2 powi (ulp_exp x + 53)" using rd_upper[OF assms(1)] by simp
  have "ilog2 (rd x) = ulp_exp x + 53" unfolding r by (rule ilog2_eqI) (simp_all add: powi_add2)
  moreover have "- 1022 \<le> ulp_exp x + 53" by (simp add: ulp_exp_def)
  ultimately have "ulp_exp (rd x) = ulp_exp x + 1" by (simp add: ulp_exp_def)
  then show ?thesis
    using r powi_step[of 52 "ulp_exp x + 1"] by (intro rd_exact[of _ "2 ^ 52"]) (simp add: add.commute)
qed

lemma fl_0 [simp]: "fl 0 = Fin 0"
  by (simp add: fl_def)

lemma fl_cases:
  assumes "0 \<le> x"
  obtains (inf) "fl x = PosInf" | (fin) r where "fl x = Fin r" "0 \<le> r" "fl r = Fin r"
proof (cases "x = 0")
  case True
  then show thesis using fin[of 0] by simp
next
  case False
  then have x: "0 < x" using assms by simp
  have big: "\<not> rd x \<le> - (2 ^ 1024)" using rd_nonneg[OF x] by (simp add: not_le less_le_trans[of _ 0])
  show thesis
  proof (cases "2 ^ 1024 \<le> rd x \<or> rd x = 0")
    case True
    then show thesis using inf fin[of 0] big fl_pos[OF x] by (auto split: if_splits)
  next
    case False
    then have "0 < rd x" using rd_nonneg[OF x] by simp
    then show thesis using fin[of "rd x"] fl_pos[OF x] fl_pos[of "rd x"] rd_idem[OF x] False big by simp
  qed
qed

lemma fl_mono:
  assumes "0 \<le> x" "x \<le> y"
  shows "fl x \<le> fl y"
proof (cases "x = 0")
  case True
  have "0 \<le> y" using assms by simp
  then show ?thesis using True by (cases rule: fl_cases[of y]) (auto simp: less_eq_f64_def f64_eq_def)
next
  case False
  then have x: "0 < x" and y: "0 < y" using assms by simp_all
  have "\<not> rd x \<le> - (2 ^ 1024)" "\<not> rd y \<le> - (2 ^ 1024)"
    using rd_nonneg[OF x] rd_nonneg[OF y] by (simp_all add: not_le less_le_trans[of _ 0])
  then show ?thesis using rd_mono[OF x assms(2)] fl_pos[OF x] fl_pos[OF y] by (auto simp: less_eq_f64_def f64_eq_def)
qed

text \<open>Values that are not negative (NaN among them), which sums and quotients keep.\<close>

fun f64_nonneg :: "f64 \<Rightarrow> bool" where
  "f64_nonneg (Fin x) = (0 \<le> x)"
| "f64_nonneg NegInf = False"
| "f64_nonneg _ = True"

lemma fl_nonneg: "0 \<le> x \<Longrightarrow> f64_nonneg (fl x)"
  by (cases rule: fl_cases[of x]) simp_all

lemma f64_add_nonneg: "f64_nonneg x \<Longrightarrow> f64_nonneg y \<Longrightarrow> f64_nonneg (f64_add x y)"
  by (cases x; cases y) (simp_all add: fl_nonneg)

lemma f64_div_nonneg: "f64_nonneg x \<Longrightarrow> f64_nonneg y \<Longrightarrow> f64_nonneg (f64_div x y)"
  by (cases x; cases y) (auto simp: fl_nonneg)

lemma f64_add_finite:
  assumes "f64_add x y = Fin z" "f64_nonneg x" "f64_nonneg y"
  shows "\<exists>a b. x = Fin a \<and> y = Fin b"
  using assms by (cases x; cases y) simp_all

text \<open>Numbers with at most 53 significant bits are not changed.\<close>

lemma fl_dyadic:
  assumes "x = of_int k * 2 powi e" "0 < k" "k < 2 ^ 53" "- 1074 \<le> e" "x < 2 ^ 1024"
  shows "fl x = Fin x"
proof -
  have x: "0 < x" using assms(1,2) by simp
  have "(of_int k :: rat) < of_int (2 ^ 53)" using assms(3) by (simp only: of_int_less_iff)
  then have "x < of_int (2 ^ 53) * 2 powi e" unfolding assms(1) by (rule mult_strict_right_mono) simp
  then have "x < 2 powi (e + 53)" using powi_step[of 53 e] by simp
  then have "\<not> e + 53 \<le> ilog2 x" using ilog2_bounds[OF x] powi_mono2[of "e + 53" "ilog2 x"] by force
  then have u: "ulp_exp x \<le> e" using assms(4) by (simp add: ulp_exp_def)
  have "x = of_int (k * 2 ^ nat (e - ulp_exp x)) * 2 powi ulp_exp x"
    using powi_step[of "nat (e - ulp_exp x)" "ulp_exp x"] u assms(1) by simp
  then have "rd x = x" by (rule rd_exact)
  moreover have "\<not> x \<le> - (2 ^ 1024)" using x by (simp add: not_le less_trans[of _ 0])
  ultimately show ?thesis using fl_pos[OF x] assms(5) by simp
qed

end
