(* ===== verification/ServiceInfo.thy ===== *)
theory ServiceInfo
  imports Common Float64
begin

text \<open>
  Services and their instances (src/api/naming.rs, src/naming/dto/service\_info.rs) and the
  difference between two snapshots of a service (src/naming/observable/service\_info\_diff.rs).
\<close>

section \<open>Instances\<close>

record ServiceInstance =
  instance_id :: "string option"
  ip :: string
  port :: "32 word"
  weight :: f64
  healthy :: bool
  enabled :: bool
  ephemeral :: bool
  cluster_name :: "string option"
  si_service_name :: "string option"
  si_metadata :: "string \<rightharpoonup> string"

definition ServiceInstance_default :: ServiceInstance where
  "ServiceInstance_default = \<lparr>instance_id = None, ip = [], port = 0, weight = Fin 1, healthy = True,
     enabled = True, ephemeral = True, cluster_name = Some ''DEFAULT'', si_service_name = None,
     si_metadata = Map.empty\<rparr>"

definition ip_and_port :: "ServiceInstance \<Rightarrow> string" where
  "ip_and_port h = ip h @ '':'' @ show_i32 (port h)"

definition is_same_instance :: "ServiceInstance \<Rightarrow> ServiceInstance \<Rightarrow> bool" where
  "is_same_instance a b =
    (instance_id a = instance_id b \<and> ip a = ip b \<and> port a = port b \<and> f64_eq (weight a) (weight b) \<and>
     healthy a = healthy b \<and> enabled a = enabled b \<and> ephemeral a = ephemeral b \<and>
     cluster_name a = cluster_name b \<and> si_service_name a = si_service_name b \<and> si_metadata a = si_metadata b)"

lemma is_same_instance_iff: "is_same_instance a b \<longleftrightarrow> a = b \<and> weight a \<noteq> NotANumber"
  by (auto simp: is_same_instance_def f64_eq_def)

section \<open>Services\<close>

record ServiceInfo =
  name :: string
  group_name :: string
  clusters :: string
  cache_millis :: "64 word"
  last_ref_time :: "64 word"
  checksum :: string
  all_ips :: "bool option"
  all_ips_3x :: "bool option"
  reach_protection_threshold :: bool
  hosts :: "ServiceInstance list option"

definition ServiceInfo_default :: ServiceInfo where
  "ServiceInfo_default = \<lparr>name = [], group_name = [], clusters = [], cache_millis = 1000, last_ref_time = 0,
     checksum = [], all_ips = Some False, all_ips_3x = Some False, reach_protection_threshold = False,
     hosts = None\<rparr>"

definition SERVICE_INFO_SEPARATOR :: string where "SERVICE_INFO_SEPARATOR = ''@@''"

text \<open>The cast to \<^verbatim>\<open>i32\<close> wraps.\<close>

definition ip_count :: "ServiceInfo \<Rightarrow> 32 word" where
  "ip_count s = (case hosts s of Some h \<Rightarrow> of_nat (length h) | None \<Rightarrow> 0)"

definition is_all_ips :: "ServiceInfo \<Rightarrow> bool" where
  "is_all_ips s =
    (case all_ips s of Some item \<Rightarrow> item | None \<Rightarrow> (case all_ips_3x s of None \<Rightarrow> False | Some b \<Rightarrow> b))"

fun has_weighted_healthy :: "ServiceInstance list \<Rightarrow> bool" where
  "has_weighted_healthy [] = False"
| "has_weighted_healthy (h # hs) =
    (if \<not> healthy h then has_weighted_healthy hs
     else if Fin 0 < weight h then True
     else has_weighted_healthy hs)"

definition validate :: "ServiceInfo \<Rightarrow> bool" where
  "validate s =
    (if is_all_ips s then True
     else case hosts s of None \<Rightarrow> False | Some hs \<Rightarrow> has_weighted_healthy hs)"

definition get_grouped_service_name :: "string \<Rightarrow> string \<Rightarrow> string" where
  "get_grouped_service_name service_name grp =
    (if grp \<noteq> [] \<and> \<not> contains service_name SERVICE_INFO_SEPARATOR
     then grp @ SERVICE_INFO_SEPARATOR @ service_name else service_name)"

definition get_key :: "string \<Rightarrow> string \<Rightarrow> string" where
  "get_key nm cls = (if cls \<noteq> [] then nm @ SERVICE_INFO_SEPARATOR @ cls else nm)"

definition get_key_without_clusters :: "string \<Rightarrow> string \<Rightarrow> string" where
  "get_key_without_clusters service_name grp = get_grouped_service_name service_name grp"

lemma has_weighted_healthy_iff:
  "has_weighted_healthy hs \<longleftrightarrow> (\<exists>h\<in>set hs. healthy h \<and> Fin 0 < weight h)"
  by (induction hs) auto

lemma grouped_name_idem:
  "get_grouped_service_name (get_grouped_service_name s g) g' = get_grouped_service_name s g \<or> g = []"
proof -
  have "contains (g @ SERVICE_INFO_SEPARATOR @ s) SERVICE_INFO_SEPARATOR"
    by (simp only: contains_sublist) (metis sublist_appendI)
  then show ?thesis by (auto simp: get_grouped_service_name_def)
qed

section \<open>Differences\<close>

record ServiceInfoDiff =
  new_instances :: "ServiceInstance list"
  removed_instances :: "ServiceInstance list"
  modified_instances :: "ServiceInstance list"
  changed :: bool

text \<open>
  The hash map from address to instance: a later instance with the same address replaces an earlier
  one. Its iteration order is unspecified; the model takes the order of first occurrence, on which
  only the order of the lists of the result depends.
\<close>

definition host_map :: "ServiceInstance list \<Rightarrow> string \<rightharpoonup> ServiceInstance" where
  "host_map hs = map_of (rev (map (\<lambda>h. (ip_and_port h, h)) hs))"

definition host_keys :: "ServiceInstance list \<Rightarrow> string list" where
  "host_keys hs = remdups (map ip_and_port hs)"

definition diff_calculate :: "ServiceInstance list \<Rightarrow> ServiceInstance list \<Rightarrow> ServiceInfoDiff" where
  "diff_calculate old_hosts new_hosts =
    (let old = host_map old_hosts; new = host_map new_hosts;
         news = List.map_filter (\<lambda>k. case old k of None \<Rightarrow> new k | Some _ \<Rightarrow> None) (host_keys new_hosts);
         mods = List.map_filter (\<lambda>k. case old k of None \<Rightarrow> None
                  | Some old_host \<Rightarrow> (case new k of None \<Rightarrow> None
                      | Some new_host \<Rightarrow> if \<not> is_same_instance old_host new_host then Some new_host else None))
                (host_keys new_hosts);
         removed = List.map_filter (\<lambda>k. if new k = None then old k else None) (host_keys old_hosts)
     in \<lparr>new_instances = news, removed_instances = removed, modified_instances = mods,
         changed = (news \<noteq> [] \<or> removed \<noteq> [] \<or> mods \<noteq> [])\<rparr>)"

text \<open>\<^verbatim>\<open>i64\<close> comparison.\<close>

definition is_outdated_data :: "ServiceInfo \<Rightarrow> ServiceInfo \<Rightarrow> bool" where
  "is_outdated_data old_service new_service = (sint (last_ref_time new_service) < sint (last_ref_time old_service))"

lemma host_map_dom: "dom (host_map hs) = set (host_keys hs)"
  by (auto simp: host_map_def host_keys_def dom_map_of_conv_image_fst image_image)

lemma map_filter_Nil: "List.map_filter f xs = [] \<longleftrightarrow> (\<forall>x\<in>set xs. f x = None)"
  by (induction xs) (auto simp: map_filter_simps split: option.splits)

lemma changed_iff_host_map:
  "changed (diff_calculate old_hosts new_hosts) \<longleftrightarrow>
    (\<exists>k. case (host_map old_hosts k, host_map new_hosts k) of
       (None, None) \<Rightarrow> False
     | (Some a, Some b) \<Rightarrow> a \<noteq> b \<or> weight a = NotANumber
     | _ \<Rightarrow> True)"
proof -
  let ?o = "host_map old_hosts" let ?n = "host_map new_hosts"
  have kn: "k \<in> set (host_keys new_hosts) \<longleftrightarrow> ?n k \<noteq> None" "k \<in> set (host_keys old_hosts) \<longleftrightarrow> ?o k \<noteq> None" for k
    using host_map_dom[of new_hosts] host_map_dom[of old_hosts] by auto
  have "\<not> changed (diff_calculate old_hosts new_hosts) \<longleftrightarrow>
      (\<forall>k. ?n k \<noteq> None \<longrightarrow> ?o k \<noteq> None \<and> (\<forall>a b. ?o k = Some a \<longrightarrow> ?n k = Some b \<longrightarrow> is_same_instance a b)) \<and>
      (\<forall>k. ?o k \<noteq> None \<longrightarrow> ?n k \<noteq> None)"
    using kn by (fastforce simp: diff_calculate_def map_filter_Nil split: option.splits if_splits)
  then show ?thesis
    by (auto simp: is_same_instance_iff split: option.splits) (metis option.distinct(1) option.exhaust)+
qed

text \<open>
  C33: a snapshot counts as changed exactly when some address is listed in only one of the two, or
  with different data (for the instance listed last under the address).
\<close>

theorem diff_changed_iff:
  "changed (diff_calculate old_hosts new_hosts) \<longleftrightarrow>
    (\<exists>k. case (host_map old_hosts k, host_map new_hosts k) of
       (None, None) \<Rightarrow> False
     | (Some a, Some b) \<Rightarrow> a \<noteq> b \<or> weight a = NotANumber
     | _ \<Rightarrow> True)"
  by (rule changed_iff_host_map)

lemma diff_changed_iff_witness:
  "changed (diff_calculate [ServiceInstance_default] [ServiceInstance_default\<lparr>healthy := False\<rparr>]) \<and>
    \<not> changed (diff_calculate [ServiceInstance_default] [ServiceInstance_default])"
  unfolding diff_changed_iff
  by (auto simp: host_map_def ServiceInstance_default_def ip_and_port_def)

end
