(* ===== verification/Redo.thy ===== *)
theory Redo
  imports Messages ServiceInfo
begin

text \<open>
  The naming requests (src/naming/message) and the redo executor (src/naming/redo): registrations and
  subscriptions are remembered as tasks under a key, marked active when the connection comes back,
  and the active ones are sent again at every tick until the request gets through.
\<close>

section \<open>Messages\<close>

datatype RequestType = Register | Deregister

fun request_code :: "RequestType \<Rightarrow> string" where
  "request_code Register = ''registerInstance''"
| "request_code Deregister = ''deregisterInstance''"

definition RequestType_from :: "string \<Rightarrow> RequestType" where
  "RequestType_from c =
    (if c = ''registerInstance'' then Register else if c = ''deregisterInstance'' then Deregister else Register)"

lemma RequestType_from_code: "RequestType_from (request_code t) = t"
  by (cases t) (simp_all add: RequestType_from_def)

record InstanceRequest = naming_request +
  ir_type :: string
  ir_instance :: ServiceInstance

text \<open>Persistent requests have a request type and functions of their own.\<close>

datatype PersistentRequestType = PersistentRegister | PersistentDeregister

fun persistent_request_code :: "PersistentRequestType \<Rightarrow> string" where
  "persistent_request_code PersistentRegister = ''registerInstance''"
| "persistent_request_code PersistentDeregister = ''deregisterInstance''"

definition PersistentRequestType_from :: "string \<Rightarrow> PersistentRequestType" where
  "PersistentRequestType_from c =
    (if c = ''registerInstance'' then PersistentRegister
     else if c = ''deregisterInstance'' then PersistentDeregister else PersistentRegister)"

lemma PersistentRequestType_from_code: "PersistentRequestType_from (persistent_request_code t) = t"
  by (cases t) (simp_all add: PersistentRequestType_from_def)

record PersistentInstanceRequest = naming_request +
  pr_type :: string
  pr_instance :: ServiceInstance

record BatchInstanceRequest = naming_request +
  br_type :: string
  br_instances :: "ServiceInstance list"

record SubscribeServiceRequest = naming_request +
  sr_subscribe :: bool
  sr_clusters :: string

record ServiceQueryRequest = naming_request +
  sq_cluster :: string
  sq_healthy_only :: bool
  sq_udp_port :: "32 word"

record ServiceListRequest = naming_request +
  sl_page_no :: "32 word"
  sl_page_size :: "32 word"
  sl_selector :: "string option"

record InstanceResponse = grpc_response +
  irp_type :: "string option"

record QueryServiceResponse = grpc_response +
  qs_service_info :: ServiceInfo

record ServiceListResponse = grpc_response +
  slr_count :: "32 word"
  slr_service_names :: "string list"

record SubscribeServiceResponse = grpc_response +
  ssr_service_info :: ServiceInfo

definition InstanceRequest_new ::
    "string \<Rightarrow> RequestType \<Rightarrow> ServiceInstance \<Rightarrow> string option \<Rightarrow> string option \<Rightarrow> string option \<Rightarrow> InstanceRequest" where
  "InstanceRequest_new rid t inst service_name namespace grp =
    \<lparr>req_headers = Map.empty, request_id = Some rid, nr_namespace = namespace, nr_service_name = service_name,
     nr_group_name = grp, ir_type = request_code t, ir_instance = inst\<rparr>"

definition InstanceRequest_register where
  "InstanceRequest_register rid inst service_name namespace grp =
    InstanceRequest_new rid Register inst service_name namespace grp"

definition InstanceRequest_deregister where
  "InstanceRequest_deregister rid inst service_name namespace grp =
    InstanceRequest_new rid Deregister inst service_name namespace grp"

definition PersistentInstanceRequest_new ::
    "string \<Rightarrow> PersistentRequestType \<Rightarrow> ServiceInstance \<Rightarrow> string option \<Rightarrow> string option \<Rightarrow> string option \<Rightarrow> PersistentInstanceRequest" where
  "PersistentInstanceRequest_new rid t inst service_name namespace grp =
    \<lparr>req_headers = Map.empty, request_id = Some rid, nr_namespace = namespace, nr_service_name = service_name,
     nr_group_name = grp, pr_type = persistent_request_code t, pr_instance = inst\<rparr>"

definition PersistentInstanceRequest_register where
  "PersistentInstanceRequest_register rid inst service_name namespace grp =
    PersistentInstanceRequest_new rid PersistentRegister inst service_name namespace grp"

definition PersistentInstanceRequest_deregister where
  "PersistentInstanceRequest_deregister rid inst service_name namespace grp =
    PersistentInstanceRequest_new rid PersistentDeregister inst service_name namespace grp"

definition BatchInstanceRequest_new ::
    "string \<Rightarrow> ServiceInstance list \<Rightarrow> string option \<Rightarrow> string option \<Rightarrow> string option \<Rightarrow> BatchInstanceRequest" where
  "BatchInstanceRequest_new rid insts namespace service_name grp =
    \<lparr>req_headers = Map.empty, request_id = Some rid, nr_namespace = namespace, nr_service_name = service_name,
     nr_group_name = grp, br_type = ''batchRegisterInstance'', br_instances = insts\<rparr>"

definition SubscribeServiceRequest_new ::
    "string \<Rightarrow> bool \<Rightarrow> string \<Rightarrow> string option \<Rightarrow> string option \<Rightarrow> string option \<Rightarrow> SubscribeServiceRequest" where
  "SubscribeServiceRequest_new rid b cls service_name namespace grp =
    \<lparr>req_headers = Map.empty, request_id = Some rid, nr_namespace = namespace, nr_service_name = service_name,
     nr_group_name = grp, sr_subscribe = b, sr_clusters = cls\<rparr>"

section \<open>Redo tasks\<close>

text \<open>The four request types with an \<^verbatim>\<open>AutomaticRequest\<close>.\<close>

datatype automatic_request =
    AutoInstance InstanceRequest
  | AutoBatch BatchInstanceRequest
  | AutoPersistent PersistentInstanceRequest
  | AutoSubscribe SubscribeServiceRequest

fun identity :: "automatic_request \<Rightarrow> string" where
  "identity (AutoInstance r) = ''InstanceRequest''"
| "identity (AutoBatch r) = ''BatchInstanceRequest''"
| "identity (AutoPersistent r) = ''PersistentInstanceRequest''"
| "identity (AutoSubscribe r) = ''SubscribeServiceRequest''"

fun auto_base :: "automatic_request \<Rightarrow> naming_request" where
  "auto_base (AutoInstance r) = naming_request.truncate r"
| "auto_base (AutoBatch r) = naming_request.truncate r"
| "auto_base (AutoPersistent r) = naming_request.truncate r"
| "auto_base (AutoSubscribe r) = naming_request.truncate r"

fun with_request_id :: "string \<Rightarrow> automatic_request \<Rightarrow> automatic_request" where
  "with_request_id i (AutoInstance r) = AutoInstance (r\<lparr>request_id := Some i\<rparr>)"
| "with_request_id i (AutoBatch r) = AutoBatch (r\<lparr>request_id := Some i\<rparr>)"
| "with_request_id i (AutoPersistent r) = AutoPersistent (r\<lparr>request_id := Some i\<rparr>)"
| "with_request_id i (AutoSubscribe r) = AutoSubscribe (r\<lparr>request_id := Some i\<rparr>)"

definition unwrap_or_empty :: "string option \<Rightarrow> string" where
  "unwrap_or_empty x = (case x of None \<Rightarrow> [] | Some s \<Rightarrow> s)"

definition auto_name :: "automatic_request \<Rightarrow> string" where
  "auto_name r =
    unwrap_or_empty (nr_namespace (auto_base r)) @ ''@@'' @ unwrap_or_empty (nr_group_name (auto_base r)) @ ''@@'' @
    unwrap_or_empty (nr_service_name (auto_base r)) @ ''@@'' @ identity r"

text \<open>
  A task; \<open>rt_id\<close> tells the task objects apart, since the code keeps a reference to a task after it
  may have been replaced in the map.
\<close>

record redo_task =
  rt_id :: nat
  rt_request :: automatic_request
  rt_active :: bool

definition task_key :: "redo_task \<Rightarrow> string" where
  "task_key t = auto_name (rt_request t)"

record redo =
  redo_map :: "string \<rightharpoonup> redo_task"
  redo_next :: nat

definition redo_new :: redo where
  "redo_new = \<lparr>redo_map = Map.empty, redo_next = 0\<rparr>"

definition add_task :: "redo_task \<Rightarrow> redo \<Rightarrow> redo" where
  "add_task t s = s\<lparr>redo_map := (redo_map s)(task_key t \<mapsto> t)\<rparr>"

definition remove_task :: "string \<Rightarrow> redo \<Rightarrow> redo" where
  "remove_task key s = s\<lparr>redo_map := (redo_map s)(key := None)\<rparr>"

definition on_grpc_client_reconnect :: "redo \<Rightarrow> redo" where
  "on_grpc_client_reconnect s = s\<lparr>redo_map := (\<lambda>k. map_option (rt_active_update (\<lambda>_. True)) (redo_map s k))\<rparr>"

definition on_grpc_client_disconnect :: "redo \<Rightarrow> redo" where
  "on_grpc_client_disconnect s = s\<lparr>redo_map := (\<lambda>k. map_option (rt_active_update (\<lambda>_. False)) (redo_map s k))\<rparr>"

text \<open>Setting the flag of the task object \<open>i\<close>, which has an effect on the map while it is in it.\<close>

definition set_active :: "nat \<Rightarrow> bool \<Rightarrow> redo \<Rightarrow> redo" where
  "set_active i b s =
    s\<lparr>redo_map := (\<lambda>k. map_option (\<lambda>t. if rt_id t = i then t\<lparr>rt_active := b\<rparr> else t) (redo_map s k))\<rparr>"

text \<open>
  \<^verbatim>\<open>run\<close> sends the request with a new id; only whether the request got an answer decides, the
  answer's result code is not looked at.
\<close>

type_synonym 'a redo_server = "automatic_request \<Rightarrow> 'a result"

definition run_task :: "'a redo_server \<Rightarrow> string \<Rightarrow> redo_task \<Rightarrow> redo \<Rightarrow> redo" where
  "run_task send rid t s =
    (case send (with_request_id rid (rt_request t)) of
       Inl e \<Rightarrow> set_active (rt_id t) True s
     | Inr _ \<Rightarrow> set_active (rt_id t) False s)"

text \<open>One tick: the active tasks of the map, in its iteration order \<open>ks\<close>, are run one after the other.\<close>

definition active_tasks :: "string list \<Rightarrow> redo \<Rightarrow> redo_task list" where
  "active_tasks ks s = List.map_filter (\<lambda>k. case redo_map s k of None \<Rightarrow> None | Some t \<Rightarrow> if rt_active t then Some t else None) ks"

definition redo_tick :: "'a redo_server \<Rightarrow> (redo_task \<Rightarrow> string) \<Rightarrow> string list \<Rightarrow> redo \<Rightarrow> redo" where
  "redo_tick send rids ks s = fold (\<lambda>t s. run_task send (rids t) t s) (active_tasks ks s) s"

text \<open>
  \<^verbatim>\<open>execute_by_register_with_redo\<close> of src/naming/mod.rs in two parts: up to sending the request, and
  from its answer on.
\<close>

definition register_begin :: "automatic_request \<Rightarrow> redo \<Rightarrow> nat \<times> redo" where
  "register_begin req s =
    (let t = \<lparr>rt_id = redo_next s, rt_request = req, rt_active = True\<rparr>
     in (redo_next s, add_task t (s\<lparr>redo_next := redo_next s + 1\<rparr>)))"

definition register_finish :: "'a grpc_response_scheme result \<Rightarrow> string \<Rightarrow> nat \<Rightarrow> redo \<Rightarrow> unit result \<times> redo" where
  "register_finish answer operation i s =
    (case and_then answer (\<lambda>resp. handle_response resp operation) of
       Inl e \<Rightarrow> (Err e, s)
     | Inr _ \<Rightarrow> (Ok (), set_active i False s))"

definition execute_by_register_with_redo ::
    "(automatic_request \<Rightarrow> 'a grpc_response_scheme result) \<Rightarrow> automatic_request \<Rightarrow> string \<Rightarrow> redo \<Rightarrow> unit result \<times> redo" where
  "execute_by_register_with_redo send req operation s =
    (let (i, s1) = register_begin req s in register_finish (send req) operation i s1)"

definition execute_by_deregister_with_redo ::
    "(automatic_request \<Rightarrow> 'a grpc_response_scheme result) \<Rightarrow> automatic_request \<Rightarrow> string \<Rightarrow> redo \<Rightarrow> unit result \<times> redo" where
  "execute_by_deregister_with_redo send req operation s =
    (case and_then (send req) (\<lambda>resp. handle_response resp operation) of
       Inl e \<Rightarrow> (Err e, s)
     | Inr _ \<Rightarrow> (Ok (), remove_task (auto_name req) s))"

section \<open>Properties\<close>

text \<open>Every task is filed under its key, with an id of its own below the counter.\<close>

definition redo_ok :: "redo \<Rightarrow> bool" where
  "redo_ok s =
    ((\<forall>k t. redo_map s k = Some t \<longrightarrow> task_key t = k \<and> rt_id t < redo_next s) \<and>
     (\<forall>k k' t t'. redo_map s k = Some t \<longrightarrow> redo_map s k' = Some t' \<longrightarrow> rt_id t = rt_id t' \<longrightarrow> k = k'))"

lemma redo_new_ok: "redo_ok redo_new"
  by (simp add: redo_ok_def redo_new_def)

lemma set_active_ok [wf_preserve]: "redo_ok s \<Longrightarrow> redo_ok (set_active i b s)"
  by (auto simp: redo_ok_def set_active_def task_key_def split: if_splits)

lemma reconnect_ok [wf_preserve]:
  "redo_ok s \<Longrightarrow> redo_ok (on_grpc_client_reconnect s)" "redo_ok s \<Longrightarrow> redo_ok (on_grpc_client_disconnect s)"
  by (auto simp: redo_ok_def on_grpc_client_reconnect_def on_grpc_client_disconnect_def task_key_def)

lemma remove_task_ok [wf_preserve]: "redo_ok s \<Longrightarrow> redo_ok (remove_task k s)"
  by (auto simp: redo_ok_def remove_task_def split: if_splits)

lemma redo_okD:
  assumes "redo_ok s"
  shows "redo_map s k = Some t \<Longrightarrow> task_key t = k" "redo_map s k = Some t \<Longrightarrow> rt_id t < redo_next s"
    "redo_map s k = Some t \<Longrightarrow> redo_map s k' = Some t' \<Longrightarrow> rt_id t = rt_id t' \<Longrightarrow> k = k'"
  using assms by (auto simp: redo_ok_def)

lemma register_begin_ok [wf_preserve]:
  assumes "redo_ok s"
  shows "redo_ok (snd (register_begin req s))"
proof -
  let ?m = "redo_map (snd (register_begin req s))"
  let ?t = "\<lparr>rt_id = redo_next s, rt_request = req, rt_active = True\<rparr>"
  have m: "?m k = (if k = auto_name req then Some ?t else redo_map s k)" for k
    by (simp add: register_begin_def add_task_def task_key_def)
  have old: "rt_id t < redo_next s" if "redo_map s k = Some t" for k t
    using redo_okD(2)[OF assms that] .
  have "task_key t = k \<and> rt_id t < redo_next (snd (register_begin req s))" if "?m k = Some t" for k t
  proof (cases "k = auto_name req")
    case True
    then show ?thesis using that m by (auto simp: task_key_def register_begin_def add_task_def)
  next
    case False
    then have "redo_map s k = Some t" using that m by simp
    then show ?thesis using redo_okD(1)[OF assms] old by (simp add: register_begin_def add_task_def less_Suc_eq)
  qed
  moreover have "k = k'" if "?m k = Some t" "?m k' = Some t'" "rt_id t = rt_id t'" for k k' t t'
  proof (cases "k = auto_name req"; cases "k' = auto_name req")
    assume "k = auto_name req" "k' \<noteq> auto_name req"
    then show ?thesis using that m old[of k' t'] by auto
  next
    assume "k \<noteq> auto_name req" "k' = auto_name req"
    then show ?thesis using that m old[of k t] by auto
  next
    assume "k \<noteq> auto_name req" "k' \<noteq> auto_name req"
    then show ?thesis using that m redo_okD(3)[OF assms, of k t k' t'] by simp
  qed simp
  ultimately show ?thesis unfolding redo_ok_def by blast
qed

lemma run_task_ok [wf_preserve]: "redo_ok s \<Longrightarrow> redo_ok (run_task send rid t s)"
  by (simp add: run_task_def set_active_ok split: sum.splits)

lemma redo_map_set_active:
  "redo_map (set_active i b s) k = map_option (\<lambda>t. if rt_id t = i then t\<lparr>rt_active := b\<rparr> else t) (redo_map s k)"
  by (simp add: set_active_def)

lemma redo_map_run_task:
  "redo_map (run_task send rid u s) k =
    map_option (\<lambda>t. if rt_id t = rt_id u then t\<lparr>rt_active := \<not> is_ok (send (with_request_id rid (rt_request u)))\<rparr> else t)
      (redo_map s k)"
  by (cases "send (with_request_id rid (rt_request u))"; cases "redo_map s k")
    (simp_all add: run_task_def redo_map_set_active)

lemma fold_run_task:
  assumes "distinct (map rt_id ts)"
  shows "redo_map (fold (\<lambda>t s. run_task send (rids t) t s) ts s) k =
    map_option (\<lambda>t. case find (\<lambda>u. rt_id u = rt_id t) ts of
        None \<Rightarrow> t
      | Some u \<Rightarrow> t\<lparr>rt_active := \<not> is_ok (send (with_request_id (rids u) (rt_request u)))\<rparr>) (redo_map s k)"
  using assms
proof (induction ts arbitrary: s)
  case Nil
  then show ?case by (simp add: option.map_ident)
next
  case (Cons u ts)
  have notin: "find (\<lambda>v. rt_id v = rt_id t) ts = None" if "rt_id t = rt_id u" for t
    using Cons.prems that by (auto simp: find_None_iff image_iff)
  show ?case
    using Cons by (auto simp: redo_map_run_task option.map_comp notin intro!: option.map_cong0 split: option.splits)
qed

lemma active_tasks_in: "t \<in> set (active_tasks ks s) \<longleftrightarrow> (\<exists>k\<in>set ks. redo_map s k = Some t \<and> rt_active t)"
  by (induction ks) (auto simp: active_tasks_def map_filter_simps split: option.splits)

lemma active_tasks_distinct:
  assumes "redo_ok s" "distinct ks"
  shows "distinct (map rt_id (active_tasks ks s))"
  using assms(2)
proof (induction ks)
  case (Cons k ks)
  have "rt_id t \<noteq> rt_id u" if "redo_map s k = Some t" "u \<in> set (active_tasks ks s)" for t u
    using that redo_okD(3)[OF assms(1)] Cons.prems by (fastforce simp: active_tasks_in)
  then show ?case using Cons
    by (auto simp: active_tasks_def map_filter_simps split: option.splits)
qed (simp add: active_tasks_def map_filter_simps)

lemma redo_tick_map:
  assumes "redo_ok s" "distinct ks" "set ks = dom (redo_map s)"
  shows "redo_map (redo_tick send rids ks s) k =
    map_option (\<lambda>t. if rt_active t then t\<lparr>rt_active := \<not> is_ok (send (with_request_id (rids t) (rt_request t)))\<rparr> else t)
      (redo_map s k)"
proof (cases "redo_map s k")
  case None
  then show ?thesis by (simp add: redo_tick_def fold_run_task[OF active_tasks_distinct[OF assms(1,2)]])
next
  case (Some t)
  have same: "u = t" if "u \<in> set (active_tasks ks s)" "rt_id u = rt_id t" for u
    using that Some redo_okD(3)[OF assms(1)] by (auto simp: active_tasks_in) (metis option.inject)
  have "find (\<lambda>u. rt_id u = rt_id t) (active_tasks ks s) = (if rt_active t then Some t else None)"
  proof (cases "rt_active t")
    case True
    then have "t \<in> set (active_tasks ks s)" using Some assms(3) by (auto simp: active_tasks_in dom_def)
    then have "find (\<lambda>u. rt_id u = rt_id t) (active_tasks ks s) \<noteq> None" by (auto simp: find_None_iff)
    then obtain u where u: "find (\<lambda>u. rt_id u = rt_id t) (active_tasks ks s) = Some u" by blast
    then have "u \<in> set (active_tasks ks s)" "rt_id u = rt_id t" by (auto simp: find_Some_iff)
    with same u True show ?thesis by simp
  next
    case False
    then have "\<forall>u\<in>set (active_tasks ks s). rt_id u \<noteq> rt_id t"
      using same by (metis active_tasks_in)
    then show ?thesis using False by (auto simp: find_None_iff)
  qed
  then show ?thesis using Some
    by (simp add: redo_tick_def fold_run_task[OF active_tasks_distinct[OF assms(1,2)]])
qed

lemma active_tasks_all:
  assumes "redo_ok s" "set ks \<subseteq> dom (redo_map s)" "\<forall>k t. redo_map s k = Some t \<longrightarrow> rt_active t"
  shows "map task_key (active_tasks ks s) = ks"
  using assms(2)
proof (induction ks)
  case (Cons k ks)
  then obtain t where "redo_map s k = Some t" by auto
  then show ?case using Cons assms(3) redo_okD(1)[OF assms(1)]
    by (auto simp: active_tasks_def map_filter_simps)
qed (simp add: active_tasks_def map_filter_simps)

text \<open>
  C4: recovery after a reconnect: the first tick sends every remembered registration and subscription
  again, each exactly once; afterwards exactly the ones whose request got no answer are still active,
  so the next tick tries those and only those again, and none is forgotten.
\<close>

theorem redo_after_reconnect:
  assumes "redo_ok s" "distinct ks" "set ks = dom (redo_map s)"
  shows "map task_key (active_tasks ks (on_grpc_client_reconnect s)) = ks \<and>
    (\<forall>k. redo_map (redo_tick send rids ks (on_grpc_client_reconnect s)) k =
      map_option (\<lambda>t. t\<lparr>rt_active := \<not> is_ok (send (with_request_id (rids (t\<lparr>rt_active := True\<rparr>)) (rt_request t)))\<rparr>) (redo_map s k))"
proof -
  let ?s = "on_grpc_client_reconnect s"
  have ok: "redo_ok ?s" using reconnect_ok(1)[OF assms(1)] .
  have dom: "dom (redo_map ?s) = dom (redo_map s)" by (auto simp: on_grpc_client_reconnect_def)
  have act: "\<forall>k t. redo_map ?s k = Some t \<longrightarrow> rt_active t" by (auto simp: on_grpc_client_reconnect_def)
  have "redo_map (redo_tick send rids ks ?s) k =
      map_option (\<lambda>t. t\<lparr>rt_active := \<not> is_ok (send (with_request_id (rids (t\<lparr>rt_active := True\<rparr>)) (rt_request t)))\<rparr>) (redo_map s k)" for k
    using redo_tick_map[OF ok assms(2), of send rids k] dom assms(3)
    by (simp add: on_grpc_client_reconnect_def option.map_comp comp_def)
  then show ?thesis using active_tasks_all[OF ok _ act, of ks] dom assms(3) by simp
qed

definition demo_register :: "string \<Rightarrow> automatic_request" where
  "demo_register addr = AutoInstance (InstanceRequest_register ''1'' (ServiceInstance_default\<lparr>ip := addr\<rparr>)
     (Some ''svc'') (Some ''ns'') (Some ''G''))"

lemma redo_after_reconnect_witness:
  "map task_key (active_tasks [auto_name (demo_register ''a'')]
      (on_grpc_client_reconnect (snd (register_begin (demo_register ''a'') redo_new)))) = [auto_name (demo_register ''a'')]"
proof -
  let ?s = "snd (register_begin (demo_register ''a'') redo_new)"
  have "redo_ok ?s" by (rule register_begin_ok[OF redo_new_ok])
  moreover have "set [auto_name (demo_register ''a'')] = dom (redo_map ?s)"
    by (auto simp: register_begin_def add_task_def task_key_def redo_new_def split: if_splits)
  ultimately show ?thesis
    using redo_after_reconnect[of ?s "[auto_name (demo_register ''a'')]" "\<lambda>_. Inr ()" "\<lambda>_. ''3''", THEN conjunct1]
    by simp
qed

text \<open>
  C5: the life of a registration: once registered it is remembered and at rest, after a failed
  register it is remembered and active (the next tick retries it), after a successful deregister it
  is forgotten, and a failed deregister changes nothing.
\<close>

theorem registration_lifecycle:
  assumes "redo_ok s"
    and "(res, s') = execute_by_register_with_redo send req operation s"
    and "(res', s'') = execute_by_deregister_with_redo send req operation s"
  shows "redo_ok s' \<and> redo_ok s'' \<and>
    (\<exists>t. redo_map s' = (redo_map s)(auto_name req \<mapsto> t) \<and> rt_request t = req \<and> rt_active t = (\<not> is_ok res)) \<and>
    redo_map s'' = (if is_ok res' then (redo_map s)(auto_name req := None) else redo_map s)"
proof -
  let ?s1 = "snd (register_begin req s)" and ?i = "redo_next s"
  let ?t = "\<lparr>rt_id = ?i, rt_request = req, rt_active = True\<rparr>"
  have map1: "redo_map ?s1 = (redo_map s)(auto_name req \<mapsto> ?t)"
    by (simp add: register_begin_def add_task_def task_key_def)
  have ok1: "redo_ok ?s1" by (rule register_begin_ok[OF assms(1)])
  have other: "map_option (\<lambda>t. if rt_id t = ?i then t\<lparr>rt_active := False\<rparr> else t) (redo_map s k) = redo_map s k" for k
    by (cases "redo_map s k") (auto dest: redo_okD(2)[OF assms(1)])
  have m2: "redo_map (set_active ?i False ?s1) = (redo_map s)(auto_name req \<mapsto> ?t\<lparr>rt_active := False\<rparr>)"
    using other by (auto simp: redo_map_set_active map1 fun_eq_iff)
  have "redo_ok s' \<and> (\<exists>t. redo_map s' = (redo_map s)(auto_name req \<mapsto> t) \<and> rt_request t = req \<and> rt_active t = (\<not> is_ok res))"
  proof (cases "and_then (send req) (\<lambda>resp. handle_response resp operation)")
    case (Inl e)
    then have "res = Inl e" "s' = ?s1"
      using assms(2) by (auto simp: execute_by_register_with_redo_def register_finish_def register_begin_def)
    then show ?thesis using ok1 map1 by (intro conjI exI[of _ ?t]) simp_all
  next
    case (Inr u)
    then have "res = Inr ()" "s' = set_active ?i False ?s1"
      using assms(2) by (auto simp: execute_by_register_with_redo_def register_finish_def register_begin_def)
    then show ?thesis using set_active_ok[OF ok1] m2 by (intro conjI exI[of _ "?t\<lparr>rt_active := False\<rparr>"]) simp_all
  qed
  moreover have "redo_ok s'' \<and> redo_map s'' = (if is_ok res' then (redo_map s)(auto_name req := None) else redo_map s)"
    using assms(1,3) remove_task_ok
    by (auto simp: execute_by_deregister_with_redo_def remove_task_def split: sum.splits)
  ultimately show ?thesis by blast
qed

lemma registration_lifecycle_witness:
  "redo_map (snd (execute_by_register_with_redo (\<lambda>_. Ok response_ok) (demo_register ''a'') ''register'' redo_new))
      (auto_name (demo_register ''a'')) \<noteq> None"
  using registration_lifecycle[OF redo_new_ok prod.collapse prod.collapse,
      of "\<lambda>_. Ok response_ok" "demo_register ''a''" "''register''"] by auto

text \<open>
  a task's retry only asks whether an answer came. A register call answered with a failure code
  stays active and is retried, but the same answer to the retry after a reconnect sets every task to
  rest, although the server has none of the registrations.
\<close>

lemma redo_takes_failure_for_success:
  assumes "redo_ok s" "distinct ks" "set ks = dom (redo_map s)" "\<not> is_success resp"
    "redo_map (redo_tick (\<lambda>_. Ok resp) rids ks (on_grpc_client_reconnect s)) k = Some t"
  shows "\<not> rt_active t \<and>
    (\<exists>e s' t'. execute_by_register_with_redo (\<lambda>_. Ok resp) (rt_request t) operation s = (Err e, s') \<and>
      redo_map s' k = Some t' \<and> rt_active t')"
proof -
  have ok: "redo_ok (on_grpc_client_reconnect s)" using reconnect_ok(1)[OF assms(1)] .
  have dom: "set ks = dom (redo_map (on_grpc_client_reconnect s))"
    using assms(3) by (auto simp: on_grpc_client_reconnect_def)
  from redo_tick_map[OF ok assms(2) dom, of "\<lambda>_. Ok resp" rids k] assms(5)
  obtain u where u: "redo_map s k = Some u" and t: "t = u\<lparr>rt_active := False\<rparr>"
    by (auto simp: on_grpc_client_reconnect_def)
  have "auto_name (rt_request u) = k" using redo_okD(1)[OF assms(1) u] by (simp add: task_key_def)
  then show ?thesis using t assms(4)
    by (simp add: execute_by_register_with_redo_def register_begin_def register_finish_def add_task_def
        task_key_def handle_response_def)
qed

lemma redo_takes_failure_for_success_witness:
  "\<not> rt_active (the (redo_map (redo_tick (\<lambda>_. Ok response_fail) (\<lambda>_. ''3'') [auto_name (demo_register ''a'')]
      (on_grpc_client_reconnect (snd (register_begin (demo_register ''a'') redo_new)))) (auto_name (demo_register ''a''))))"
proof -
  let ?s = "snd (register_begin (demo_register ''a'') redo_new)" and ?k = "auto_name (demo_register ''a'')"
  have ok: "redo_ok ?s" by (rule register_begin_ok[OF redo_new_ok])
  have dom: "set [?k] = dom (redo_map ?s)"
    by (auto simp: register_begin_def add_task_def task_key_def redo_new_def split: if_splits)
  have dom': "set [?k] = dom (redo_map (on_grpc_client_reconnect ?s))"
    using dom by (simp add: on_grpc_client_reconnect_def dom_map_option_comp dom_def)
  have "redo_map (redo_tick (\<lambda>_. Ok response_fail) (\<lambda>_. ''3'') [?k] (on_grpc_client_reconnect ?s)) ?k \<noteq> None"
    using redo_tick_map[OF reconnect_ok(1)[OF ok] _ dom', of "\<lambda>_. Ok response_fail" "\<lambda>_. ''3''" ?k] dom'
    by auto
  then obtain t where t: "redo_map (redo_tick (\<lambda>_. Ok response_fail) (\<lambda>_. ''3'') [?k] (on_grpc_client_reconnect ?s)) ?k = Some t"
    by blast
  show ?thesis using redo_takes_failure_for_success[OF ok _ dom _ t] t by simp
qed

end
