(* ===== verification/Recovery.thy ===== *)
theory Recovery
  imports Connection Redo
begin

text \<open>
  The recovery of registrations, where the connection and the redo executor meet: the listeners that
  src/naming/mod.rs hands to the connection, the watch channel they look at, the tasks they spawn,
  and registrations, deregistrations and ticks of the executor running in between.
\<close>

section \<open>Watching the connection\<close>

text \<open>
  A listener remembers how many values of the channel it has seen (the version it looked at last) and
  the value it saw last; a look sees the latest value only.
\<close>

record watcher =
  w_seen :: nat
  w_prev :: "string option"

definition watcher_new :: watcher where
  "watcher_new = \<lparr>w_seen = 0, w_prev = None\<rparr>"

definition look :: "string option list \<Rightarrow> watcher \<Rightarrow> watcher" where
  "look ws w = (if w_seen w < length ws then \<lparr>w_seen = length ws, w_prev = last ws\<rparr> else w)"

definition connected_look :: "string option list \<Rightarrow> watcher \<Rightarrow> string option" where
  "connected_look ws w =
    (if w_seen w < length ws
     then (case (w_prev w, last ws) of (None, Some cid) \<Rightarrow> Some cid | _ \<Rightarrow> None) else None)"

definition disconnected_look :: "string option list \<Rightarrow> watcher \<Rightarrow> string option" where
  "disconnected_look ws w =
    (if w_seen w < length ws
     then (case (w_prev w, last ws) of (Some cid, None) \<Rightarrow> Some cid | _ \<Rightarrow> None) else None)"

text \<open>What the two closures spawn, and what the spawned task does when it runs.\<close>

datatype handler = Reconnected | Disconnected

fun run_handler :: "handler \<Rightarrow> redo \<Rightarrow> redo" where
  "run_handler Reconnected r = on_grpc_client_reconnect r"
| "run_handler Disconnected r = on_grpc_client_disconnect r"

definition spawn_if :: "string option \<Rightarrow> handler \<Rightarrow> handler list \<Rightarrow> handler list" where
  "spawn_if event h hs = (case event of None \<Rightarrow> hs | Some cid \<Rightarrow> h # hs)"

section \<open>Runs\<close>

text \<open>
  \<open>rc_spawned\<close> holds the handler tasks not run yet, \<open>rc_queue\<close> the rest of the tick under way,
  \<open>rc_inflight\<close> the registrations waiting for their answer. \<open>rc_answered\<close> is for the proofs: the tasks
  whose request the server has answered over the present connection.
\<close>

record recovery =
  rc_conn :: conn
  rc_redo :: redo
  rc_up :: watcher
  rc_down :: watcher
  rc_spawned :: "handler list"
  rc_queue :: "redo_task list"
  rc_inflight :: "(nat \<times> automatic_request) list"
  rc_answered :: "nat set"

definition recovery_new :: "nat \<Rightarrow> nat option \<Rightarrow> recovery" where
  "recovery_new now max_retries =
    \<lparr>rc_conn = conn_new now max_retries, rc_redo = redo_new, rc_up = watcher_new, rc_down = watcher_new,
     rc_spawned = [], rc_queue = [], rc_inflight = [], rc_answered = {}\<rparr>"

definition caught_up :: "recovery \<Rightarrow> bool" where
  "caught_up s = (w_seen (rc_up s) = length (cn_watch (rc_conn s)) \<and>
     w_seen (rc_down s) = length (cn_watch (rc_conn s)) \<and> rc_spawned s = [])"

text \<open>A request is answered only over a connection.\<close>

definition answerable :: "recovery \<Rightarrow> 'a result \<Rightarrow> bool" where
  "answerable s answer = (is_ok answer \<longrightarrow> cn_state (rc_conn s) = Connected)"

text \<open>
  The steps. The tick holds the lock of the map while it sends, so tasks come and go only when no
  tick is under way; the handlers and the answers only set flags, and an answer and the flag it sets
  are one step. With \<open>prompt\<close>, the connection
  announces its next change only when the listeners have looked and the tasks they spawned have run.
\<close>

inductive rec_step :: "bool \<Rightarrow> recovery \<Rightarrow> recovery \<Rightarrow> bool" for prompt where
  connection: "conn_step (rc_conn s) c' \<Longrightarrow> prompt \<longrightarrow> cn_watch c' = cn_watch (rc_conn s) \<or> caught_up s \<Longrightarrow>
    rec_step prompt s (s\<lparr>rc_conn := c',
      rc_answered := (if cn_state (rc_conn s) = Connected \<and> cn_state c' = Connected then rc_answered s else {})\<rparr>)"
| look_up: "rec_step prompt s (s\<lparr>rc_up := look (cn_watch (rc_conn s)) (rc_up s),
    rc_spawned := spawn_if (connected_look (cn_watch (rc_conn s)) (rc_up s)) Reconnected (rc_spawned s)\<rparr>)"
| look_down: "rec_step prompt s (s\<lparr>rc_down := look (cn_watch (rc_conn s)) (rc_down s),
    rc_spawned := spawn_if (disconnected_look (cn_watch (rc_conn s)) (rc_down s)) Disconnected (rc_spawned s)\<rparr>)"
| handler: "h \<in> set (rc_spawned s) \<Longrightarrow>
    rec_step prompt s (s\<lparr>rc_redo := run_handler h (rc_redo s), rc_spawned := remove1 h (rc_spawned s)\<rparr>)"
| register: "rc_queue s = [] \<Longrightarrow> register_begin req (rc_redo s) = (i, r') \<Longrightarrow>
    rec_step prompt s (s\<lparr>rc_redo := r', rc_inflight := (i, req) # rc_inflight s\<rparr>)"
| registered: "(i, req) \<in> set (rc_inflight s) \<Longrightarrow> answerable s (answer :: grpc_response result) \<Longrightarrow>
    register_finish answer operation i (rc_redo s) = (res, r') \<Longrightarrow>
    rec_step prompt s (s\<lparr>rc_redo := r', rc_inflight := remove1 (i, req) (rc_inflight s),
      rc_answered := (if is_ok answer then insert i (rc_answered s) else rc_answered s)\<rparr>)"
| deregister: "rc_queue s = [] \<Longrightarrow> answerable s (send req :: grpc_response result) \<Longrightarrow>
    execute_by_deregister_with_redo send req operation (rc_redo s) = (res, r') \<Longrightarrow>
    rec_step prompt s (s\<lparr>rc_redo := r'\<rparr>)"
| tick: "rc_queue s = [] \<Longrightarrow> rec_step prompt s (s\<lparr>rc_queue := active_tasks ks (rc_redo s)\<rparr>)"
| resend: "rc_queue s = t # q \<Longrightarrow> answerable s (send (with_request_id rid (rt_request t)) :: grpc_response result) \<Longrightarrow>
    rec_step prompt s (s\<lparr>rc_redo := run_task send rid t (rc_redo s), rc_queue := q,
      rc_answered := (if is_ok (send (with_request_id rid (rt_request t))) then insert (rt_id t) (rc_answered s)
        else rc_answered s)\<rparr>)"

inductive rec_reach :: "bool \<Rightarrow> nat option \<Rightarrow> recovery \<Rightarrow> bool" for prompt max_retries where
  init: "rec_reach prompt max_retries (recovery_new now max_retries)"
| step: "rec_reach prompt max_retries s \<Longrightarrow> rec_step prompt s s' \<Longrightarrow> rec_reach prompt max_retries s'"

inductive_cases rec_stepE: "rec_step prompt s s'"

section \<open>Invariants\<close>

lemma conn_step_watch:
  assumes "conn_step c c'"
  shows "cn_watch c' = cn_watch c \<and> (cn_state c' = Connected \<longrightarrow> cn_state c = Connected) \<or>
    (\<exists>v. cn_watch c' = cn_watch c @ [v] \<and> (cn_state c' = Connected \<longrightarrow> v \<noteq> None))"
  using assms
proof (cases rule: conn_step.cases)
  case (iter e out)
  then show ?thesis
    by (cases "cn_state c")
      (auto simp: poll_iter_def start_retry_def split: if_splits option.splits sum.splits)
next
  case (call service now req res)
  then show ?thesis by (auto simp: conn_call_def split: conn_state.splits sum.splits)
qed (auto simp: stream_closed_def failover_def health_check_def)

definition watcher_ok :: "string option list \<Rightarrow> watcher \<Rightarrow> bool" where
  "watcher_ok ws w = (w_seen w \<le> length ws \<and> w_prev w = (if w_seen w = 0 then None else ws ! (w_seen w - 1)))"

lemma watcher_ok_look [wf_preserve]: "watcher_ok ws w \<Longrightarrow> watcher_ok ws (look ws w)"
  by (cases ws rule: rev_cases) (auto simp: watcher_ok_def look_def)

lemma watcher_ok_snoc: "watcher_ok ws w \<Longrightarrow> watcher_ok (ws @ [v]) w"
  by (auto simp: watcher_ok_def nth_append)

lemma look_seen: "watcher_ok ws w \<Longrightarrow> w_seen (look ws w) = length ws"
  by (auto simp: watcher_ok_def look_def)

text \<open>What holds however the steps interleave.\<close>

definition rec_ok :: "recovery \<Rightarrow> bool" where
  "rec_ok s = (conn_ok (rc_conn s) \<and> redo_ok (rc_redo s) \<and>
     watcher_ok (cn_watch (rc_conn s)) (rc_up s) \<and> watcher_ok (cn_watch (rc_conn s)) (rc_down s))"

lemma register_finish_cases:
  assumes "register_finish answer operation i r = (res, r')"
  shows "r' = r \<or> is_ok answer \<and> r' = set_active i False r"
  using assms by (cases answer) (auto simp: register_finish_def split: sum.splits)

lemma execute_by_deregister_cases:
  assumes "execute_by_deregister_with_redo send req operation r = (res, r')"
  shows "r' = r \<or> r' = remove_task (auto_name req) r"
  using assms by (auto simp: execute_by_deregister_with_redo_def split: sum.splits)

lemma run_task_cases:
  "run_task send rid t r = set_active (rt_id t) (\<not> is_ok (send (with_request_id rid (rt_request t)))) r"
  by (simp add: run_task_def split: sum.splits)

lemma run_handler_ok [wf_preserve]: "redo_ok r \<Longrightarrow> redo_ok (run_handler h r)"
  by (cases h) (simp_all add: reconnect_ok)

lemma rec_step_ok [wf_preserve]:
  assumes "rec_step prompt s s'" "rec_ok s"
  shows "rec_ok s'"
  using assms(1)
proof (cases rule: rec_step.cases)
  case (connection c')
  from conn_step_watch[OF connection(2)] show ?thesis
    using assms(2) connection conn_step_ok[OF connection(2)] by (auto simp: rec_ok_def watcher_ok_snoc)
next
  case (register req i r')
  then show ?thesis using assms(2) register_begin_ok[of "rc_redo s" req] by (simp add: rec_ok_def)
next
  case (registered i req answer operation res r')
  then show ?thesis using assms(2) register_finish_cases[OF registered(4)]
    by (auto simp: rec_ok_def set_active_ok)
next
  case (deregister send req operation res r')
  then show ?thesis using assms(2) execute_by_deregister_cases[OF deregister(4)]
    by (auto simp: rec_ok_def remove_task_ok)
next
  case (resend t q send rid)
  then show ?thesis using assms(2) by (simp add: rec_ok_def run_task_ok)
qed (use assms(2) in \<open>simp_all add: rec_ok_def wf_preserve\<close>)

lemma rec_reach_ok: "rec_reach prompt n s \<Longrightarrow> rec_ok s"
proof (induction rule: rec_reach.induct)
  case (init now)
  then show ?case
    by (simp add: rec_ok_def recovery_new_def watcher_ok_def watcher_new_def redo_new_ok conn_ok_def conn_new_def)
qed (rule rec_step_ok)

text \<open>With prompt listeners: nobody is more than one value behind, and a spawned task matches the last value.\<close>

definition delivered :: "recovery \<Rightarrow> bool" where
  "delivered s = (w_seen (rc_up s) = length (cn_watch (rc_conn s)) \<and> Reconnected \<notin> set (rc_spawned s))"

definition remembered_ok :: "recovery \<Rightarrow> bool" where
  "remembered_ok s = (\<forall>k t. redo_map (rc_redo s) k = Some t \<longrightarrow> rt_active t \<or> rt_id t \<in> rc_answered s)"

definition prompt_ok :: "recovery \<Rightarrow> bool" where
  "prompt_ok s =
    (length (cn_watch (rc_conn s)) \<le> w_seen (rc_up s) + 1 \<and> length (cn_watch (rc_conn s)) \<le> w_seen (rc_down s) + 1 \<and>
     (Reconnected \<in> set (rc_spawned s) \<longrightarrow> cn_watch (rc_conn s) \<noteq> [] \<and> last (cn_watch (rc_conn s)) \<noteq> None) \<and>
     (Disconnected \<in> set (rc_spawned s) \<longrightarrow> cn_watch (rc_conn s) \<noteq> [] \<and> last (cn_watch (rc_conn s)) = None) \<and>
     (cn_state (rc_conn s) = Connected \<longrightarrow> delivered s \<longrightarrow> remembered_ok s))"

lemma ids_separated_before:
  assumes "ids_separated ws" "ws \<noteq> []" "last ws = Some a" "w_seen w = length ws - 1" "watcher_ok ws w"
  shows "w_prev w = None"
proof (cases "w_seen w")
  case (Suc n)
  from assms(2) obtain us u where us: "ws = us @ [u]" by (metis rev_exhaust)
  then have "us \<noteq> []" "last us = None" using assms(1,3,4) Suc by (auto simp: ids_separated_snoc)
  then show ?thesis using assms(4,5) us by (auto simp: watcher_ok_def nth_append last_conv_nth)
qed (use assms(5) in \<open>simp add: watcher_ok_def\<close>)

lemma active_after_reconnect: "remembered_ok (s\<lparr>rc_redo := on_grpc_client_reconnect r, rc_spawned := hs\<rparr>)"
  by (auto simp: remembered_ok_def on_grpc_client_reconnect_def)

lemma connected_last:
  "rec_ok s \<Longrightarrow> cn_state (rc_conn s) = Connected \<Longrightarrow>
    cn_watch (rc_conn s) \<noteq> [] \<and> last (cn_watch (rc_conn s)) \<noteq> None"
  by (auto simp: rec_ok_def conn_ok_def)

lemma in_remove1: "x \<in> set (remove1 h hs) \<Longrightarrow> x \<in> set hs" "x \<in> set hs \<Longrightarrow> x \<noteq> h \<Longrightarrow> x \<in> set (remove1 h hs)"
  using set_remove1_subset[of h hs] by (auto simp: in_set_remove1)

lemma prompt_connection:
  assumes "conn_step (rc_conn s) c'" "cn_watch c' = cn_watch (rc_conn s) \<or> caught_up s" "rec_ok s" "prompt_ok s"
    "s' = s\<lparr>rc_conn := c', rc_answered := (if cn_state (rc_conn s) = Connected \<and> cn_state c' = Connected then rc_answered s else {})\<rparr>"
  shows "prompt_ok s'"
  using conn_step_watch[OF assms(1)]
proof
  assume "cn_watch c' = cn_watch (rc_conn s) \<and> (cn_state c' = Connected \<longrightarrow> cn_state (rc_conn s) = Connected)"
  then show ?thesis using assms(4,5) by (auto simp: prompt_ok_def delivered_def remembered_ok_def)
next
  assume "\<exists>v. cn_watch c' = cn_watch (rc_conn s) @ [v] \<and> (cn_state c' = Connected \<longrightarrow> v \<noteq> None)"
  then show ?thesis using assms(2,4,5)
    by (auto simp: prompt_ok_def delivered_def remembered_ok_def caught_up_def)
qed

lemma prompt_look_up:
  assumes "rec_ok s" "prompt_ok s"
    "s' = s\<lparr>rc_up := look (cn_watch (rc_conn s)) (rc_up s),
      rc_spawned := spawn_if (connected_look (cn_watch (rc_conn s)) (rc_up s)) Reconnected (rc_spawned s)\<rparr>"
  shows "prompt_ok s'"
proof (cases "w_seen (rc_up s) < length (cn_watch (rc_conn s))")
  case False
  then have "s' = s" using assms(3) by (simp add: look_def connected_look_def spawn_if_def)
  then show ?thesis using assms(2) by simp
next
  case True
  then have seen: "w_seen (rc_up s) = length (cn_watch (rc_conn s)) - 1" "cn_watch (rc_conn s) \<noteq> []"
    using assms(2) by (auto simp: prompt_ok_def)
  have ids: "ids_separated (cn_watch (rc_conn s))" "watcher_ok (cn_watch (rc_conn s)) (rc_up s)"
    using assms(1) by (auto simp: rec_ok_def conn_ok_def)
  have "Reconnected \<in> set (rc_spawned s')" if con: "cn_state (rc_conn s) = Connected"
  proof -
    obtain a where a: "last (cn_watch (rc_conn s)) = Some a" using connected_last[OF assms(1) con] by auto
    then have "w_prev (rc_up s) = None" using ids_separated_before[OF ids(1) seen(2) a seen(1) ids(2)] by simp
    then show ?thesis using True a assms(3) by (simp add: connected_look_def spawn_if_def)
  qed
  then show ?thesis using assms(2,3) True seen
    by (auto simp: prompt_ok_def delivered_def look_def connected_look_def spawn_if_def split: option.splits)
qed

lemma prompt_look_down:
  assumes "prompt_ok s"
    "s' = s\<lparr>rc_down := look (cn_watch (rc_conn s)) (rc_down s),
      rc_spawned := spawn_if (disconnected_look (cn_watch (rc_conn s)) (rc_down s)) Disconnected (rc_spawned s)\<rparr>"
  shows "prompt_ok s'"
  using assms
  by (cases "cn_watch (rc_conn s) = []")
    (auto simp: prompt_ok_def delivered_def remembered_ok_def look_def disconnected_look_def spawn_if_def split: option.splits)

lemma prompt_handler:
  assumes "rec_ok s" "prompt_ok s" "h \<in> set (rc_spawned s)"
    "s' = s\<lparr>rc_redo := run_handler h (rc_redo s), rc_spawned := remove1 h (rc_spawned s)\<rparr>"
  shows "prompt_ok s'"
proof (cases h)
  case Reconnected
  then show ?thesis using assms active_after_reconnect by (auto simp: prompt_ok_def delivered_def dest: in_remove1(1))
next
  case Disconnected
  then have "cn_state (rc_conn s) \<noteq> Connected"
    using assms(2,3) connected_last[OF assms(1)] by (auto simp: prompt_ok_def)
  then show ?thesis using assms Disconnected by (auto simp: prompt_ok_def dest: in_remove1(1))
qed

text \<open>Steps of the executor and of the callers: only answered tasks are set to rest.\<close>

lemma prompt_redo:
  assumes "prompt_ok s" "remembered_ok s \<longrightarrow> remembered_ok s'" "rc_conn s' = rc_conn s" "rc_up s' = rc_up s"
    "rc_down s' = rc_down s" "rc_spawned s' = rc_spawned s"
  shows "prompt_ok s'"
  using assms by (auto simp: prompt_ok_def delivered_def)

lemma remembered_begin:
  "remembered_ok s \<Longrightarrow> register_begin req (rc_redo s) = (i, r') \<Longrightarrow>
    remembered_ok (s\<lparr>rc_redo := r', rc_inflight := ws\<rparr>)"
  by (fastforce simp: remembered_ok_def register_begin_def add_task_def split: if_splits)

lemma prompt_step [wf_preserve]:
  assumes "rec_step True s s'" "rec_ok s" "prompt_ok s"
  shows "prompt_ok s'"
  using assms(1)
proof (cases rule: rec_step.cases)
  case (connection c')
  then show ?thesis using prompt_connection assms(2,3) by simp
next
  case look_up
  then show ?thesis using prompt_look_up assms(2,3) by simp
next
  case look_down
  then show ?thesis using prompt_look_down assms(3) by simp
next
  case (handler h)
  then show ?thesis using prompt_handler assms(2,3) by simp
next
  case (register req i r')
  show ?thesis
    by (rule prompt_redo[OF assms(3)]) (use register in \<open>simp_all add: remembered_begin\<close>)
next
  case (registered i req answer operation res r')
  have "remembered_ok s'" if "remembered_ok s"
    using register_finish_cases[OF registered(4)]
  proof
    assume "r' = rc_redo s"
    then show ?thesis using that registered by (auto simp: remembered_ok_def)
  next
    assume "is_ok answer \<and> r' = set_active i False (rc_redo s)"
    then show ?thesis using that registered by (fastforce simp: remembered_ok_def redo_map_set_active split: if_splits)
  qed
  then show ?thesis by (intro prompt_redo[OF assms(3)]) (use registered in simp_all)
next
  case (deregister send req operation res r')
  have "remembered_ok s'" if "remembered_ok s"
    using execute_by_deregister_cases[OF deregister(4)] that deregister
    by (fastforce simp: remembered_ok_def remove_task_def split: if_splits)
  then show ?thesis by (intro prompt_redo[OF assms(3)]) (use deregister in simp_all)
next
  case (tick ks)
  show ?thesis by (rule prompt_redo[OF assms(3)]) (use tick in \<open>simp_all add: remembered_ok_def\<close>)
next
  case (resend t q send rid)
  have "remembered_ok s'" if "remembered_ok s"
    using that resend by (fastforce simp: remembered_ok_def run_task_cases redo_map_set_active split: if_splits)
  then show ?thesis by (intro prompt_redo[OF assms(3)]) (use resend in simp_all)
qed

lemma prompt_reach: "rec_reach True n s \<Longrightarrow> prompt_ok s"
proof (induction rule: rec_reach.induct)
  case (init now)
  then show ?case by (simp add: prompt_ok_def recovery_new_def conn_new_def)
next
  case (step s s')
  then show ?case using prompt_step rec_reach_ok by blast
qed

section \<open>Recovery\<close>


text \<open>One iteration of the connection in a run.\<close>

lemma reach_iter:
  assumes "rec_reach p n s" "poll_iter e (rc_conn s) = (out, c')" "p \<longrightarrow> cn_watch c' = cn_watch (rc_conn s) \<or> caught_up s"
    "cn_state (rc_conn s) \<noteq> Connected \<or> cn_state c' \<noteq> Connected"
  shows "rec_reach p n (s\<lparr>rc_conn := c', rc_answered := {}\<rparr>)"
  using rec_reach.step[OF assms(1) rec_step.connection[OF conn_step.iter[OF assms(2)] assms(3)]] assms(4) by auto

lemma reach_looks:
  assumes "rec_reach p n s"
  shows "rec_reach p n (s\<lparr>rc_up := look (cn_watch (rc_conn s)) (rc_up s), rc_down := look (cn_watch (rc_conn s)) (rc_down s),
    rc_spawned := spawn_if (disconnected_look (cn_watch (rc_conn s)) (rc_down s)) Disconnected
      (spawn_if (connected_look (cn_watch (rc_conn s)) (rc_up s)) Reconnected (rc_spawned s))\<rparr>)"
  using rec_reach.step[OF rec_reach.step[OF assms rec_step.look_up] rec_step.look_down] by simp

text \<open>Connecting from the idle state, with both listeners looking at each of the two values.\<close>

definition connected :: "string \<Rightarrow> conn \<Rightarrow> conn" where
  "connected cid c = c\<lparr>cn_watch := cn_watch c @ [None, Some cid], cn_retry_count := 0, cn_health := True, cn_last_active := 0,
     cn_initialized := True, cn_state := Connected, cn_connection_id := Some cid, cn_streams := cid # cn_streams c\<rparr>"

definition good_env :: "string \<Rightarrow> poll_env" where
  "good_env cid = \<lparr>pe_make = Some (Inr ()), pe_init = Some (Inr cid), pe_service = Some (Inl (ErrResult [])), pe_slept = True, pe_now = 0\<rparr>"

lemma reach_connect:
  assumes "rec_reach p n s" "cn_state (rc_conn s) = Idle" "\<not> given_up (rc_conn s)" "caught_up s"
    "p \<longrightarrow> w_prev (rc_down s) = None"
  shows "rec_reach p n (s\<lparr>rc_conn := connected cid (rc_conn s),
    rc_up := \<lparr>w_seen = length (cn_watch (rc_conn s)) + 2, w_prev = Some cid\<rparr>,
    rc_down := \<lparr>w_seen = length (cn_watch (rc_conn s)) + 2, w_prev = Some cid\<rparr>,
    rc_spawned := Reconnected # (if w_prev (rc_down s) = None then [] else [Disconnected]),
    rc_answered := {}\<rparr>)"
proof -
  let ?c = "rc_conn s" and ?e = "good_env cid"
  let ?c1 = "?c\<lparr>cn_watch := cn_watch ?c @ [None], cn_state := Connecting\<rparr>"
  have up: "w_seen (rc_up s) = length (cn_watch ?c)" "w_seen (rc_down s) = length (cn_watch ?c)" "rc_spawned s = []"
    using assms(4) by (simp_all add: caught_up_def)
  have 1: "rec_reach p n (s\<lparr>rc_conn := ?c1, rc_answered := {}\<rparr>)"
    by (rule reach_iter[OF assms(1), of ?e None]) (use assms(2-4) in \<open>simp_all add: poll_iter_def\<close>)
  let ?w = "\<lparr>w_seen = length (cn_watch ?c) + 1, w_prev = None\<rparr>"
  let ?h = "if w_prev (rc_down s) = None then [] else [Disconnected]"
  let ?s1 = "s\<lparr>rc_conn := ?c1, rc_up := ?w, rc_down := ?w, rc_spawned := ?h, rc_answered := {}\<rparr>"
  have 2: "rec_reach p n ?s1"
    using reach_looks[OF 1] up
    by (cases s) (simp add: look_def connected_look_def disconnected_look_def spawn_if_def split: option.splits)
  have ng: "\<not> given_up (?c1\<lparr>cn_state := st\<rparr>)" for st using assms(3) by (simp add: given_up_def)
  have 3: "rec_reach p n (?s1\<lparr>rc_conn := ?c1\<lparr>cn_state := Initializing\<rparr>, rc_answered := {}\<rparr>)"
    by (rule reach_iter[OF 2, of ?e None]) (use ng[of Connecting] in \<open>simp_all add: poll_iter_def good_env_def\<close>)
  have 4: "rec_reach p n (?s1\<lparr>rc_conn := connected cid ?c, rc_answered := {}\<rparr>)"
    using reach_iter[OF 3, of ?e None "connected cid ?c"] ng[of Initializing] assms(5)
    by (cases s) (simp add: poll_iter_def good_env_def connected_def caught_up_def)
  show ?thesis
    using reach_looks[OF 4]
    by (cases s) (simp add: look_def connected_look_def disconnected_look_def spawn_if_def connected_def)
qed

definition demo_recovery :: recovery where
  "demo_recovery =
    (let s = recovery_new 0 None; (i, r) = register_begin (demo_register ''a'') redo_new
     in s\<lparr>rc_conn := connected ''c1'' (rc_conn s), rc_up := \<lparr>w_seen = 2, w_prev = Some ''c1''\<rparr>,
        rc_down := \<lparr>w_seen = 2, w_prev = Some ''c1''\<rparr>, rc_redo := on_grpc_client_reconnect r,
        rc_inflight := [(i, demo_register ''a'')]\<rparr>)"

lemma demo_recovery_reach: "rec_reach True None demo_recovery"
proof -
  let ?s0 = "recovery_new 0 None"
  obtain i r where r: "register_begin (demo_register ''a'') redo_new = (i, r)" by fastforce
  let ?s1 = "?s0\<lparr>rc_redo := r, rc_inflight := [(i, demo_register ''a'')]\<rparr>"
  have 1: "rec_reach True None ?s1"
    using rec_reach.step[OF rec_reach.init[of True None 0] rec_step.register[of _ "demo_register ''a''" i r]] r
    by (simp add: recovery_new_def)
  have 2: "rec_reach True None (?s1\<lparr>rc_conn := connected ''c1'' (rc_conn ?s0), rc_up := \<lparr>w_seen = 2, w_prev = Some ''c1''\<rparr>,
      rc_down := \<lparr>w_seen = 2, w_prev = Some ''c1''\<rparr>, rc_spawned := [Reconnected], rc_answered := {}\<rparr>)"
    using reach_connect[OF 1, of "''c1''"]
    by (simp add: recovery_new_def conn_new_def given_up_def caught_up_def watcher_new_def numeral_2_eq_2)
  show ?thesis
    using rec_reach.step[OF 2 rec_step.handler[of Reconnected]]
    by (simp add: demo_recovery_def r recovery_new_def numeral_2_eq_2)
qed


text \<open>
  nothing in the code keeps the two handlers in order: from every connected state there is a run
  through a lost and a new connection in which the listeners see every change, but the task spawned
  for the disconnect runs after the one spawned for the reconnect. Then everything has been delivered,
  the client is connected, and not one of the remembered registrations is active or has been
  answered: no tick sends them again.
\<close>

lemma late_disconnect_forgets:
  assumes "rec_reach False n s" "cn_state (rc_conn s) = Connected" "caught_up s"
  shows "\<exists>s'. rec_reach False n s' \<and> cn_state (rc_conn s') = Connected \<and> caught_up s' \<and> rc_answered s' = {} \<and>
    dom (redo_map (rc_redo s')) = dom (redo_map (rc_redo s)) \<and> (\<forall>ks. active_tasks ks (rc_redo s') = [])"
proof -
  let ?c = "rc_conn s"
  from rec_reach_ok[OF assms(1)] have ok: "conn_ok ?c" "watcher_ok (cn_watch ?c) (rc_down s)" by (simp_all add: rec_ok_def)
  have ini: "cn_initialized ?c" "cn_watch ?c \<noteq> []" "last (cn_watch ?c) \<noteq> None"
    using ok assms(2) by (auto simp: conn_ok_def)
  have prev: "w_prev (rc_down s) \<noteq> None"
    using ok(2) ini assms(3) by (simp add: watcher_ok_def caught_up_def last_conv_nth)
  let ?c1 = "start_retry (?c\<lparr>cn_health := False\<rparr>)"
  have 1: "rec_reach False n (s\<lparr>rc_conn := ?c1, rc_answered := {}\<rparr>)"
    by (rule reach_iter[OF assms(1), of "good_env ''c2''" None])
      (use ini assms(2) in \<open>simp_all add: poll_iter_def good_env_def given_up_def start_retry_def\<close>)
  have 2: "rec_reach False n (s\<lparr>rc_conn := ?c1\<lparr>cn_state := Idle\<rparr>, rc_answered := {}\<rparr>)"
    using reach_iter[OF 1, of "good_env ''c2''" None "?c1\<lparr>cn_state := Idle\<rparr>"] ini
    by (simp add: poll_iter_def good_env_def given_up_def start_retry_def)
  let ?s3 = "s\<lparr>rc_conn := connected ''c2'' (?c1\<lparr>cn_state := Idle\<rparr>),
      rc_up := \<lparr>w_seen = length (cn_watch ?c) + 2, w_prev = Some ''c2''\<rparr>,
      rc_down := \<lparr>w_seen = length (cn_watch ?c) + 2, w_prev = Some ''c2''\<rparr>,
      rc_spawned := [Reconnected, Disconnected], rc_answered := {}\<rparr>"
  have 3: "rec_reach False n ?s3"
    using reach_connect[OF 2, of "''c2''"] ini prev assms(3)
    by (simp add: given_up_def start_retry_def caught_up_def)
  let ?s4 = "?s3\<lparr>rc_redo := on_grpc_client_reconnect (rc_redo s), rc_spawned := [Disconnected]\<rparr>"
  have 4: "rec_reach False n ?s4"
    using rec_reach.step[OF 3 rec_step.handler[of Reconnected]] by simp
  let ?s5 = "?s4\<lparr>rc_redo := on_grpc_client_disconnect (on_grpc_client_reconnect (rc_redo s)), rc_spawned := []\<rparr>"
  have 5: "rec_reach False n ?s5"
    using rec_reach.step[OF 4 rec_step.handler[of Disconnected]] by simp
  have "active_tasks ks (rc_redo ?s5) = []" for ks
    by (auto simp: active_tasks_def map_filter_Nil on_grpc_client_disconnect_def split: option.splits)
  moreover have "dom (redo_map (rc_redo ?s5)) = dom (redo_map (rc_redo s))"
    by (auto simp: on_grpc_client_disconnect_def on_grpc_client_reconnect_def)
  ultimately show ?thesis using 5
    by (intro exI[of _ ?s5]) (simp add: caught_up_def connected_def start_retry_def)
qed

lemma prompt_step_is_a_step:
  assumes "rec_step True s s'"
  shows "rec_step False s s'"
  using assms
proof (cases rule: rec_step.cases)
  case (connection c')
  show ?thesis unfolding connection(1) by (rule rec_step.connection[OF connection(2)]) simp
next
  case (registered i req answer operation res r')
  show ?thesis unfolding registered(1) by (rule rec_step.registered[OF registered(2-4)])
next
  case (resend t q send rid)
  show ?thesis unfolding resend(1) by (rule rec_step.resend[where send = send, OF resend(2,3)])
qed (auto intro: rec_step.intros)

lemma prompt_is_a_run: "rec_reach True n s \<Longrightarrow> rec_reach False n s"
proof (induction rule: rec_reach.induct)
  case (init now)
  show ?case by (rule rec_reach.init)
next
  case (step s s')
  then show ?case using prompt_step_is_a_step rec_reach.step by blast
qed

lemma late_disconnect_forgets_witness:
  "\<exists>s'. rec_reach False None s' \<and> cn_state (rc_conn s') = Connected \<and> caught_up s' \<and> rc_answered s' = {} \<and>
    dom (redo_map (rc_redo s')) = {auto_name (demo_register ''a'')} \<and>
    active_tasks [auto_name (demo_register ''a'')] (rc_redo s') = []"
proof -
  have con: "cn_state (rc_conn demo_recovery) = Connected" "caught_up demo_recovery"
    by (simp_all add: demo_recovery_def connected_def caught_up_def register_begin_def recovery_new_def conn_new_def)
  have dom: "dom (redo_map (rc_redo demo_recovery)) = {auto_name (demo_register ''a'')}"
    by (auto simp: demo_recovery_def register_begin_def add_task_def task_key_def redo_new_def on_grpc_client_reconnect_def
        dom_def split: if_splits)
  show ?thesis using late_disconnect_forgets[OF prompt_is_a_run[OF demo_recovery_reach] con] dom by auto
qed

text \<open>
  A listener that does not get to look between the loss and the new connection is told of neither:
  the channel keeps its latest value only.
\<close>

lemma unseen_loss_is_not_told:
  assumes "w_prev w = Some a" "w_seen w = length ws"
  shows "connected_look (ws @ [None, Some b]) w = None" "disconnected_look (ws @ [None, Some b]) w = None"
  using assms by (simp_all add: connected_look_def disconnected_look_def)

text \<open>Looking at every value is what \<^const>\<open>connected_events\<close> computes.\<close>

fun every_look :: "watcher \<Rightarrow> string option list \<Rightarrow> string option list \<Rightarrow> string list" where
  "every_look w ws [] = []"
| "every_look w ws (v # vs) =
    (case connected_look (ws @ [v]) w of None \<Rightarrow> [] | Some cid \<Rightarrow> [cid]) @ every_look (look (ws @ [v]) w) (ws @ [v]) vs"

lemma every_look_connected_events:
  "w_seen w = length ws \<Longrightarrow> every_look w ws vs = connected_events (w_prev w) vs"
  by (induction vs arbitrary: w ws) (auto simp: connected_look_def look_def split: option.splits)

end
