(* ===== verification/Auth.thy ===== *)
theory Auth
  imports Messages
begin

text \<open>
  The authentication plugins (src/api/plugin/auth): contexts, the login over HTTP with its refresh
  gate, and the signatures of the Aliyun RAM plugin. HMAC and base64 come from other crates and are
  arguments, as are the clock readings.
\<close>

section \<open>Contexts\<close>

definition add_param :: "string \<Rightarrow> string \<Rightarrow> headers \<Rightarrow> headers" where
  "add_param key val params = params(key \<mapsto> val)"

definition add_params :: "headers \<Rightarrow> headers \<Rightarrow> headers" where
  "add_params m params = params ++ m"

definition add_context :: "string \<Rightarrow> string \<Rightarrow> headers \<Rightarrow> headers" where
  "add_context key val ctxt = ctxt(key \<mapsto> val)"

definition add_contexts :: "headers \<Rightarrow> headers \<Rightarrow> headers" where
  "add_contexts m ctxt = ctxt ++ m"

definition noop_login_identity :: "RequestResource \<Rightarrow> headers" where
  "noop_login_identity r = Map.empty"

section \<open>Login over HTTP\<close>

definition USERNAME :: string where "USERNAME = ''username''"
definition PASSWORD :: string where "PASSWORD = ''password''"
definition ACCESS_TOKEN :: string where "ACCESS_TOKEN = ''accessToken''"

record HttpLoginResponse =
  access_token :: string
  token_ttl :: "64 word"

text \<open>Instants are milliseconds.\<close>

record http_plugin =
  login_identity :: headers
  next_login_refresh :: nat

definition http_plugin_new :: "nat \<Rightarrow> http_plugin" where
  "http_plugin_new now = \<lparr>login_identity = Map.empty, next_login_refresh = now\<rparr>"

definition login_url :: "bool \<Rightarrow> string \<Rightarrow> string" where
  "login_url tls server_addr = (if tls then ''https'' else ''http'') @ ''://'' @ server_addr @ ''/nacos/v1/auth/login''"

text \<open>
  What a post meets: no response, a response whose body breaks off, or a body, as serde decodes it (None
  when it does not). A body that breaks off is a panic: the outer option of \<open>login_response\<close>.
\<close>

datatype login_reply = LoginSendFailed | LoginTextFailed | LoginText "HttpLoginResponse option"

fun login_response :: "login_reply \<Rightarrow> HttpLoginResponse option option" where
  "login_response LoginSendFailed = Some None"
| "login_response LoginTextFailed = None"
| "login_response (LoginText decoded) = Some decoded"

text \<open>
  \<^verbatim>\<open>login\<close>: None when it panics (no user name or password among the parameters, no server, or a body
  that breaks off). \<open>i\<close> is the random index of a server, \<open>later\<close> the time of the answer.
\<close>

definition http_login ::
    "bool \<Rightarrow> (string \<Rightarrow> string \<Rightarrow> string \<Rightarrow> login_reply) \<Rightarrow> nat \<Rightarrow> nat \<Rightarrow> nat \<Rightarrow> string list \<Rightarrow> headers \<Rightarrow>
      http_plugin \<Rightarrow> http_plugin option" where
  "http_login tls post now later i server_list params p =
    (if now \<le> next_login_refresh p then Some p
     else
       (case params USERNAME of
          None \<Rightarrow> None
        | Some username \<Rightarrow>
            (case params PASSWORD of
               None \<Rightarrow> None
             | Some password \<Rightarrow>
                 if server_list = [] then None
                 else
                   (let server_addr = server_list ! (i mod length server_list)
                    in case login_response (post (login_url tls server_addr) username password) of
                         None \<Rightarrow> None
                       | Some None \<Rightarrow> Some p
                       | Some (Some r) \<Rightarrow>
                           Some \<lparr>login_identity = add_context ACCESS_TOKEN (access_token r) Map.empty,
                                 next_login_refresh = later + 1000 * (unat (token_ttl r) div 10)\<rparr>))))"

definition http_login_identity :: "http_plugin \<Rightarrow> RequestResource \<Rightarrow> headers" where
  "http_login_identity p r = login_identity p"

text \<open>One call of the periodic task.\<close>

record login_call =
  lc_now :: nat
  lc_later :: nat
  lc_index :: nat
  lc_servers :: "string list"
  lc_post :: "string \<Rightarrow> string \<Rightarrow> string \<Rightarrow> login_reply"

fun http_logins :: "bool \<Rightarrow> headers \<Rightarrow> login_call list \<Rightarrow> http_plugin \<Rightarrow> http_plugin option" where
  "http_logins tls params [] p = Some p"
| "http_logins tls params (c # cs) p =
    (case http_login tls (lc_post c) (lc_now c) (lc_later c) (lc_index c) (lc_servers c) params p of
       None \<Rightarrow> None
     | Some p' \<Rightarrow> http_logins tls params cs p')"

section \<open>Aliyun RAM signatures\<close>

definition ACCESS_KEY :: string where "ACCESS_KEY = ''accessKey''"
definition ACCESS_SECRET :: string where "ACCESS_SECRET = ''secretKey''"
definition SIGN_REGION_ID :: string where "SIGN_REGION_ID = ''signature_region_id''"
definition SIGNATURE_VERSION :: string where "SIGNATURE_VERSION = ''signatureVersion''"
definition ACCESS_KEY_HEADER :: string where "ACCESS_KEY_HEADER = ''Spas-AccessKey''"
definition V4 :: string where "V4 = ''v4''"
definition SIGNATURE_V4_PRODUCE :: string where "SIGNATURE_V4_PRODUCE = ''mse-nacos''"
definition V4_PREFIX :: string where "V4_PREFIX = ''aliyun_v4''"
definition V4_CONSTANT :: string where "V4_CONSTANT = ''aliyun_v4_request''"
definition SIGNATURE_FILED :: string where "SIGNATURE_FILED = ''signature''"
definition DATA_FILED :: string where "DATA_FILED = ''data''"
definition AK_FILED :: string where "AK_FILED = ''ak''"
definition TIMESTAMP_HEADER :: string where "TIMESTAMP_HEADER = ''Timestamp''"
definition SIGNATURE_HEADER :: string where "SIGNATURE_HEADER = ''Spas-Signature''"

datatype hmac_alg = HmacSha1 | HmacSha256

text \<open>HMAC of data under a key, and base64.\<close>

record crypto =
  hmac_sign :: "hmac_alg \<Rightarrow> bytes \<Rightarrow> bytes \<Rightarrow> bytes"
  base64 :: "bytes \<Rightarrow> string"

definition sign_with_alg :: "crypto \<Rightarrow> bytes \<Rightarrow> bytes \<Rightarrow> hmac_alg \<Rightarrow> bytes" where
  "sign_with_alg cr data key alg = hmac_sign cr alg key data"

definition sign_to_base64_with_alg :: "crypto \<Rightarrow> bytes \<Rightarrow> bytes \<Rightarrow> hmac_alg \<Rightarrow> string" where
  "sign_to_base64_with_alg cr data key alg = base64 cr (sign_with_alg cr data key alg)"

definition sign_with_hmac_sha1 :: "crypto \<Rightarrow> string \<Rightarrow> string \<Rightarrow> string" where
  "sign_with_hmac_sha1 cr data key = sign_to_base64_with_alg cr data key HmacSha1"

definition get_sign_header_for_resource :: "crypto \<Rightarrow> nat \<Rightarrow> string \<Rightarrow> string \<Rightarrow> headers" where
  "get_sign_header_for_resource cr timestamp resource secret_key =
    (let hs = Map.empty(TIMESTAMP_HEADER \<mapsto> show_nat timestamp)
     in if secret_key \<noteq> [] then
          hs(SIGNATURE_HEADER \<mapsto>
            (if resource = [] then sign_with_hmac_sha1 cr (show_nat timestamp) secret_key
             else sign_with_hmac_sha1 cr (resource @ ''+'' @ show_nat timestamp) secret_key))
        else hs)"

definition first_signing_key :: "crypto \<Rightarrow> string \<Rightarrow> string \<Rightarrow> hmac_alg \<Rightarrow> bytes" where
  "first_signing_key cr secret date alg = sign_with_alg cr date (V4_PREFIX @ secret) alg"

definition region_signing_key :: "crypto \<Rightarrow> string \<Rightarrow> string \<Rightarrow> string \<Rightarrow> hmac_alg \<Rightarrow> bytes" where
  "region_signing_key cr secret date region alg = sign_with_alg cr region (first_signing_key cr secret date alg) alg"

definition final_signing_key_string :: "crypto \<Rightarrow> string \<Rightarrow> string \<Rightarrow> string \<Rightarrow> string \<Rightarrow> hmac_alg \<Rightarrow> string" where
  "final_signing_key_string cr secret date region product_code alg =
    (let second = region_signing_key cr secret date region alg;
         third = sign_with_alg cr product_code second alg
     in sign_to_base64_with_alg cr V4_CONSTANT third alg)"

definition final_signing_key_string_with_default_info :: "crypto \<Rightarrow> string \<Rightarrow> string \<Rightarrow> string \<Rightarrow> string" where
  "final_signing_key_string_with_default_info cr today secret region =
    final_signing_key_string cr secret today region SIGNATURE_V4_PRODUCE HmacSha256"

record aliyun_plugin =
  access_key :: "string option"
  secret_key :: "string option"
  signature_region_id :: "string option"
  initialized :: bool

definition aliyun_new :: aliyun_plugin where
  "aliyun_new = \<lparr>access_key = None, secret_key = None, signature_region_id = None, initialized = False\<rparr>"

definition get_grouped_service_name_for :: "RequestResource \<Rightarrow> string option" where
  "get_grouped_service_name_for r =
    (case rr_resource r of
       None \<Rightarrow> None
     | Some service_name \<Rightarrow>
         Some (if contains service_name ''@@'' then service_name
               else case rr_group r of
                 Some g \<Rightarrow> g @ ''@@'' @ service_name
               | None \<Rightarrow> service_name))"

definition get_sign_data :: "nat \<Rightarrow> RequestResource \<Rightarrow> string option" where
  "get_sign_data timestamp r =
    (case get_grouped_service_name_for r of
       None \<Rightarrow> None
     | Some g \<Rightarrow> Some (if g = [] then show_nat timestamp else show_nat timestamp @ ''@@'' @ g))"

text \<open>The key a request is signed with; None when no secret key was set (a panic).\<close>

definition signature_key :: "crypto \<Rightarrow> string \<Rightarrow> aliyun_plugin \<Rightarrow> string option" where
  "signature_key cr today p =
    (case secret_key p of
       None \<Rightarrow> None
     | Some sk \<Rightarrow>
         Some (case signature_region_id p of
             None \<Rightarrow> sk
           | Some region \<Rightarrow> final_signing_key_string_with_default_info cr today sk region))"

definition version_context :: "aliyun_plugin \<Rightarrow> headers \<Rightarrow> headers" where
  "version_context p res = (if signature_region_id p = None then res else add_context SIGNATURE_VERSION V4 res)"

definition get_login_identify_for_naming :: "crypto \<Rightarrow> string \<Rightarrow> nat \<Rightarrow> aliyun_plugin \<Rightarrow> RequestResource \<Rightarrow> headers option" where
  "get_login_identify_for_naming cr today timestamp p resource =
    (case get_sign_data timestamp resource of
       None \<Rightarrow> Some Map.empty
     | Some sign_data \<Rightarrow>
         (case signature_key cr today p of
            None \<Rightarrow> None
          | Some key \<Rightarrow>
              (case access_key p of
                 None \<Rightarrow> None
               | Some ak \<Rightarrow>
                   Some (add_context AK_FILED ak
                     (add_context DATA_FILED sign_data
                       (add_context SIGNATURE_FILED (sign_with_hmac_sha1 cr sign_data key)
                         (version_context p Map.empty)))))))"

definition get_resource_for_config :: "RequestResource \<Rightarrow> string" where
  "get_resource_for_config r =
    (let nonempty = (\<lambda>v. case v of None \<Rightarrow> None | Some s \<Rightarrow> if s = [] then None else Some s);
         namespace = nonempty (rr_namespace r); grp = nonempty (rr_group r)
     in case (namespace, grp) of
          (Some n, Some g) \<Rightarrow> n @ ''+'' @ g
        | (None, Some g) \<Rightarrow> g
        | (Some n, None) \<Rightarrow> n
        | (None, None) \<Rightarrow> [])"

definition get_login_identify_for_config :: "crypto \<Rightarrow> string \<Rightarrow> nat \<Rightarrow> aliyun_plugin \<Rightarrow> RequestResource \<Rightarrow> headers option" where
  "get_login_identify_for_config cr today timestamp p resource =
    (case signature_key cr today p of
       None \<Rightarrow> None
     | Some key \<Rightarrow>
         (case access_key p of
            None \<Rightarrow> None
          | Some ak \<Rightarrow>
              Some (add_contexts (get_sign_header_for_resource cr timestamp (get_resource_for_config resource) key)
                (add_context ACCESS_KEY_HEADER ak (version_context p Map.empty)))))"

definition aliyun_login_identity :: "crypto \<Rightarrow> string \<Rightarrow> nat \<Rightarrow> aliyun_plugin \<Rightarrow> RequestResource \<Rightarrow> headers option" where
  "aliyun_login_identity cr today timestamp p resource =
    (if request_type resource = ''Naming'' then get_login_identify_for_naming cr today timestamp p resource
     else if request_type resource = ''Config'' then get_login_identify_for_config cr today timestamp p resource
     else Some Map.empty)"

text \<open>None when a key is missing among the parameters (a panic).\<close>

definition aliyun_login :: "headers \<Rightarrow> aliyun_plugin \<Rightarrow> aliyun_plugin option" where
  "aliyun_login params p =
    (if initialized p then Some p
     else
       (case params ACCESS_KEY of
          None \<Rightarrow> None
        | Some ak \<Rightarrow>
            (case params ACCESS_SECRET of
               None \<Rightarrow> None
             | Some sk \<Rightarrow>
                 Some \<lparr>access_key = Some ak, secret_key = Some sk,
                   signature_region_id = (case params SIGN_REGION_ID of None \<Rightarrow> signature_region_id p | Some r \<Rightarrow> Some r),
                   initialized = True\<rparr>)))"

section \<open>Properties\<close>

text \<open>
  a call of the periodic login asks a server only when the refresh time has passed; an answered
  one replaces the token and puts the next login off by a tenth of the token's life, a failed one
  keeps the token and the refresh time, so the next call tries again. A call that returns has read its
  answer to the end.
\<close>

lemma http_login_refreshes:
  assumes "http_login tls post now later i servers params p = Some p'"
  shows "(now \<le> next_login_refresh p \<longrightarrow> p' = p) \<and>
    (next_login_refresh p < now \<longrightarrow>
      (\<exists>user pass server. params USERNAME = Some user \<and> params PASSWORD = Some pass \<and> server \<in> set servers \<and>
        (case login_response (post (login_url tls server) user pass) of
           None \<Rightarrow> False
         | Some None \<Rightarrow> p' = p
         | Some (Some r) \<Rightarrow> http_login_identity p' = (\<lambda>_. [ACCESS_TOKEN \<mapsto> access_token r]) \<and>
             next_login_refresh p' = later + 1000 * (unat (token_ttl r) div 10))))"
proof (intro conjI impI)
  assume "now \<le> next_login_refresh p"
  then show "p' = p" using assms by (simp add: http_login_def)
next
  assume due: "next_login_refresh p < now"
  then obtain user pass where up: "params USERNAME = Some user" "params PASSWORD = Some pass" "servers \<noteq> []"
    using assms by (auto simp: http_login_def split: option.splits if_splits)
  let ?server = "servers ! (i mod length servers)"
  have "?server \<in> set servers" using up(3) by simp
  moreover have "case login_response (post (login_url tls ?server) user pass) of
           None \<Rightarrow> False
         | Some None \<Rightarrow> p' = p
         | Some (Some r) \<Rightarrow> http_login_identity p' = (\<lambda>_. [ACCESS_TOKEN \<mapsto> access_token r]) \<and>
             next_login_refresh p' = later + 1000 * (unat (token_ttl r) div 10)"
    using assms due up
    by (auto simp: http_login_def http_login_identity_def add_context_def fun_eq_iff split: option.splits)
  ultimately show "\<exists>user pass server. params USERNAME = Some user \<and> params PASSWORD = Some pass \<and> server \<in> set servers \<and>
        (case login_response (post (login_url tls server) user pass) of
           None \<Rightarrow> False
         | Some None \<Rightarrow> p' = p
         | Some (Some r) \<Rightarrow> http_login_identity p' = (\<lambda>_. [ACCESS_TOKEN \<mapsto> access_token r]) \<and>
             next_login_refresh p' = later + 1000 * (unat (token_ttl r) div 10))"
    using up by blast
qed

lemma http_login_refreshes_witness:
  "\<exists>p'. http_login False (\<lambda>_ _ _. LoginText (Some \<lparr>access_token = ''t'', token_ttl = 18000\<rparr>)) 5 6 0 [''s:8848''] [USERNAME \<mapsto> ''u'', PASSWORD \<mapsto> ''p'']
      (http_plugin_new 1) = Some p' \<and> next_login_refresh p' = 1800006"
proof -
  let ?post = "\<lambda>_ _ _. LoginText (Some \<lparr>access_token = ''t'', token_ttl = 18000\<rparr>)" and ?params = "[USERNAME \<mapsto> ''u'', PASSWORD \<mapsto> ''p'']"
  obtain p' where p': "http_login False ?post 5 6 0 [''s:8848''] ?params (http_plugin_new 1) = Some p'"
    by (simp add: http_login_def http_plugin_new_def USERNAME_def PASSWORD_def)
  from http_login_refreshes[OF p'] p' show ?thesis by (auto simp: http_plugin_new_def)
qed

text \<open>
  A server's check of a signed request: it knows the secret of the access key and the region, and
  computes the signature over the data that came with the request.
\<close>

definition server_key :: "crypto \<Rightarrow> string \<Rightarrow> string \<Rightarrow> string \<Rightarrow> headers \<Rightarrow> string" where
  "server_key cr today secret region ctxt =
    (if ctxt SIGNATURE_VERSION = Some V4 then final_signing_key_string cr secret today region SIGNATURE_V4_PRODUCE HmacSha256
     else secret)"

definition server_accepts :: "crypto \<Rightarrow> string \<Rightarrow> (string \<rightharpoonup> string) \<Rightarrow> string \<Rightarrow> RequestResource \<Rightarrow> headers \<Rightarrow> bool" where
  "server_accepts cr today secrets region r ctxt =
    (if request_type r = ''Naming'' then
       (case (ctxt AK_FILED, ctxt DATA_FILED) of
          (Some ak, Some d) \<Rightarrow> (case secrets ak of None \<Rightarrow> False
            | Some sk \<Rightarrow> ctxt SIGNATURE_FILED = Some (sign_with_hmac_sha1 cr d (server_key cr today sk region ctxt)))
        | _ \<Rightarrow> False)
     else
       (case (ctxt ACCESS_KEY_HEADER, ctxt TIMESTAMP_HEADER) of
          (Some ak, Some ts) \<Rightarrow> (case secrets ak of None \<Rightarrow> False
            | Some sk \<Rightarrow> ctxt SIGNATURE_HEADER = Some (sign_with_hmac_sha1 cr
                (if get_resource_for_config r = [] then ts else get_resource_for_config r @ ''+'' @ ts)
                (server_key cr today sk region ctxt)))
        | _ \<Rightarrow> False))"

lemmas aliyun_names = SIGNATURE_VERSION_def ACCESS_KEY_HEADER_def SIGNATURE_FILED_def DATA_FILED_def AK_FILED_def
  TIMESTAMP_HEADER_def SIGNATURE_HEADER_def ACCESS_KEY_def ACCESS_SECRET_def SIGN_REGION_ID_def

lemma aliyun_names_distinct [simp]:
  "SIGNATURE_VERSION \<noteq> AK_FILED" "SIGNATURE_VERSION \<noteq> DATA_FILED" "SIGNATURE_VERSION \<noteq> SIGNATURE_FILED"
  "SIGNATURE_VERSION \<noteq> ACCESS_KEY_HEADER" "SIGNATURE_VERSION \<noteq> TIMESTAMP_HEADER" "SIGNATURE_VERSION \<noteq> SIGNATURE_HEADER"
  "DATA_FILED \<noteq> AK_FILED" "SIGNATURE_FILED \<noteq> AK_FILED" "SIGNATURE_FILED \<noteq> DATA_FILED"
  "ACCESS_KEY_HEADER \<noteq> TIMESTAMP_HEADER" "ACCESS_KEY_HEADER \<noteq> SIGNATURE_HEADER" "SIGNATURE_HEADER \<noteq> TIMESTAMP_HEADER"
  "ACCESS_KEY \<noteq> ACCESS_SECRET" "ACCESS_KEY \<noteq> SIGN_REGION_ID" "ACCESS_SECRET \<noteq> SIGN_REGION_ID"
  by (simp_all add: aliyun_names)

declare aliyun_names_distinct [symmetric, simp]



text \<open>
  a naming request without a service name, such as the listing of services, is sent unsigned:
  there is no identity at all, and the server's check fails, whatever the keys.
\<close>

lemma nameless_request_unsigned:
  assumes "nr_service_name req = None" "naming_resource req = Some r"
  shows "aliyun_login_identity cr today ts p r = Some Map.empty \<and> \<not> server_accepts cr today secrets region r Map.empty"
  using assms
  by (auto simp: naming_resource_def aliyun_login_identity_def get_login_identify_for_naming_def get_sign_data_def
      get_grouped_service_name_for_def server_accepts_def)

lemma nameless_request_unsigned_witness:
  "\<exists>r. naming_resource \<lparr>req_headers = Map.empty, request_id = None, nr_namespace = None, nr_service_name = None, nr_group_name = None\<rparr> = Some r \<and>
    aliyun_login_identity \<lparr>hmac_sign = \<lambda>_ k d. k @ d, base64 = \<lambda>b. b\<rparr> [] 7 aliyun_new r = Some Map.empty"
  using nameless_request_unsigned[of "\<lparr>req_headers = Map.empty, request_id = None, nr_namespace = None, nr_service_name = None, nr_group_name = None\<rparr>"]
  by (auto simp: naming_resource_def)

end
