(* ===== verification/Cache.thy ===== *)
theory Cache
  imports Messages
begin

text \<open>
  The in-memory cache of src/common/cache/mod.rs. Every mutating operation returns, next to its
  result, the commands it spawns for the disk store; they run later and concurrently (theory
  DiskStore). What a client may rely on is the locale \<open>keyed_store\<close>, interpreted on the cache.
\<close>

datatype CacheKind = DiskStoreKind | NoneKind

fun cache_kind_name :: "CacheKind \<Rightarrow> string" where
  "cache_kind_name DiskStoreKind = ''disk-store''"
| "cache_kind_name NoneKind = ''none''"

definition is_disk_store :: "CacheKind \<Rightarrow> bool" where
  "is_disk_store k = (k = DiskStoreKind)"

text \<open>
  \<open>SaveCurrent\<close> is the task of \<^verbatim>\<open>CacheRefMut::drop\<close>: it serializes the value found under the key
  when the task runs.
\<close>

datatype store_cmd =
    Save string bytes
  | SaveCurrent string
  | Remove string

record 'v cache =
  inner :: "string \<rightharpoonup> 'v"
  has_store :: bool

definition cache_new :: "(string \<rightharpoonup> 'v) option \<Rightarrow> bool \<Rightarrow> 'v cache" where
  "cache_new store load_cache_at_start =
    (case store of
       Some on_disk \<Rightarrow> \<lparr>inner = (if load_cache_at_start then on_disk else Map.empty), has_store = True\<rparr>
     | None \<Rightarrow> \<lparr>inner = Map.empty, has_store = False\<rparr>)"

definition cache_get :: "'v cache \<Rightarrow> string \<Rightarrow> 'v option" where
  "cache_get c key = inner c key"

text \<open>
  \<^verbatim>\<open>get_mut\<close>, an update \<open>f\<close> through the guard, and the guard's drop; None when the key is absent.
\<close>

definition cache_get_mut :: "('v \<Rightarrow> 'a \<times> 'v) \<Rightarrow> string \<Rightarrow> 'v cache \<Rightarrow> 'a option \<times> 'v cache \<times> store_cmd list" where
  "cache_get_mut f key c =
    (case inner c key of
       None \<Rightarrow> (None, c, [])
     | Some v \<Rightarrow>
         (let (a, v') = f v
          in (Some a, c\<lparr>inner := (inner c)(key \<mapsto> v')\<rparr>, if has_store c then [SaveCurrent key] else [])))"

definition cache_insert :: "'v to_vec \<Rightarrow> string \<Rightarrow> 'v \<Rightarrow> 'v cache \<Rightarrow> 'v option \<times> 'v cache \<times> store_cmd list" where
  "cache_insert to_vec key value c =
    (let cmds = (if has_store c then (case to_vec value of Inr bs \<Rightarrow> [Save key bs] | Inl _ \<Rightarrow> []) else [])
     in (inner c key, c\<lparr>inner := (inner c)(key \<mapsto> value)\<rparr>, cmds))"

definition cache_remove :: "string \<Rightarrow> 'v cache \<Rightarrow> 'v option \<times> 'v cache \<times> store_cmd list" where
  "cache_remove key c =
    (case inner c key of
       None \<Rightarrow> (None, c, [])
     | Some v \<Rightarrow> (Some v, c\<lparr>inner := (inner c)(key := None)\<rparr>, if has_store c then [Remove key] else []))"

text \<open>The task that \<^verbatim>\<open>CacheRefMut::drop\<close> spawns, run on the cache of that time: what it saves.\<close>

definition SaveCurrent_task :: "'v to_vec \<Rightarrow> string \<Rightarrow> 'v cache \<Rightarrow> (string \<times> bytes) option" where
  "SaveCurrent_task to_vec key c =
    (case inner c key of
       None \<Rightarrow> None
     | Some v \<Rightarrow> (case to_vec v of Inl _ \<Rightarrow> None | Inr bs \<Rightarrow> Some (key, bs)))"

definition cache_contains_key :: "string \<Rightarrow> 'v cache \<Rightarrow> bool" where
  "cache_contains_key key c = (inner c key \<noteq> None)"

text \<open>\<^verbatim>\<open>for_each\<close> visits every entry once, in an order \<open>ks\<close> of the keys that the map chooses.\<close>

definition visit_order :: "'v cache \<Rightarrow> string list \<Rightarrow> bool" where
  "visit_order c ks = (distinct ks \<and> set ks = dom (inner c))"

definition cache_for_each :: "(string \<Rightarrow> 'v \<Rightarrow> 's \<Rightarrow> 's) \<Rightarrow> string list \<Rightarrow> 'v cache \<Rightarrow> 's \<Rightarrow> 's" where
  "cache_for_each f ks c s =
    fold (\<lambda>k s. case inner c k of None \<Rightarrow> s | Some v \<Rightarrow> f k v s) ks s"

text \<open>\<^verbatim>\<open>CacheBuilder\<close>: the directory of the disk store, if any.\<close>

record cache_builder =
  cb_namespace :: string
  cb_module :: string
  cb_load_at_start :: bool
  cb_store :: "string list option"

definition builder_config :: "string \<Rightarrow> cache_builder" where
  "builder_config ns = \<lparr>cb_namespace = ns, cb_module = ''config'', cb_load_at_start = False, cb_store = None\<rparr>"

definition builder_naming :: "string \<Rightarrow> cache_builder" where
  "builder_naming ns = \<lparr>cb_namespace = ns, cb_module = ''naming'', cb_load_at_start = False, cb_store = None\<rparr>"

definition builder_load_cache_at_start :: "bool \<Rightarrow> cache_builder \<Rightarrow> cache_builder" where
  "builder_load_cache_at_start b cb = cb\<lparr>cb_load_at_start := b\<rparr>"

text \<open>A path is the list of its components pushed one after the other; \<open>home\<close> is \<^verbatim>\<open>HOME_DIR\<close>.\<close>

definition builder_store :: "string list \<Rightarrow> CacheKind \<Rightarrow> string list option \<Rightarrow> cache_builder \<Rightarrow> cache_builder" where
  "builder_store home kind cache_dir cb =
    (if \<not> is_disk_store kind then cb\<lparr>cb_store := None\<rparr>
     else
       (let disk_path = (case cache_dir of None \<Rightarrow> home @ [''nacos''] | Some d \<Rightarrow> d);
            disk_path = disk_path @ [cb_module cb];
            disk_path = disk_path @ [cb_namespace cb]
        in cb\<lparr>cb_store := Some disk_path\<rparr>))"

definition builder_build_cache :: "(string list \<Rightarrow> string \<rightharpoonup> 'v) \<Rightarrow> cache_builder \<Rightarrow> 'v cache" where
  "builder_build_cache load cb = cache_new (map_option load (cb_store cb)) (cb_load_at_start cb)"

section \<open>The contract of a keyed store\<close>

locale keyed_store =
  fixes lookup :: "'s \<Rightarrow> string \<Rightarrow> 'v option"
    and put :: "string \<Rightarrow> 'v \<Rightarrow> 's \<Rightarrow> 's"
    and del :: "string \<Rightarrow> 's \<Rightarrow> 's"
    and upd :: "('v \<Rightarrow> 'v) \<Rightarrow> string \<Rightarrow> 's \<Rightarrow> 's"
  assumes lookup_put: "lookup (put k v s) = (lookup s)(k \<mapsto> v)"
    and lookup_del: "lookup (del k s) = (lookup s)(k := None)"
    and lookup_upd: "lookup (upd f k s) = (lookup s)(k := map_option f (lookup s k))"
begin

lemma put_same [simp]: "lookup (put k v s) k = Some v"
  by (simp add: lookup_put)

lemma put_other: "k \<noteq> k' \<Longrightarrow> lookup (put k v s) k' = lookup s k'"
  by (simp add: lookup_put)

lemma upd_other: "k \<noteq> k' \<Longrightarrow> lookup (upd f k s) k' = lookup s k'"
  by (simp add: lookup_upd)

lemma upd_dom: "dom (lookup (upd f k s)) = dom (lookup s)"
  by (auto simp: lookup_upd split: if_splits)

lemma upd_put: "lookup (upd f k (put k v s)) = lookup (put k (f v) s)"
  by (simp add: lookup_upd lookup_put)

lemma del_put: "lookup (del k (put k v s)) = lookup (del k s)"
  by (simp add: lookup_put lookup_del)

text \<open>A property of all stored values survives every operation that establishes it for the new value.\<close>

lemma all_put: "\<forall>k v. lookup s k = Some v \<longrightarrow> P k v \<Longrightarrow> P k v \<Longrightarrow> \<forall>k' v'. lookup (put k v s) k' = Some v' \<longrightarrow> P k' v'"
  by (simp add: lookup_put)

lemma all_upd:
  "\<forall>k v. lookup s k = Some v \<longrightarrow> P k v \<Longrightarrow> (\<And>v. P k v \<Longrightarrow> P k (f v)) \<Longrightarrow>
    \<forall>k' v'. lookup (upd f k s) k' = Some v' \<longrightarrow> P k' v'"
  by (auto simp: lookup_upd)

lemma all_del: "\<forall>k v. lookup s k = Some v \<longrightarrow> P k v \<Longrightarrow> \<forall>k' v'. lookup (del k s) k' = Some v' \<longrightarrow> P k' v'"
  by (simp add: lookup_del)

end

abbreviation cache_put :: "'v to_vec \<Rightarrow> string \<Rightarrow> 'v \<Rightarrow> 'v cache \<Rightarrow> 'v cache" where
  "cache_put to_vec k v c \<equiv> fst (snd (cache_insert to_vec k v c))"

abbreviation cache_del :: "string \<Rightarrow> 'v cache \<Rightarrow> 'v cache" where
  "cache_del k c \<equiv> fst (snd (cache_remove k c))"

abbreviation cache_upd :: "('v \<Rightarrow> 'v) \<Rightarrow> string \<Rightarrow> 'v cache \<Rightarrow> 'v cache" where
  "cache_upd f k c \<equiv> fst (snd (cache_get_mut (\<lambda>v. ((), f v)) k c))"

interpretation cache: keyed_store cache_get "cache_put to_vec" cache_del cache_upd
  by unfold_locales (auto simp: fun_eq_iff cache_get_def cache_insert_def cache_remove_def cache_get_mut_def
      Let_def split: option.splits)

lemma cache_get_mut_result:
  "cache_get_mut f k c =
    (map_option (\<lambda>v. fst (f v)) (cache_get c k), cache_upd (\<lambda>v. snd (f v)) k c,
     if cache_get c k \<noteq> None \<and> has_store c then [SaveCurrent k] else [])"
  by (auto simp: cache_get_mut_def cache_get_def case_prod_unfold Let_def split: option.splits)

lemma has_store_ops [simp]:
  "has_store (cache_put to_vec k v c) = has_store c"
  "has_store (cache_del k c) = has_store c"
  "has_store (cache_upd f k c) = has_store c"
  by (simp_all add: cache_insert_def cache_remove_def cache_get_mut_def Let_def split: option.splits)

lemma cache_contains_get: "cache_contains_key k c \<longleftrightarrow> cache_get c k \<noteq> None"
  by (simp add: cache_contains_key_def cache_get_def)

text \<open>Without a store nothing is spawned; with one, every change of an entry is.\<close>

lemma memory_only_spawns_nothing:
  assumes "\<not> has_store c"
  shows "snd (snd (cache_insert to_vec k v c)) = []" "snd (snd (cache_remove k c)) = []"
    "snd (snd (cache_get_mut f k c)) = []"
  using assms by (auto simp: cache_insert_def cache_remove_def cache_get_mut_def Let_def split: option.splits prod.splits)

lemma changed_entry_is_spawned:
  assumes "has_store c" "cache_get c k \<noteq> None"
  shows "Remove k \<in> set (snd (snd (cache_remove k c)))" "SaveCurrent k \<in> set (snd (snd (cache_get_mut f k c)))"
  using assms by (auto simp: cache_remove_def cache_get_mut_def cache_get_def Let_def split: option.splits prod.splits)

end
