(* ===== verification/Props.thy ===== *)
theory Props
  imports Auth Cache Decimal
begin

text \<open>
  The settings of a client (src/api/props.rs): their defaults and setters, and the getters, which
  prefer the environment when told to. The environment is an argument.
\<close>

record ClientProps =
  cp_server_addr :: string
  cp_endpoint :: "string option"
  cp_grpc_port :: "16 word option"
  cp_namespace :: string
  cp_app_name :: string
  cp_naming_push_empty_protection :: bool
  cp_naming_load_cache_at_start :: bool
  cp_config_load_cache_at_start :: bool
  cp_cache_dir :: "string option"
  cp_cache_kind :: CacheKind
  cp_env_first :: bool
  cp_labels :: headers
  cp_client_version :: string
  cp_auth_context :: headers
  cp_max_retries :: "32 word option"

definition DEFAULT_SERVER_ADDR :: string where "DEFAULT_SERVER_ADDR = ''127.0.0.1:8848''"
definition DEFAULT_NAMESPACE :: string where "DEFAULT_NAMESPACE = ''public''"
definition UNKNOWN :: string where "UNKNOWN = ''unknown''"
definition KEY_LABEL_APP_NAME :: string where "KEY_LABEL_APP_NAME = ''AppName''"

text \<open>\<^verbatim>\<open>new\<close>; the version of the package is an argument.\<close>

definition client_props_new :: "string \<Rightarrow> ClientProps" where
  "client_props_new pkg_version =
    \<lparr>cp_server_addr = DEFAULT_SERVER_ADDR, cp_endpoint = None, cp_grpc_port = None, cp_namespace = [], cp_app_name = UNKNOWN,
     cp_naming_push_empty_protection = True, cp_naming_load_cache_at_start = False, cp_config_load_cache_at_start = False,
     cp_cache_dir = None, cp_cache_kind = DiskStoreKind, cp_env_first = True, cp_labels = Map.empty,
     cp_client_version = ''Nacos-Rust-Client:'' @ pkg_version, cp_auth_context = Map.empty, cp_max_retries = None\<rparr>"

section \<open>Setters\<close>

definition set_load_cache_at_start :: "bool \<Rightarrow> ClientProps \<Rightarrow> ClientProps" where
  "set_load_cache_at_start b p = p\<lparr>cp_naming_load_cache_at_start := b, cp_config_load_cache_at_start := b\<rparr>"

definition extend_labels :: "headers \<Rightarrow> ClientProps \<Rightarrow> ClientProps" where
  "extend_labels m p = p\<lparr>cp_labels := cp_labels p ++ m\<rparr>"

definition auth_ext :: "string \<Rightarrow> string \<Rightarrow> ClientProps \<Rightarrow> ClientProps" where
  "auth_ext key val p = p\<lparr>cp_auth_context := (cp_auth_context p)(key \<mapsto> val)\<rparr>"

definition auth_username :: "string \<Rightarrow> ClientProps \<Rightarrow> ClientProps" where
  "auth_username v p = p\<lparr>cp_auth_context := (cp_auth_context p)(USERNAME \<mapsto> v)\<rparr>"

definition auth_password :: "string \<Rightarrow> ClientProps \<Rightarrow> ClientProps" where
  "auth_password v p = p\<lparr>cp_auth_context := (cp_auth_context p)(PASSWORD \<mapsto> v)\<rparr>"

definition auth_access_key :: "string \<Rightarrow> ClientProps \<Rightarrow> ClientProps" where
  "auth_access_key v p = p\<lparr>cp_auth_context := (cp_auth_context p)(ACCESS_KEY \<mapsto> v)\<rparr>"

definition auth_access_secret :: "string \<Rightarrow> ClientProps \<Rightarrow> ClientProps" where
  "auth_access_secret v p = p\<lparr>cp_auth_context := (cp_auth_context p)(ACCESS_SECRET \<mapsto> v)\<rparr>"

definition auth_signature_region_id :: "string \<Rightarrow> ClientProps \<Rightarrow> ClientProps" where
  "auth_signature_region_id v p = p\<lparr>cp_auth_context := (cp_auth_context p)(SIGN_REGION_ID \<mapsto> v)\<rparr>"

text \<open>A call of the builder API, and what it does.\<close>

datatype props_call =
    ServerAddr string
  | Endpoint string
  | RemoteGrpcPort "16 word"
  | Namespace string
  | AppName string
  | NamingPushEmptyProtection bool
  | NamingLoadCacheAtStart bool
  | ConfigLoadCacheAtStart bool
  | LoadCacheAtStart bool
  | CacheDir string
  | CacheKindOf CacheKind
  | EnvFirst bool
  | Labels headers
  | AuthUsername string
  | AuthPassword string
  | AuthAccessKey string
  | AuthAccessSecret string
  | AuthSignatureRegionId string
  | AuthExt string string
  | MaxRetries "32 word"

fun props_apply :: "props_call \<Rightarrow> ClientProps \<Rightarrow> ClientProps" where
  "props_apply (ServerAddr v) p = p\<lparr>cp_server_addr := v\<rparr>"
| "props_apply (Endpoint v) p = p\<lparr>cp_endpoint := Some v\<rparr>"
| "props_apply (RemoteGrpcPort v) p = p\<lparr>cp_grpc_port := Some v\<rparr>"
| "props_apply (Namespace v) p = p\<lparr>cp_namespace := v\<rparr>"
| "props_apply (AppName v) p = p\<lparr>cp_app_name := v\<rparr>"
| "props_apply (NamingPushEmptyProtection b) p = p\<lparr>cp_naming_push_empty_protection := b\<rparr>"
| "props_apply (NamingLoadCacheAtStart b) p = p\<lparr>cp_naming_load_cache_at_start := b\<rparr>"
| "props_apply (ConfigLoadCacheAtStart b) p = p\<lparr>cp_config_load_cache_at_start := b\<rparr>"
| "props_apply (LoadCacheAtStart b) p = set_load_cache_at_start b p"
| "props_apply (CacheDir v) p = p\<lparr>cp_cache_dir := Some v\<rparr>"
| "props_apply (CacheKindOf k) p = p\<lparr>cp_cache_kind := k\<rparr>"
| "props_apply (EnvFirst b) p = p\<lparr>cp_env_first := b\<rparr>"
| "props_apply (Labels m) p = extend_labels m p"
| "props_apply (AuthUsername v) p = auth_username v p"
| "props_apply (AuthPassword v) p = auth_password v p"
| "props_apply (AuthAccessKey v) p = auth_access_key v p"
| "props_apply (AuthAccessSecret v) p = auth_access_secret v p"
| "props_apply (AuthSignatureRegionId v) p = auth_signature_region_id v p"
| "props_apply (AuthExt k v) p = auth_ext k v p"
| "props_apply (MaxRetries n) p = p\<lparr>cp_max_retries := Some n\<rparr>"

section \<open>Getters\<close>

definition get_remote_grpc_port :: "ClientProps \<Rightarrow> 16 word option" where
  "get_remote_grpc_port p = cp_grpc_port p"

definition get_client_version :: "ClientProps \<Rightarrow> string" where
  "get_client_version p = cp_client_version p"

definition get_max_retries :: "ClientProps \<Rightarrow> 32 word option" where
  "get_max_retries p = cp_max_retries p"

definition get_server_addr :: "props \<Rightarrow> ClientProps \<Rightarrow> string" where
  "get_server_addr E p = (if cp_env_first p then get_value E ''NACOS_CLIENT_SERVER_ADDRESS'' (cp_server_addr p) else cp_server_addr p)"

definition get_endpoint :: "props \<Rightarrow> ClientProps \<Rightarrow> string option" where
  "get_endpoint E p =
    (if cp_env_first p then (case get_value_option E ''NACOS_CLIENT_ENDPOINT'' of None \<Rightarrow> cp_endpoint p | Some v \<Rightarrow> Some v)
     else cp_endpoint p)"

definition get_address_identifier :: "props \<Rightarrow> ClientProps \<Rightarrow> string" where
  "get_address_identifier E p = (case get_endpoint E p of None \<Rightarrow> get_server_addr E p | Some e \<Rightarrow> e)"

definition get_namespace :: "props \<Rightarrow> ClientProps \<Rightarrow> string" where
  "get_namespace E p = (if cp_env_first p then get_value E ''NACOS_CLIENT_NAMESPACE'' (cp_namespace p) else cp_namespace p)"

definition get_namespace_default_if_empty :: "props \<Rightarrow> ClientProps \<Rightarrow> string" where
  "get_namespace_default_if_empty E p =
    (let namespace = get_namespace E p in if namespace = [] then DEFAULT_NAMESPACE else namespace)"

definition get_app_name :: "props \<Rightarrow> ClientProps \<Rightarrow> string" where
  "get_app_name E p = (if cp_env_first p then get_value E ''NACOS_CLIENT_APP_NAME'' (cp_app_name p) else cp_app_name p)"

definition get_naming_push_empty_protection :: "props \<Rightarrow> ClientProps \<Rightarrow> bool" where
  "get_naming_push_empty_protection E p =
    (if cp_env_first p then get_value_bool E ''NACOS_CLIENT_NAMING_PUSH_EMPTY_PROTECTION'' (cp_naming_push_empty_protection p)
     else cp_naming_push_empty_protection p)"

definition get_naming_load_cache_at_start :: "props \<Rightarrow> ClientProps \<Rightarrow> bool" where
  "get_naming_load_cache_at_start E p =
    (if cp_env_first p then get_value_bool E ''NACOS_CLIENT_NAMING_LOAD_CACHE_AT_START'' (cp_naming_load_cache_at_start p)
     else cp_naming_load_cache_at_start p)"

definition get_config_load_cache_at_start :: "props \<Rightarrow> ClientProps \<Rightarrow> bool" where
  "get_config_load_cache_at_start E p =
    (if cp_env_first p then get_value_bool E ''NACOS_CLIENT_CONFIG_LOAD_CACHE_AT_START'' (cp_config_load_cache_at_start p)
     else cp_config_load_cache_at_start p)"

definition get_cache_dir :: "props \<Rightarrow> ClientProps \<Rightarrow> string option" where
  "get_cache_dir E p =
    (if cp_env_first p then
       (case get_value_option E ''NACOS_CLIENT_CACHE_DIR'' of
          None \<Rightarrow> cp_cache_dir p
        | Some d \<Rightarrow> if trim d = [] then cp_cache_dir p else Some d)
     else cp_cache_dir p)"

text \<open>
  \<^verbatim>\<open>to_lowercase\<close> as far as the names of cache kinds can tell: the only character outside ASCII whose
  lower case is in ASCII is the Kelvin sign (U+212A, in UTF-8 the bytes E2 84 AA).
\<close>

definition lower_char :: "char \<Rightarrow> char" where
  "lower_char c = (if 65 \<le> code c \<and> code c \<le> 90 then char_of (code c + 32) else c)"

fun to_lowercase :: "string \<Rightarrow> string" where
  "to_lowercase (a # b # c # s) =
    (if code a = 226 \<and> code b = 132 \<and> code c = 170 then CHR ''k'' # to_lowercase s
     else lower_char a # to_lowercase (b # c # s))"
| "to_lowercase s = map lower_char s"

definition cache_kind_from_str :: "string \<Rightarrow> CacheKind result" where
  "cache_kind_from_str value =
    (let v = to_lowercase (trim value)
     in if v \<in> {''diskstore'', ''disk-store'', ''disk_store'', ''disk''} then Ok DiskStoreKind
        else if v \<in> {''none'', ''disabled'', ''memory'', ''memory-only''} then Ok NoneKind
        else Err (InvalidParam ''cache_kind'' (''unknown cache kind: '' @ value @
          '', expect one of [disk-store, diskstore, disk_store, disk, none, disabled, memory, memory-only]'')))"

definition get_cache_kind :: "props \<Rightarrow> ClientProps \<Rightarrow> CacheKind" where
  "get_cache_kind E p =
    (case (if cp_env_first p then get_value_option E ''NACOS_CLIENT_CACHE_KIND'' else None) of
       None \<Rightarrow> cp_cache_kind p
     | Some v \<Rightarrow>
         if trim v = [] then cp_cache_kind p
         else (case cache_kind_from_str v of Inr k \<Rightarrow> k | Inl e \<Rightarrow> cp_cache_kind p))"

definition get_labels :: "props \<Rightarrow> ClientProps \<Rightarrow> headers" where
  "get_labels E p = (cp_labels p)(KEY_LABEL_APP_NAME \<mapsto> get_app_name E p)"

definition insert_env :: "props \<Rightarrow> string \<Rightarrow> string \<Rightarrow> headers \<Rightarrow> headers" where
  "insert_env E env key ctxt = (case get_value_option E env of None \<Rightarrow> ctxt | Some v \<Rightarrow> ctxt(key \<mapsto> v))"

definition get_http_auth_context :: "props \<Rightarrow> headers \<Rightarrow> headers" where
  "get_http_auth_context E ctxt = insert_env E ''NACOS_CLIENT_PASSWORD'' PASSWORD (insert_env E ''NACOS_CLIENT_USERNAME'' USERNAME ctxt)"

definition get_aliyun_auth_context :: "props \<Rightarrow> headers \<Rightarrow> headers" where
  "get_aliyun_auth_context E ctxt =
    insert_env E ''NACOS_CLIENT_SIGN_REGION_ID'' SIGN_REGION_ID
      (insert_env E ''NACOS_CLIENT_SECRET_KEY'' ACCESS_SECRET (insert_env E ''NACOS_CLIENT_ACCESS_KEY'' ACCESS_KEY ctxt))"

text \<open>With both authentication features of the crate enabled.\<close>

definition get_auth_context :: "props \<Rightarrow> ClientProps \<Rightarrow> headers" where
  "get_auth_context E p =
    (if cp_env_first p then get_aliyun_auth_context E (get_http_auth_context E (cp_auth_context p)) else cp_auth_context p)"

section \<open>Properties\<close>

text \<open>Everything a client reads of its settings.\<close>

definition effective :: "props \<Rightarrow> ClientProps \<Rightarrow> ClientProps" where
  "effective E p = p\<lparr>cp_server_addr := get_server_addr E p, cp_endpoint := get_endpoint E p,
     cp_namespace := get_namespace E p, cp_app_name := get_app_name E p,
     cp_naming_push_empty_protection := get_naming_push_empty_protection E p,
     cp_naming_load_cache_at_start := get_naming_load_cache_at_start E p,
     cp_config_load_cache_at_start := get_config_load_cache_at_start E p,
     cp_cache_dir := get_cache_dir E p, cp_cache_kind := get_cache_kind E p,
     cp_labels := get_labels E p, cp_auth_context := get_auth_context E p\<rparr>"

lemma insert_env_self: "insert_env E env key (insert_env E env key c) = insert_env E env key c"
  by (simp add: insert_env_def split: option.split)

definition env_silent :: "props \<Rightarrow> bool" where
  "env_silent E =
    (list_all (\<lambda>k. E k = None) [''NACOS_CLIENT_SERVER_ADDRESS'', ''NACOS_CLIENT_ENDPOINT'', ''NACOS_CLIENT_NAMESPACE'',
       ''NACOS_CLIENT_APP_NAME'', ''NACOS_CLIENT_USERNAME'', ''NACOS_CLIENT_PASSWORD'', ''NACOS_CLIENT_ACCESS_KEY'',
       ''NACOS_CLIENT_SECRET_KEY'', ''NACOS_CLIENT_SIGN_REGION_ID''] \<and>
     list_all (\<lambda>k. case E k of None \<Rightarrow> True | Some v \<Rightarrow> parse_bool v = None) [''NACOS_CLIENT_NAMING_PUSH_EMPTY_PROTECTION'',
       ''NACOS_CLIENT_NAMING_LOAD_CACHE_AT_START'', ''NACOS_CLIENT_CONFIG_LOAD_CACHE_AT_START''] \<and>
     (case E ''NACOS_CLIENT_CACHE_DIR'' of None \<Rightarrow> True | Some v \<Rightarrow> trim v = []) \<and>
     (case E ''NACOS_CLIENT_CACHE_KIND'' of None \<Rightarrow> True | Some v \<Rightarrow> \<not> is_ok (cache_kind_from_str v)))"

lemmas getters = get_server_addr_def get_endpoint_def get_namespace_def get_app_name_def
  get_naming_push_empty_protection_def get_naming_load_cache_at_start_def get_config_load_cache_at_start_def
  get_cache_dir_def get_cache_kind_def get_auth_context_def get_http_auth_context_def get_aliyun_auth_context_def insert_env_def
  get_value_def get_value_option_def get_value_bool_def

lemma get_value_bool_unreadable:
  "(case E k of None \<Rightarrow> True | Some v \<Rightarrow> parse_bool v = None) \<Longrightarrow> get_value_bool E k d = d"
  by (simp add: get_value_bool_def split: option.splits)

lemma silent_getters:
  assumes "cp_env_first p \<longrightarrow> env_silent E"
  shows "get_server_addr E p = cp_server_addr p" "get_endpoint E p = cp_endpoint p" "get_namespace E p = cp_namespace p"
    "get_app_name E p = cp_app_name p" "get_naming_push_empty_protection E p = cp_naming_push_empty_protection p"
    "get_naming_load_cache_at_start E p = cp_naming_load_cache_at_start p"
    "get_config_load_cache_at_start E p = cp_config_load_cache_at_start p"
    "get_cache_dir E p = cp_cache_dir p" "get_cache_kind E p = cp_cache_kind p" "get_auth_context E p = cp_auth_context p"
proof -
  show "get_naming_push_empty_protection E p = cp_naming_push_empty_protection p"
    "get_naming_load_cache_at_start E p = cp_naming_load_cache_at_start p"
    "get_config_load_cache_at_start E p = cp_config_load_cache_at_start p"
    using assms
    by (simp_all add: env_silent_def get_naming_push_empty_protection_def get_naming_load_cache_at_start_def
        get_config_load_cache_at_start_def get_value_bool_unreadable)
  show "get_cache_dir E p = cp_cache_dir p"
    using assms by (cases "E ''NACOS_CLIENT_CACHE_DIR''") (simp_all add: env_silent_def get_cache_dir_def get_value_option_def)
  show "get_cache_kind E p = cp_cache_kind p"
  proof (cases "E ''NACOS_CLIENT_CACHE_KIND''")
    case (Some v)
    then show ?thesis using assms
      by (cases "cache_kind_from_str v") (simp_all add: env_silent_def get_cache_kind_def get_value_option_def)
  qed (simp add: get_cache_kind_def get_value_option_def)
qed (use assms in \<open>simp_all add: env_silent_def get_server_addr_def get_endpoint_def get_namespace_def get_app_name_def
  get_auth_context_def get_http_auth_context_def get_aliyun_auth_context_def insert_env_def get_value_def get_value_option_def\<close>)

text \<open>
  without \<^verbatim>\<open>env_first\<close> the environment has no say in any setting; with it, a setting the
  environment does not name, or names with a value that cannot be read, is the configured one.
\<close>

lemma settings_precedence:
  assumes "cp_env_first p \<longrightarrow> env_silent E"
  shows "effective E p = p\<lparr>cp_labels := (cp_labels p)(KEY_LABEL_APP_NAME \<mapsto> cp_app_name p)\<rparr>"
  by (simp add: effective_def get_labels_def silent_getters[OF assms])

lemma settings_precedence_witness:
  "effective [''NACOS_CLIENT_CACHE_KIND'' \<mapsto> ''tape''] (client_props_new ''1'') =
    (client_props_new ''1'')\<lparr>cp_labels := (cp_labels (client_props_new ''1''))(KEY_LABEL_APP_NAME \<mapsto> UNKNOWN)\<rparr>"
proof -
  have "env_silent [''NACOS_CLIENT_CACHE_KIND'' \<mapsto> ''tape'']" by code_simp
  then show ?thesis using settings_precedence[of "client_props_new ''1''" "[''NACOS_CLIENT_CACHE_KIND'' \<mapsto> ''tape'']"]
    by (simp add: client_props_new_def)
qed

text \<open>
  with \<^verbatim>\<open>env_first\<close> a value of the environment wins over the configured one; a cache kind is read
  from its display name whatever white space surrounds it.
\<close>

lemma environment_wins:
  assumes "cp_env_first p"
  shows "(E ''NACOS_CLIENT_SERVER_ADDRESS'' = Some v \<longrightarrow> get_server_addr E p = v) \<and>
    (E ''NACOS_CLIENT_ENDPOINT'' = Some v \<longrightarrow> get_endpoint E p = Some v \<and> get_address_identifier E p = v) \<and>
    (E ''NACOS_CLIENT_NAMESPACE'' = Some v \<longrightarrow> get_namespace_default_if_empty E p = (if v = [] then ''public'' else v)) \<and>
    (E ''NACOS_CLIENT_APP_NAME'' = Some v \<longrightarrow> get_labels E p ''AppName'' = Some v) \<and>
    (E ''NACOS_CLIENT_USERNAME'' = Some v \<longrightarrow> get_auth_context E p USERNAME = Some v) \<and>
    (E ''NACOS_CLIENT_SECRET_KEY'' = Some v \<longrightarrow> get_auth_context E p ACCESS_SECRET = Some v) \<and>
    (E ''NACOS_CLIENT_CACHE_KIND'' = Some v \<longrightarrow> trim v = cache_kind_name k \<longrightarrow> get_cache_kind E p = k)"
proof -
  have "to_lowercase (cache_kind_name DiskStoreKind) = cache_kind_name DiskStoreKind"
    "to_lowercase (cache_kind_name NoneKind) = cache_kind_name NoneKind" by code_simp+
  then have k: "to_lowercase (cache_kind_name k) = cache_kind_name k" "cache_kind_name k \<noteq> []"
    by (cases k; simp)+
  have "get_cache_kind E p = k" if "E ''NACOS_CLIENT_CACHE_KIND'' = Some v" "trim v = cache_kind_name k"
    using that assms k by (cases k) (simp_all add: getters cache_kind_from_str_def)
  moreover have "get_auth_context E p USERNAME = Some v" if "E ''NACOS_CLIENT_USERNAME'' = Some v"
    using that assms by (simp add: getters USERNAME_def PASSWORD_def aliyun_names split: option.splits)
  moreover have "get_auth_context E p ACCESS_SECRET = Some v" if "E ''NACOS_CLIENT_SECRET_KEY'' = Some v"
    using that assms by (simp add: getters USERNAME_def PASSWORD_def aliyun_names split: option.splits)
  ultimately show ?thesis using assms
    by (simp add: getters get_address_identifier_def get_namespace_default_if_empty_def DEFAULT_NAMESPACE_def get_labels_def
        KEY_LABEL_APP_NAME_def)
qed

lemma environment_wins_witness:
  "get_namespace_default_if_empty [''NACOS_CLIENT_NAMESPACE'' \<mapsto> ''dev''] (client_props_new ''1'') = ''dev''"
  using environment_wins[of "client_props_new ''1''" "[''NACOS_CLIENT_NAMESPACE'' \<mapsto> ''dev'']" "''dev''"]
  by (simp add: client_props_new_def)

end
