(* ===== verification/ServerList.thy ===== *)
theory ServerList
  imports Common
begin

text \<open>
  The server list of src/common/remote/server_list/mod.rs: parsing of addresses with their default
  port, and of the lines an endpoint answers with. The providers over it are in theory Providers.
\<close>

section \<open>Parsing of addresses\<close>

definition DEFAULT_SERVER_PORT :: "16 word" where "DEFAULT_SERVER_PORT = 8848"

definition ENV_SERVER_PORT :: string where "ENV_SERVER_PORT = ''NACOS_CLIENT_SERVER_PORT''"

definition parse_host_port :: "string \<Rightarrow> string \<times> 16 word option" where
  "parse_host_port input =
    (let by_colon =
       (case find_char CHR '':'' input of
          Some colon_pos \<Rightarrow>
            (let host = take colon_pos input; port_str = drop colon_pos input in
             if host = [] then (input, None)
             else (host, parse_u16 (drop 1 port_str)))
        | None \<Rightarrow> (input, None))
     in if prefix ''['' input then
          (case find_char CHR '']'' input of
             Some bracket_end \<Rightarrow>
               (let host = take (Suc bracket_end) input; rest = drop (Suc bracket_end) input
                in (host, Option.bind (strip_prefix '':'' rest) parse_u16))
           | None \<Rightarrow> by_colon)
        else by_colon)"

definition format_host_port :: "string \<Rightarrow> 16 word \<Rightarrow> string" where
  "format_host_port host port = host @ '':'' @ show_u16 port"

definition is_separator :: "char \<Rightarrow> bool" where
  "is_separator c = (c = CHR '','' \<or> c = CHR '';'' \<or> c = CHR 0x0A)"

definition parse_server_list :: "props \<Rightarrow> string \<Rightarrow> string list result" where
  "parse_server_list P server_addr =
    (let default_port = get_value_u16 P ENV_SERVER_PORT DEFAULT_SERVER_PORT;
         result = map (\<lambda>addr. let (host, port) = parse_host_port addr
                               in format_host_port host (case port of None \<Rightarrow> default_port | Some p \<Rightarrow> p))
                    (filter (\<lambda>addr. addr \<noteq> []) (map trim (split_on is_separator (trim server_addr))))
     in if result = [] then Err (WrongServerAddress ''Server address is empty'') else Ok result)"

definition parse_host_port_vec :: "string list \<Rightarrow> (string \<times> 16 word) list result" where
  "parse_host_port_vec server_list =
    (if server_list = [] then Err (WrongServerAddress ''server list must not empty'')
     else
       (let result_list = List.map_filter (\<lambda>server.
              let (host, port) = parse_host_port server in map_option (Pair host) port) server_list
        in if result_list = [] then Err (WrongServerAddress ''all the server is illegal format!'')
           else Ok result_list))"

lemma parse_server_list_nonempty: "parse_server_list P s = Inr l \<Longrightarrow> l \<noteq> []"
  by (auto simp: parse_server_list_def Let_def split: if_splits)

lemma parse_host_port_vec_nonempty: "parse_host_port_vec l = Inr r \<Longrightarrow> r \<noteq> []"
  by (auto simp: parse_host_port_vec_def Let_def split: if_splits)

subsection \<open>Well formed hosts\<close>

definition host_char :: "char \<Rightarrow> bool" where
  "host_char c = (visible c \<and> c \<noteq> CHR '':'' \<and> c \<noteq> CHR ''['' \<and> \<not> is_separator c)"

definition bracket_char :: "char \<Rightarrow> bool" where
  "bracket_char c = (visible c \<and> c \<noteq> CHR '']'' \<and> \<not> is_separator c)"

text \<open>A host name or IPv4 address, or an IPv6 address in brackets.\<close>

definition wf_host :: "string \<Rightarrow> bool" where
  "wf_host h =
    ((h \<noteq> [] \<and> list_all host_char h) \<or>
     (2 \<le> length h \<and> hd h = CHR ''['' \<and> last h = CHR '']'' \<and> list_all bracket_char (butlast (tl h))))"

lemma wf_host_cases:
  assumes "wf_host h"
  obtains (name) "h \<noteq> []" "\<forall>c\<in>set h. host_char c"
    | (bracket) b where "h = CHR ''['' # b @ '']''" "\<forall>c\<in>set b. bracket_char c"
proof -
  consider "h \<noteq> [] \<and> list_all host_char h"
    | "2 \<le> length h \<and> hd h = CHR ''['' \<and> last h = CHR '']'' \<and> list_all bracket_char (butlast (tl h))"
    using assms by (auto simp: wf_host_def)
  then show thesis
  proof cases
    case 1
    then show ?thesis using name by (auto simp: list_all_iff)
  next
    case 2
    then obtain t where t: "h = CHR ''['' # t" "t \<noteq> []" "last t = CHR '']''"
      by (cases h) (auto split: if_splits)
    then have "h = CHR ''['' # butlast t @ '']''" by (metis append_butlast_last_id)
    then show ?thesis using bracket 2 t by (auto simp: list_all_iff)
  qed
qed

lemma parse_host_port_format:
  assumes "wf_host h"
  shows "parse_host_port (format_host_port h p) = (h, Some p)"
  using assms
proof (cases rule: wf_host_cases)
  case name
  then have nc: "CHR '':'' \<notin> set h" and "hd h \<noteq> CHR ''[''" by (auto simp: host_char_def)
  then have "\<not> prefix ''['' (h @ '':'' @ show_u16 p)" using name(1) by (cases h) auto
  then show ?thesis using find_char_append[OF nc, of "show_u16 p"] name(1)
    by (simp add: parse_host_port_def format_host_port_def Let_def)
next
  case (bracket b)
  then have "CHR '']'' \<notin> set (CHR ''['' # b)" by (auto simp: bracket_char_def)
  then have "find_char CHR '']'' (format_host_port h p) = Some (Suc (length b))"
    using find_char_append[of "CHR '']''" "CHR ''['' # b" "'':'' @ show_u16 p"]
    by (simp add: format_host_port_def bracket)
  then show ?thesis
    by (simp add: parse_host_port_def format_host_port_def bracket Let_def)
qed

lemma visible_digit: "c \<in> set (show_u16 p) \<Longrightarrow> visible c \<and> \<not> is_separator c"
  unfolding show_u16_def
  by (drule show_nat_code) (auto simp: visible_def is_separator_def code_def)

lemma show_u16_ne [simp]: "show_u16 p \<noteq> []"
  by (simp add: show_u16_def)

lemma format_host_port_visible:
  assumes "wf_host h" "c \<in> set (format_host_port h p)"
  shows "visible c \<and> \<not> is_separator c"
proof -
  have const: "visible CHR '':''" "\<not> is_separator CHR '':''" "visible CHR ''[''" "\<not> is_separator CHR ''[''"
    "visible CHR '']''" "\<not> is_separator CHR '']''"
    by (simp_all add: visible_def code_def is_separator_def)
  have "visible c \<and> \<not> is_separator c" if "c \<in> set h"
    using assms(1)
  proof (cases rule: wf_host_cases)
    case name
    then show ?thesis using that by (simp add: host_char_def)
  next
    case (bracket b)
    then have "c = CHR ''['' \<or> c = CHR '']'' \<or> c \<in> set b" using that by auto
    then show ?thesis using bracket(2) const by (elim disjE) (simp_all only: bracket_char_def simp_thms)
  qed
  with const show ?thesis using assms(2) visible_digit by (auto simp: format_host_port_def)
qed

lemma format_host_port_ne [simp]: "format_host_port h p \<noteq> []"
  by (simp add: format_host_port_def)

lemma split_on_join_sep:
  assumes "\<forall>w\<in>set ws. \<forall>c\<in>set w. \<not> q c" "q x" "ws \<noteq> []"
  shows "split_on q (join [x] ws) = ws"
  using assms
proof (induction ws rule: induct_list012)
  case (2 w)
  then show ?case by (auto intro: split_on_none)
next
  case (3 w v ws)
  moreover have "split_on q (w @ x # join [x] (v # ws)) = w # split_on q (join [x] (v # ws))"
    using 3 by (intro split_on_append) auto
  ultimately show ?case by simp
qed simp

lemma join_hd_last:
  assumes "ws \<noteq> []" "\<forall>w\<in>set ws. w \<noteq> []"
  shows "join sep ws \<noteq> [] \<and> hd (join sep ws) = hd (hd ws) \<and> last (join sep ws) = last (last ws)"
  using assms
  by (induction ws rule: induct_list012) auto

lemma parse_server_list_canonical:
  assumes "ws \<noteq> []" "\<forall>w\<in>set ws. w \<noteq> [] \<and> trimmed w" "\<forall>w\<in>set ws. \<forall>c\<in>set w. \<not> is_separator c"
    "trimmed (join '','' ws)" "\<forall>w\<in>set ws. \<exists>h p. parse_host_port w = (h, Some p) \<and> format_host_port h p = w"
  shows "parse_server_list P (join '','' ws) = Inr ws"
proof -
  have "split_on is_separator (join '','' ws) = ws"
    using assms(1,3) by (intro split_on_join_sep) (auto simp: is_separator_def)
  moreover have "map trim ws = ws" using assms(2) trim_trimmed by (intro map_idI) blast
  moreover have "filter (\<lambda>addr. addr \<noteq> []) ws = ws" using assms(2) by (simp add: filter_id_conv)
  moreover have "map (\<lambda>addr. let (host, port) = parse_host_port addr in
        format_host_port host (case port of None \<Rightarrow> d | Some p \<Rightarrow> p)) ws = ws" for d
    using assms(5) by (intro map_idI) (auto split: prod.splits, fastforce)
  ultimately show ?thesis
    using assms(1) by (simp add: parse_server_list_def Let_def trim_trimmed[OF assms(4)] del: map_idI)
qed

lemma parse_server_list_formatted:
  assumes "hps \<noteq> []" "\<forall>(h, p)\<in>set hps. wf_host h"
  shows "parse_server_list P (join '','' (map (\<lambda>(h, p). format_host_port h p) hps))
       = Inr (map (\<lambda>(h, p). format_host_port h p) hps)"
proof -
  let ?f = "\<lambda>(h, p). format_host_port h p"
  let ?ws = "map ?f hps"
  have vis: "visible c \<and> \<not> is_separator c" if "w \<in> set ?ws" "c \<in> set w" for w c
    using that assms(2) format_host_port_visible by fastforce
  have ne: "\<forall>w\<in>set ?ws. w \<noteq> []" by auto
  have tw: "trimmed w" if "w \<in> set ?ws" for w
    using that ne vis[OF that] by (intro visible_trimmed) auto
  have "trimmed (join '','' ?ws)"
  proof (rule visible_trimmed)
    show "join '','' ?ws \<noteq> []" using join_hd_last[of ?ws] assms(1) ne by simp
    have "hd ?ws \<in> set ?ws" "last ?ws \<in> set ?ws"
      using assms(1) by (simp_all only: hd_in_set last_in_set list.map_disc_iff not_False_eq_True)
    then show "visible (hd (join '','' ?ws))" "visible (last (join '','' ?ws))"
      using join_hd_last[of ?ws "'',''"] assms(1) ne vis by (metis hd_in_set list.map_disc_iff, metis last_in_set list.map_disc_iff)
  qed
  moreover have "\<exists>h p. parse_host_port w = (h, Some p) \<and> format_host_port h p = w" if "w \<in> set ?ws" for w
    using that assms(2) parse_host_port_format by fastforce
  ultimately show ?thesis
    using assms(1) vis ne tw by (intro parse_server_list_canonical) auto
qed

lemma parse_host_port_vec_formatted:
  assumes "hps \<noteq> []" "\<forall>(h, p)\<in>set hps. wf_host h"
  shows "parse_host_port_vec (map (\<lambda>(h, p). format_host_port h p) hps) = Inr hps"
proof -
  have "List.map_filter (\<lambda>server. let (host, port) = parse_host_port server in map_option (Pair host) port)
      (map (\<lambda>(h, p). format_host_port h p) hps) = hps"
    using assms(2) by (induction hps) (auto simp: map_filter_simps parse_host_port_format)
  then show ?thesis using assms(1) by (simp add: parse_host_port_vec_def Let_def)
qed

text \<open>
  C38: an address list written as host:port entries separated by commas is parsed back to exactly
  these hosts and ports, in order, bracketed IPv6 addresses included, whatever the default port.
\<close>

theorem server_list_roundtrip:
  assumes "hps \<noteq> []" "\<forall>(h, p)\<in>set hps. wf_host h"
  shows "and_then (parse_server_list P (join '','' (map (\<lambda>(h, p). format_host_port h p) hps)))
    parse_host_port_vec = Inr hps"
  using parse_server_list_formatted[OF assms] parse_host_port_vec_formatted[OF assms] by simp

lemma server_list_roundtrip_witness:
  "and_then (parse_server_list Map.empty (join '','' (map (\<lambda>(h, p). format_host_port h p)
      [(''nacos-0'', 8848), (''[::1]'', 9848)]))) parse_host_port_vec
    = Inr [(''nacos-0'', 8848), (''[::1]'', 9848)]"
  by (rule server_list_roundtrip)
    (simp_all add: wf_host_def host_char_def bracket_char_def visible_def is_separator_def code_def)

end
