(* ===== verification/Providers.thy ===== *)
theory Providers
  imports ServerList
begin

text \<open>
  Server list providers (src/common/remote/server_list/provider.rs) and the round robin service
  over one (service.rs). What a provider promises is the locale \<open>server_list_provider\<close>: a
  well-formed provider always has a non-empty list and stays well-formed. It is interpreted on the
  model of the provider that \<^verbatim>\<open>create_server_list_provider\<close> returns.
\<close>

section \<open>Providers\<close>

text \<open>What the HTTP client does with the endpoint's URL.\<close>

datatype http_result =
    SendFailed string
  | StatusError string
  | BodyFailed string
  | Body string

definition fetch_server_list :: "props \<Rightarrow> string \<Rightarrow> http_result \<Rightarrow> string list result" where
  "fetch_server_list P endpoint_url resp =
    (case resp of
       SendFailed err \<Rightarrow> Err (WrongServerAddress (''Failed to fetch endpoint server list from '' @ endpoint_url @ '': '' @ err))
     | StatusError err \<Rightarrow> Err (WrongServerAddress (''Failed to fetch endpoint server list from '' @ endpoint_url @ '': '' @ err))
     | BodyFailed err \<Rightarrow> Err (WrongServerAddress (''Failed to read endpoint server list from '' @ endpoint_url @ '': '' @ err))
     | Body body \<Rightarrow> parse_server_list P body)"

text \<open>Times are milliseconds of the monotonic clock.\<close>

record EndpointServerListProvider =
  endpoint_url :: string
  refresh_interval :: nat
  cached_server_list :: "string list"
  last_refresh_at :: nat

definition endpoint_with_refresh_interval ::
    "string \<Rightarrow> string list \<Rightarrow> nat \<Rightarrow> nat \<Rightarrow> EndpointServerListProvider" where
  "endpoint_with_refresh_interval url initial interval now =
    \<lparr>endpoint_url = url, refresh_interval = interval, cached_server_list = initial, last_refresh_at = now\<rparr>"

definition endpoint_new :: "string \<Rightarrow> string list \<Rightarrow> nat \<Rightarrow> EndpointServerListProvider" where
  "endpoint_new url initial now = endpoint_with_refresh_interval url initial 30000 now"

definition should_refresh :: "nat \<Rightarrow> EndpointServerListProvider \<Rightarrow> bool" where
  "should_refresh now p = (refresh_interval p \<le> now - last_refresh_at p)"

text \<open>
  One call of \<^verbatim>\<open>current_server_list\<close>: \<open>t0\<close> is the time of the check, \<open>t1\<close> the time after the
  fetch and \<open>resp\<close> what the fetch got, if it was made.
\<close>

record fetch_env =
  env_props :: props
  t0 :: nat
  t1 :: nat
  resp :: http_result

definition endpoint_current ::
    "fetch_env \<Rightarrow> EndpointServerListProvider \<Rightarrow> string list \<times> EndpointServerListProvider" where
  "endpoint_current env p =
    (if \<not> should_refresh (t0 env) p then (cached_server_list p, p)
     else
       (let p1 = (case fetch_server_list (env_props env) (endpoint_url p) (resp env) of
                    Inr server_list \<Rightarrow> p\<lparr>cached_server_list := server_list\<rparr>
                  | Inl e \<Rightarrow> p);
            p2 = p1\<lparr>last_refresh_at := t1 env\<rparr>
        in (cached_server_list p2, p2)))"

datatype provider =
    StaticProvider "string list"
  | EndpointProvider EndpointServerListProvider

fun current_server_list :: "fetch_env \<Rightarrow> provider \<Rightarrow> string list \<times> provider" where
  "current_server_list env (StaticProvider l) = (l, StaticProvider l)"
| "current_server_list env (EndpointProvider p) =
    (let (l, p') = endpoint_current env p in (l, EndpointProvider p'))"

text \<open>
  The Url crate: \<open>url_parse\<close> (which fails on an invalid URL), the keys of the query, appending a
  query pair, and rendering. \<^verbatim>\<open>None\<close> is the panic of the two \<^verbatim>\<open>expect\<close> calls.
\<close>

definition build_endpoint_url ::
    "(string \<Rightarrow> 'u option) \<Rightarrow> ('u \<Rightarrow> string list) \<Rightarrow> (string \<Rightarrow> string \<Rightarrow> 'u \<Rightarrow> 'u) \<Rightarrow> ('u \<Rightarrow> string) \<Rightarrow>
      string \<Rightarrow> string \<Rightarrow> string option" where
  "build_endpoint_url url_parse query_keys append_pair url_string endpoint namespace =
    (let endpoint = trim endpoint;
         url = (if prefix ''http://'' endpoint \<or> prefix ''https://'' endpoint then url_parse endpoint
                else (let (host, port) = parse_host_port endpoint;
                          port = (case port of None \<Rightarrow> 8080 | Some p \<Rightarrow> p)
                      in url_parse (''http://'' @ host @ '':'' @ show_u16 port @ ''/nacos/serverlist'')));
         namespace = trim namespace
     in map_option (\<lambda>u. url_string
          (if namespace \<noteq> [] \<and> ''namespace'' \<notin> set (query_keys u) then append_pair ''namespace'' namespace u
           else u)) url)"

text \<open>
  \<^verbatim>\<open>create_server_list_provider\<close>: the endpoint, when there is one, takes priority over the server
  address. \<open>build_url\<close> is \<^verbatim>\<open>build_endpoint_url\<close> on the endpoint and the namespace (None: panic) and
  \<open>http\<close> what the HTTP client returns for a URL. The outer option is the panic.
\<close>

definition create_server_list_provider ::
    "props \<Rightarrow> (string \<Rightarrow> string \<Rightarrow> string option) \<Rightarrow> (string \<Rightarrow> http_result) \<Rightarrow> nat \<Rightarrow>
      string option \<Rightarrow> string \<Rightarrow> string \<Rightarrow> provider result option" where
  "create_server_list_provider P build_url http now endpoint namespace server_addr =
    (case endpoint of
       Some ep \<Rightarrow> map_option (\<lambda>url.
           and_then (fetch_server_list P url (http url)) (\<lambda>initial_list.
             Ok (EndpointProvider (endpoint_new url initial_list now))))
         (build_url ep namespace)
     | None \<Rightarrow> Some (and_then (parse_server_list P server_addr) (\<lambda>l. Ok (StaticProvider l))))"

fun provider_wf :: "provider \<Rightarrow> bool" where
  "provider_wf (StaticProvider l) = (l \<noteq> [])"
| "provider_wf (EndpointProvider p) = (cached_server_list p \<noteq> [])"

lemma fetch_server_list_nonempty: "fetch_server_list P u r = Inr l \<Longrightarrow> l \<noteq> []"
  by (auto simp: fetch_server_list_def parse_server_list_nonempty split: http_result.splits)

lemma endpoint_current_wf:
  "cached_server_list p \<noteq> [] \<Longrightarrow>
    fst (endpoint_current env p) \<noteq> [] \<and> cached_server_list (snd (endpoint_current env p)) \<noteq> []"
  by (auto simp: endpoint_current_def Let_def fetch_server_list_nonempty split: sum.splits)

lemma current_server_list_wf [wf_preserve]:
  "provider_wf p \<Longrightarrow> fst (current_server_list env p) \<noteq> [] \<and> provider_wf (snd (current_server_list env p))"
  by (cases p) (auto simp: endpoint_current_wf split: prod.splits dest: endpoint_current_wf[of _ env])

lemma endpoint_not_due: "\<not> should_refresh (t0 env) p \<Longrightarrow> endpoint_current env p = (cached_server_list p, p)"
  by (simp add: endpoint_current_def)

lemma endpoint_due_ok:
  "should_refresh (t0 env) p \<Longrightarrow> fetch_server_list (env_props env) (endpoint_url p) (resp env) = Inr l \<Longrightarrow>
    endpoint_current env p = (l, p\<lparr>cached_server_list := l, last_refresh_at := t1 env\<rparr>)"
  by (simp add: endpoint_current_def)

lemma endpoint_due_err:
  "should_refresh (t0 env) p \<Longrightarrow> fetch_server_list (env_props env) (endpoint_url p) (resp env) = Inl e \<Longrightarrow>
    endpoint_current env p = (cached_server_list p, p\<lparr>last_refresh_at := t1 env\<rparr>)"
  by (simp add: endpoint_current_def)

lemma create_provider_wf:
  "create_server_list_provider P build_url http now endpoint namespace server_addr = Some (Inr p) \<Longrightarrow> provider_wf p"
  by (auto simp: create_server_list_provider_def and_then_Ok endpoint_new_def endpoint_with_refresh_interval_def
      fetch_server_list_nonempty parse_server_list_nonempty split: option.splits)

section \<open>The round robin service\<close>

record 'p polling =
  provider :: 'p
  poll_index :: "64 word"

text \<open>\<open>rand\<close> is the random index; \<^verbatim>\<open>random_range\<close> panics on an empty range.\<close>

definition polling_from_provider ::
    "('p \<Rightarrow> string list \<times> 'p) \<Rightarrow> 64 word \<Rightarrow> 'p \<Rightarrow> 'p polling option" where
  "polling_from_provider current rand p =
    (let (initial_list, p') = current p
     in if initial_list = [] then None else Some \<lparr>provider = p', poll_index = rand\<rparr>)"

definition polling_call ::
    "('p \<Rightarrow> string list \<times> 'p) \<Rightarrow> 'p polling \<Rightarrow> (string \<times> 16 word) result \<times> 'p polling" where
  "polling_call current s =
    (let next_idx = poll_index s;
         (server_list, p') = current (provider s);
         s' = \<lparr>provider = p', poll_index = next_idx + 1\<rparr>
     in (and_then (parse_host_port_vec server_list) (\<lambda>parsed.
           Ok (parsed ! (unat next_idx mod length parsed))), s'))"

text \<open>The contract of a provider.\<close>

locale server_list_provider =
  fixes current :: "'e \<Rightarrow> 'p \<Rightarrow> string list \<times> 'p"
    and wf :: "'p \<Rightarrow> bool"
  assumes current_nonempty: "wf p \<Longrightarrow> fst (current e p) \<noteq> []"
    and current_wf: "wf p \<Longrightarrow> wf (snd (current e p))"
begin

lemma from_provider_no_panic: "wf p \<Longrightarrow> polling_from_provider (current e) r p \<noteq> None"
  using current_nonempty[of p e] by (auto simp: polling_from_provider_def split: prod.splits)

lemma call_wf: "wf (provider s) \<Longrightarrow> wf (provider (snd (polling_call (current e) s)))"
  using current_wf[of "provider s" e] by (auto simp: polling_call_def Let_def split: prod.splits)

text \<open>The only error is that no entry of the list has a port; else the address is one of the list.\<close>

lemma call_result:
  assumes "wf (provider s)"
  shows "case fst (polling_call (current e) s) of
      Inl err \<Rightarrow> err = WrongServerAddress ''all the server is illegal format!'' \<and>
        (\<forall>a\<in>set (fst (current e (provider s))). snd (parse_host_port a) = None)
    | Inr (h, p) \<Rightarrow> \<exists>a\<in>set (fst (current e (provider s))). parse_host_port a = (h, Some p)"
proof -
  obtain l p' where c: "current e (provider s) = (l, p')" by (cases "current e (provider s)")
  then have l: "l \<noteq> []" using current_nonempty[OF assms, of e] by simp
  let ?m = "List.map_filter (\<lambda>server. let (host, port) = parse_host_port server in map_option (Pair host) port) l"
  have mem: "(h, p) \<in> set ?m \<longleftrightarrow> (\<exists>a\<in>set l. parse_host_port a = (h, Some p))" for h p
    by (induction l) (auto simp: map_filter_simps split: option.splits prod.splits)
  show ?thesis
  proof (cases "?m = []")
    case True
    then have "\<forall>a\<in>set l. snd (parse_host_port a) = None"
      using mem by (metis empty_iff list.set(1) not_None_eq prod.collapse)
    then show ?thesis using True l c by (simp add: polling_call_def parse_host_port_vec_def)
  next
    case False
    obtain h p where hp: "?m ! (unat (poll_index s) mod length ?m) = (h, p)" by fastforce
    with False have "(h, p) \<in> set ?m" by (metis length_greater_0_conv mod_less_divisor nth_mem)
    then have "\<exists>a\<in>set l. parse_host_port a = (h, Some p)" using mem by blast
    then show ?thesis using False l c hp by (simp add: polling_call_def parse_host_port_vec_def Let_def)
  qed
qed

end

interpretation provider: server_list_provider current_server_list provider_wf
  by unfold_locales (simp_all add: current_server_list_wf)

text \<open>A run of calls, one environment each.\<close>

fun polling_run ::
    "('e \<Rightarrow> 'p \<Rightarrow> string list \<times> 'p) \<Rightarrow> 'e list \<Rightarrow> 'p polling \<Rightarrow> (string \<times> 16 word) result list \<times> 'p polling" where
  "polling_run current [] s = ([], s)"
| "polling_run current (e # es) s =
    (let (r, s1) = polling_call (current e) s; (rs, s2) = polling_run current es s1 in (r # rs, s2))"

lemma unat_suc_word: "unat (i :: 64 word) + 1 < 2 ^ 64 \<Longrightarrow> unat (i + 1) = unat i + 1"
  by (subst unat_word_ariths(1)) simp

lemma polling_run_static:
  assumes "parse_host_port_vec l = Inr parsed" "unat (poll_index s) + length es \<le> 2 ^ 64 - 1"
    "provider s = StaticProvider l"
  shows "fst (polling_run current_server_list es s) =
    map (\<lambda>j. Inr (parsed ! ((unat (poll_index s) + j) mod length parsed))) [0..<length es]"
  using assms(2,3)
proof (induction es arbitrary: s)
  case (Cons e es)
  let ?i = "poll_index s"
  let ?s1 = "\<lparr>provider = StaticProvider l, poll_index = ?i + 1\<rparr>"
  have i: "unat (?i + 1) = unat ?i + 1" using Cons.prems by (intro unat_suc_word) simp
  have call: "polling_call (current_server_list e) s = (Inr (parsed ! (unat ?i mod length parsed)), ?s1)"
    using assms(1) Cons.prems by (simp add: polling_call_def Let_def)
  have "fst (polling_run current_server_list es ?s1) =
      map ((\<lambda>j. Inr (parsed ! ((unat ?i + j) mod length parsed))) \<circ> Suc) [0..<length es]"
    using Cons.IH[of ?s1] Cons.prems i by simp
  then have "fst (polling_run current_server_list (e # es) s) =
      Inr (parsed ! ((unat ?i + 0) mod length parsed)) #
      map ((\<lambda>j. Inr (parsed ! ((unat ?i + j) mod length parsed))) \<circ> Suc) [0..<length es]"
    by (simp add: call case_prod_unfold)
  also have "\<dots> = map (\<lambda>j. Inr (parsed ! ((unat ?i + j) mod length parsed))) [0..<length (e # es)]"
    by (simp only: map_map[symmetric] map_Suc_upt upt_conv_Cons[of 0 "Suc (length es)"] zero_less_Suc
        list.map length_Cons)
  finally show ?case .
qed simp

lemma mset_rotation:
  assumes "n > 0"
  shows "image_mset (\<lambda>j. (i + j) mod n) (mset [0..<n]) = mset [0..<n]"
proof -
  have inj: "inj_on (\<lambda>j. (i + j) mod n) {0..<n}"
  proof (rule inj_onI)
    fix x y assume "x \<in> {0..<n}" "y \<in> {0..<n}" "(i + x) mod n = (i + y) mod n"
    then show "x = y" by (simp add: mod_eq_dvd_iff_nat) (metis (no_types, lifting) add_diff_cancel_left
          linorder_linear mod_eq_dvd_iff_nat mod_less nat_add_left_cancel_le)
  qed
  have "(\<lambda>j. (i + j) mod n) ` {0..<n} = {0..<n}"
    using assms inj by (intro endo_inj_surj) auto
  then show ?thesis using image_mset_mset_set[OF inj] by simp
qed

text \<open>
  round robin is fair: over a static list, any \<open>n\<close> consecutive calls, \<open>n\<close> being the number of
  usable servers, return every usable server exactly as often as it is listed (as long as the call
  counter does not wrap in between).
\<close>

lemma round_robin_fair:
  assumes "parse_host_port_vec l = Inr parsed" "provider s = StaticProvider l"
    "length es = length parsed" "unat (poll_index s) + length es \<le> 2 ^ 64 - 1"
  shows "mset (fst (polling_run current_server_list es s)) = image_mset Inr (mset parsed)"
proof -
  have n: "length parsed > 0" using parse_host_port_vec_nonempty[OF assms(1)] by simp
  have "mset (fst (polling_run current_server_list es s)) =
      image_mset (\<lambda>k. Inr (parsed ! k))
        (image_mset (\<lambda>j. (unat (poll_index s) + j) mod length parsed) (mset [0..<length parsed]))"
    by (simp add: polling_run_static[OF assms(1,4,2)] assms(3) multiset.map_comp comp_def)
  also have "\<dots> = image_mset Inr (mset (map (\<lambda>k. parsed ! k) [0..<length parsed]))"
    by (simp only: mset_rotation[OF n]) (simp add: multiset.map_comp comp_def)
  finally show ?thesis by (simp only: map_nth)
qed

lemma round_robin_fair_witness:
  "mset (fst (polling_run current_server_list
      [\<lparr>env_props = Map.empty, t0 = 0, t1 = 0, resp = Body []\<rparr>, \<lparr>env_props = Map.empty, t0 = 1, t1 = 1, resp = Body []\<rparr>]
      \<lparr>provider = StaticProvider [format_host_port ''a'' 1, format_host_port ''b'' 2], poll_index = 7\<rparr>))
    = image_mset Inr (mset [(''a'', 1), (''b'', 2)])"
  by (rule round_robin_fair[OF parse_host_port_vec_formatted[of "[(''a'', 1), (''b'', 2)]", simplified]])
    (simp_all add: wf_host_def host_char_def visible_def is_separator_def code_def)

text \<open>
  C37: a provider made by \<open>create_server_list_provider\<close> never makes the polling service panic, and
  every later call yields an address of the list it currently has, or the error that no entry of that
  list carries a port: a failed or empty refresh from the endpoint never loses the server list.
\<close>

theorem created_provider_serves:
  assumes "create_server_list_provider P build_url http now endpoint namespace server_addr = Some (Inr p)"
  shows "polling_from_provider (current_server_list e0) r p \<noteq> None \<and>
    (\<forall>s0 es. polling_from_provider (current_server_list e0) r p = Some s0 \<longrightarrow>
      provider_wf (provider (snd (polling_run current_server_list es s0))) \<and>
      (\<forall>res\<in>set (fst (polling_run current_server_list es s0)).
        res = Inl (WrongServerAddress ''all the server is illegal format!'') \<or> is_ok res))"
proof -
  have wf: "provider_wf p" by (rule create_provider_wf[OF assms])
  have run: "provider_wf (provider (snd (polling_run current_server_list es s))) \<and>
      (\<forall>res\<in>set (fst (polling_run current_server_list es s)).
        res = Inl (WrongServerAddress ''all the server is illegal format!'') \<or> is_ok res)"
    if "provider_wf (provider s)" for es s
    using that
  proof (induction es arbitrary: s)
    case (Cons e es)
    obtain r s1 where c: "polling_call (current_server_list e) s = (r, s1)"
      by (cases "polling_call (current_server_list e) s")
    have "provider_wf (provider s1)" using provider.call_wf[OF Cons.prems, of e] c by simp
    moreover have "r = Inl (WrongServerAddress ''all the server is illegal format!'') \<or> is_ok r"
      using provider.call_result[OF Cons.prems, of e] c by (auto simp: is_ok_iff split: sum.splits)
    ultimately show ?case using Cons.IH[of s1] c by (auto split: prod.splits)
  qed simp
  have "provider_wf (provider s0)" if "polling_from_provider (current_server_list e0) r p = Some s0" for s0
    using that provider.current_wf[OF wf, of e0]
    by (auto simp: polling_from_provider_def split: prod.splits if_splits)
  then show ?thesis using run provider.from_provider_no_panic[OF wf] by blast
qed

lemma created_provider_serves_witness:
  "polling_from_provider (current_server_list \<lparr>env_props = Map.empty, t0 = 0, t1 = 0, resp = Body []\<rparr>) 0
     (StaticProvider [format_host_port ''a'' 1]) \<noteq> None"
proof -
  have "create_server_list_provider Map.empty (\<lambda>_ _. None) (\<lambda>_. Body []) 0 None [] (format_host_port ''a'' 1)
      = Some (Inr (StaticProvider [format_host_port ''a'' 1]))"
    using parse_server_list_formatted[of "[(''a'', 1)]" Map.empty]
    by (simp add: create_server_list_provider_def wf_host_def host_char_def visible_def is_separator_def code_def)
  from created_provider_serves[OF this] show ?thesis by blast
qed

end
