(* ===== verification/Plugins.thy ===== *)
theory Plugins
  imports Common
begin

text \<open>
  Configuration filters and encryption (src/api/plugin/config\_filter.rs, encryption.rs). A filter is
  a pair of functions, its effect on a request and on a response; an encryption plugin is user code
  and is a record of functions. The code calls every filter with exactly one of the two arguments.
\<close>

record ConfigReq =
  rq_data_id :: string
  rq_group :: string
  rq_namespace :: string
  rq_content :: string
  rq_encrypted_data_key :: string

record ConfigResp =
  rp_data_id :: string
  rp_group :: string
  rp_namespace :: string
  rp_content :: string
  rp_encrypted_data_key :: string

definition ConfigReq_new :: "string \<Rightarrow> string \<Rightarrow> string \<Rightarrow> string \<Rightarrow> string \<Rightarrow> ConfigReq" where
  "ConfigReq_new d g n c k =
    \<lparr>rq_data_id = d, rq_group = g, rq_namespace = n, rq_content = c, rq_encrypted_data_key = k\<rparr>"

definition ConfigResp_new :: "string \<Rightarrow> string \<Rightarrow> string \<Rightarrow> string \<Rightarrow> string \<Rightarrow> ConfigResp" where
  "ConfigResp_new d g n c k =
    \<lparr>rp_data_id = d, rp_group = g, rp_namespace = n, rp_content = c, rp_encrypted_data_key = k\<rparr>"

record ConfigFilter =
  filter_req :: "ConfigReq \<Rightarrow> ConfigReq"
  filter_resp :: "ConfigResp \<Rightarrow> ConfigResp"

text \<open>The loops over the filters: in the order of the list, for requests and for responses.\<close>

definition apply_req_filters :: "ConfigFilter list \<Rightarrow> ConfigReq \<Rightarrow> ConfigReq" where
  "apply_req_filters fs r = fold filter_req fs r"

definition apply_resp_filters :: "ConfigFilter list \<Rightarrow> ConfigResp \<Rightarrow> ConfigResp" where
  "apply_resp_filters fs r = fold filter_resp fs r"

section \<open>Encryption plugins\<close>

definition DEFAULT_CIPHER_PREFIX :: string where "DEFAULT_CIPHER_PREFIX = ''cipher-''"

text \<open>\<open>generated_key\<close> is what \<^verbatim>\<open>generate_secret_key\<close> returns for this publish.\<close>

record EncryptionPlugin =
  encrypt :: "string \<Rightarrow> string \<Rightarrow> string"
  decrypt :: "string \<Rightarrow> string \<Rightarrow> string"
  generated_key :: string
  algorithm_name :: string
  encrypt_secret_key :: "string \<Rightarrow> string"
  decrypt_secret_key :: "string \<Rightarrow> string"

text \<open>None is the panic of the \<^verbatim>\<open>expect\<close>.\<close>

definition parse_algorithm_name :: "string \<Rightarrow> string option" where
  "parse_algorithm_name data_id =
    (let v = split_on (\<lambda>c. c = CHR ''-'') data_id in if length v < 2 then None else Some (v ! 1))"

definition need_cipher :: "EncryptionPlugin \<Rightarrow> string \<Rightarrow> bool" where
  "need_cipher p data_id =
    (prefix DEFAULT_CIPHER_PREFIX data_id \<and> parse_algorithm_name data_id = Some (algorithm_name p))"

fun encryption_filter_req :: "EncryptionPlugin list \<Rightarrow> ConfigReq \<Rightarrow> ConfigReq" where
  "encryption_filter_req [] r = r"
| "encryption_filter_req (p # ps) r =
    (if \<not> need_cipher p (rq_data_id r) then encryption_filter_req ps r
     else
       (let secret_key = generated_key p;
            encrypted_content = encrypt p secret_key (rq_content r);
            encrypted_secret_key = encrypt_secret_key p secret_key
        in r\<lparr>rq_encrypted_data_key := encrypted_secret_key, rq_content := encrypted_content\<rparr>))"

fun encryption_filter_resp_loop :: "EncryptionPlugin list \<Rightarrow> ConfigResp \<Rightarrow> ConfigResp" where
  "encryption_filter_resp_loop [] r = r"
| "encryption_filter_resp_loop (p # ps) r =
    (if \<not> need_cipher p (rp_data_id r) then encryption_filter_resp_loop ps r
     else
       (let decrypted_secret_key = decrypt_secret_key p (rp_encrypted_data_key r);
            decrypted_content = decrypt p decrypted_secret_key (rp_content r)
        in r\<lparr>rp_content := decrypted_content\<rparr>))"

definition encryption_filter_resp :: "EncryptionPlugin list \<Rightarrow> ConfigResp \<Rightarrow> ConfigResp" where
  "encryption_filter_resp ps r =
    (if rp_encrypted_data_key r \<noteq> [] then encryption_filter_resp_loop ps r else r)"

definition ConfigEncryptionFilter :: "EncryptionPlugin list \<Rightarrow> ConfigFilter" where
  "ConfigEncryptionFilter ps = \<lparr>filter_req = encryption_filter_req ps, filter_resp = encryption_filter_resp ps\<rparr>"

text \<open>The prefix guard keeps \<open>parse_algorithm_name\<close> from panicking.\<close>

lemma parse_algorithm_name_defined: "prefix DEFAULT_CIPHER_PREFIX data_id \<Longrightarrow> parse_algorithm_name data_id \<noteq> None"
proof -
  assume "prefix DEFAULT_CIPHER_PREFIX data_id"
  then obtain r where "data_id = ''cipher'' @ CHR ''-'' # r" by (auto simp: DEFAULT_CIPHER_PREFIX_def prefix_def)
  then have "split_on (\<lambda>c. c = CHR ''-'') data_id = ''cipher'' # split_on (\<lambda>c. c = CHR ''-'') r"
    by (simp only:) (rule split_on_append, simp_all)
  then show ?thesis using split_on_ne[of "\<lambda>c. c = CHR ''-''" r]
    by (cases "split_on (\<lambda>c. c = CHR ''-'') r") (auto simp: parse_algorithm_name_def)
qed

text \<open>What a correct plugin does: decryption undoes encryption and no key encrypts to the empty string.\<close>

definition plugin_ok :: "EncryptionPlugin \<Rightarrow> bool" where
  "plugin_ok p =
    ((\<forall>k c. decrypt p k (encrypt p k c) = c) \<and>
     (\<forall>k. decrypt_secret_key p (encrypt_secret_key p k) = k \<and> encrypt_secret_key p k \<noteq> []))"

lemma encryption_filter_req_keeps:
  "rq_data_id (encryption_filter_req ps r) = rq_data_id r"
  "rq_group (encryption_filter_req ps r) = rq_group r"
  "rq_namespace (encryption_filter_req ps r) = rq_namespace r"
  by (induction ps r rule: encryption_filter_req.induct) (auto simp: Let_def)

lemma encryption_none_needed:
  "\<forall>p\<in>set ps. \<not> need_cipher p (rq_data_id r) \<Longrightarrow> encryption_filter_req ps r = r"
  by (induction ps) auto

lemma encryption_loop_restores:
  assumes "\<forall>p\<in>set ps. plugin_ok p" "\<exists>p\<in>set ps. need_cipher p (rq_data_id r)"
    "r' = encryption_filter_req ps r"
  shows "rq_encrypted_data_key r' \<noteq> [] \<and>
    rp_content (encryption_filter_resp_loop ps (ConfigResp_new (rq_data_id r') g n (rq_content r') (rq_encrypted_data_key r')))
      = rq_content r"
  using assms
proof (induction ps)
  case (Cons p ps)
  show ?case
  proof (cases "need_cipher p (rq_data_id r)")
    case True
    then show ?thesis using Cons.prems by (simp add: plugin_ok_def ConfigResp_new_def)
  next
    case False
    then show ?thesis using Cons encryption_filter_req_keeps(1)[of ps r] by (simp add: ConfigResp_new_def)
  qed
qed simp

text \<open>
  C40: what a publish encrypts, a later get with the same plugins decrypts to the original content;
  a data id that no plugin handles goes through in clear both ways.
\<close>

theorem encryption_roundtrip:
  assumes "\<forall>p\<in>set ps. plugin_ok p"
    "r' = apply_req_filters [ConfigEncryptionFilter ps] (ConfigReq_new d g n c [])"
  shows "rp_content (apply_resp_filters [ConfigEncryptionFilter ps]
      (ConfigResp_new (rq_data_id r') (rq_group r') (rq_namespace r') (rq_content r') (rq_encrypted_data_key r'))) = c \<and>
    (rq_encrypted_data_key r' \<noteq> [] \<longleftrightarrow> (\<exists>p\<in>set ps. need_cipher p d))"
proof (cases "\<exists>p\<in>set ps. need_cipher p d")
  case True
  have r': "r' = encryption_filter_req ps (ConfigReq_new d g n c [])"
    using assms(2) by (simp add: apply_req_filters_def ConfigEncryptionFilter_def)
  then show ?thesis
    using encryption_loop_restores[OF assms(1) _ r'] True
    by (simp add: apply_resp_filters_def ConfigEncryptionFilter_def encryption_filter_resp_def)
      (simp add: ConfigReq_new_def ConfigResp_new_def)
next
  case False
  then have "r' = ConfigReq_new d g n c []"
    using assms(2) encryption_none_needed[of ps "ConfigReq_new d g n c []"]
    by (simp add: apply_req_filters_def ConfigEncryptionFilter_def ConfigReq_new_def)
  then show ?thesis using False
    by (simp add: apply_resp_filters_def ConfigEncryptionFilter_def encryption_filter_resp_def
        ConfigReq_new_def ConfigResp_new_def)
qed

definition xor_like_plugin :: EncryptionPlugin where
  "xor_like_plugin = \<lparr>encrypt = (\<lambda>k c. rev (k @ c)), decrypt = (\<lambda>k c. drop (length k) (rev c)),
     generated_key = ''secret'', algorithm_name = ''AES'', encrypt_secret_key = (\<lambda>k. CHR ''#'' # k),
     decrypt_secret_key = tl\<rparr>"

lemma encryption_roundtrip_witness:
  "rp_content (apply_resp_filters [ConfigEncryptionFilter [xor_like_plugin]]
      (ConfigResp_new ''cipher-AES-id'' ''G'' ''N'' (rev ''secretpayload'') ''#secret'')) = ''payload''"
proof -
  have r': "apply_req_filters [ConfigEncryptionFilter [xor_like_plugin]] (ConfigReq_new ''cipher-AES-id'' ''G'' ''N'' ''payload'' [])
      = ConfigReq_new ''cipher-AES-id'' ''G'' ''N'' (rev ''secretpayload'') ''#secret''"
    by (simp add: apply_req_filters_def ConfigEncryptionFilter_def ConfigReq_new_def xor_like_plugin_def
        need_cipher_def DEFAULT_CIPHER_PREFIX_def parse_algorithm_name_def Let_def)
  have "\<forall>p\<in>set [xor_like_plugin]. plugin_ok p" by (simp add: plugin_ok_def xor_like_plugin_def)
  from encryption_roundtrip[OF this r'[symmetric]] show ?thesis by (simp add: ConfigReq_new_def)
qed

end
