(* ===== verification/ConfigData.thy ===== *)
theory ConfigData
  imports Plugins Messages
begin

text \<open>
  One cached configuration with its listeners (src/config/cache.rs, and \<^verbatim>\<open>ConfigResponse\<close> of
  src/api/config.rs). Listeners are compared by pointer; their type variable stands for the pointer.
  The contract of a registry of listeners is the locale \<open>listener_registry\<close>, which the naming
  observers provide too.
\<close>

section \<open>Listener registries\<close>

datatype 'l registry_op = AddListener 'l | RemoveListener 'l

fun registry_apply :: "('l \<Rightarrow> 's \<Rightarrow> 's) \<Rightarrow> ('l \<Rightarrow> 's \<Rightarrow> 's) \<Rightarrow> 'l registry_op \<Rightarrow> 's \<Rightarrow> 's" where
  "registry_apply add remove (AddListener l) s = add l s"
| "registry_apply add remove (RemoveListener l) s = remove l s"

text \<open>Who is registered after a sequence of calls: those whose last call was an add.\<close>

fun registry_replay :: "'l registry_op list \<Rightarrow> 'l set \<Rightarrow> 'l set" where
  "registry_replay [] A = A"
| "registry_replay (AddListener l # ops) A = registry_replay ops (insert l A)"
| "registry_replay (RemoveListener l # ops) A = registry_replay ops (A - {l})"

lemma replay_untouched:
  "\<forall>x\<in>set ops. x \<noteq> AddListener l \<and> x \<noteq> RemoveListener l \<Longrightarrow> l \<in> registry_replay ops A \<longleftrightarrow> l \<in> A"
proof (induction ops arbitrary: A)
  case (Cons x ops)
  then show ?case by (cases x) auto
qed simp

locale listener_registry =
  fixes members :: "'s \<Rightarrow> 'l list"
    and add :: "'l \<Rightarrow> 's \<Rightarrow> 's"
    and remove :: "'l \<Rightarrow> 's \<Rightarrow> 's"
  assumes add_members: "distinct (members s) \<Longrightarrow> distinct (members (add l s)) \<and> set (members (add l s)) = insert l (set (members s))"
    and remove_members: "distinct (members s) \<Longrightarrow> distinct (members (remove l s)) \<and> set (members (remove l s)) = set (members s) - {l}"
begin

lemma replay_members:
  "distinct (members s) \<Longrightarrow>
    distinct (members (fold (registry_apply add remove) ops s)) \<and>
    set (members (fold (registry_apply add remove) ops s)) = registry_replay ops (set (members s))"
proof (induction ops arbitrary: s)
  case (Cons x ops)
  then show ?case
    using add_members remove_members by (cases x) auto
qed simp

text \<open>The last call for a listener decides, whatever is done for others afterwards.\<close>

lemma last_op_decides:
  assumes "distinct (members s)" "\<forall>x\<in>set ops. x \<noteq> AddListener l \<and> x \<noteq> RemoveListener l"
  shows "l \<in> set (members (fold (registry_apply add remove) ops (add l s)))"
    "l \<notin> set (members (fold (registry_apply add remove) ops (remove l s)))"
  using replay_members[of "add l s" ops] replay_members[of "remove l s" ops] replay_untouched[OF assms(2)]
    add_members[OF assms(1)] remove_members[OF assms(1)] by auto

end

section \<open>Data\<close>

record ConfigResponse =
  cresp_namespace :: string
  cresp_data_id :: string
  cresp_group :: string
  cresp_content :: string
  cresp_content_type :: string
  cresp_md5 :: string

definition ConfigResponse_new :: "string \<Rightarrow> string \<Rightarrow> string \<Rightarrow> string \<Rightarrow> string \<Rightarrow> string \<Rightarrow> ConfigResponse" where
  "ConfigResponse_new d g n c t m =
    \<lparr>cresp_namespace = n, cresp_data_id = d, cresp_group = g, cresp_content = c, cresp_content_type = t,
     cresp_md5 = m\<rparr>"

record 'l ListenerWrapper =
  last_md5 :: string
  lw_listener :: 'l

definition ListenerWrapper_new :: "'l \<Rightarrow> 'l ListenerWrapper" where
  "ListenerWrapper_new l = \<lparr>last_md5 = [], lw_listener = l\<rparr>"

record 'l CacheData =
  cd_data_id :: string
  cd_group :: string
  cd_namespace :: string
  cd_content_type :: string
  cd_content :: string
  cd_md5 :: string
  cd_encrypted_data_key :: string
  cd_last_modified :: "64 word"
  cd_initializing :: bool
  cd_listeners :: "'l ListenerWrapper list"
  cd_config_filters :: "ConfigFilter list"

definition CacheData_new :: "ConfigFilter list \<Rightarrow> string \<Rightarrow> string \<Rightarrow> string \<Rightarrow> 'l CacheData" where
  "CacheData_new fs d g n =
    \<lparr>cd_data_id = d, cd_group = g, cd_namespace = n, cd_content_type = ''text'', cd_content = [],
     cd_md5 = [], cd_encrypted_data_key = [], cd_last_modified = 0, cd_initializing = True,
     cd_listeners = [], cd_config_filters = fs\<rparr>"

text \<open>
  What serialization keeps: the fields marked \<^verbatim>\<open>serde(skip)\<close> come back with their defaults.
\<close>

definition CacheData_persisted :: "'l CacheData \<Rightarrow> 'l CacheData" where
  "CacheData_persisted c = c\<lparr>cd_initializing := False, cd_listeners := [], cd_config_filters := []\<rparr>"

section \<open>Listeners\<close>

text \<open>\<^verbatim>\<open>Iterator::position\<close> and \<^verbatim>\<open>Vec::swap_remove\<close>.\<close>

fun position :: "('a \<Rightarrow> bool) \<Rightarrow> 'a list \<Rightarrow> nat option" where
  "position p [] = None"
| "position p (x # xs) = (if p x then Some 0 else map_option Suc (position p xs))"

definition swap_remove :: "nat \<Rightarrow> 'a list \<Rightarrow> 'a list" where
  "swap_remove i xs = butlast (xs[i := last xs])"

definition index_of_listener :: "'l ListenerWrapper list \<Rightarrow> 'l \<Rightarrow> nat option" where
  "index_of_listener ws l = position (\<lambda>w. lw_listener w = l) ws"

definition add_listener :: "'l \<Rightarrow> 'l CacheData \<Rightarrow> 'l CacheData" where
  "add_listener l c =
    (if index_of_listener (cd_listeners c) l \<noteq> None then c
     else c\<lparr>cd_listeners := cd_listeners c @ [ListenerWrapper_new l]\<rparr>)"

definition remove_listener :: "'l \<Rightarrow> 'l CacheData \<Rightarrow> 'l CacheData" where
  "remove_listener l c =
    (case index_of_listener (cd_listeners c) l of
       None \<Rightarrow> c
     | Some idx \<Rightarrow> c\<lparr>cd_listeners := swap_remove idx (cd_listeners c)\<rparr>)"

text \<open>The notifications \<^verbatim>\<open>dispatch_notify\<close> spawns, in order, and the updated entry.\<close>

definition dispatch_notify :: "ConfigResponse \<Rightarrow> 'l CacheData \<Rightarrow> ('l \<times> ConfigResponse) list \<times> 'l CacheData" where
  "dispatch_notify resp c =
    (map (\<lambda>w. (lw_listener w, resp)) (filter (\<lambda>w. last_md5 w \<noteq> cd_md5 c) (cd_listeners c)),
     c\<lparr>cd_listeners := map (\<lambda>w. if last_md5 w = cd_md5 c then w else w\<lparr>last_md5 := cd_md5 c\<rparr>) (cd_listeners c)\<rparr>)"

type_synonym RespSnapshot = "ConfigFilter list \<times> ConfigResp \<times> string \<times> string"

definition resp_snapshot :: "'l CacheData \<Rightarrow> RespSnapshot" where
  "resp_snapshot c =
    (cd_config_filters c,
     ConfigResp_new (cd_data_id c) (cd_group c) (cd_namespace c) (cd_content c) (cd_encrypted_data_key c),
     cd_content_type c, cd_md5 c)"

fun filtered_response :: "RespSnapshot \<Rightarrow> ConfigResponse" where
  "filtered_response (filters, conf_resp, content_type, md5) =
    (let r = apply_resp_filters filters conf_resp
     in ConfigResponse_new (rp_data_id r) (rp_group r) (rp_namespace r) (rp_content r) content_type md5)"

definition get_config_resp_after_filter :: "'l CacheData \<Rightarrow> ConfigResponse" where
  "get_config_resp_after_filter c = filtered_response (resp_snapshot c)"

definition notify_listener :: "'l CacheData \<Rightarrow> ('l \<times> ConfigResponse) list \<times> 'l CacheData" where
  "notify_listener c = dispatch_notify (get_config_resp_after_filter c) c"

subsection \<open>Lemmas\<close>

lemma position_Some: "position p xs = Some i \<Longrightarrow> i < length xs \<and> p (xs ! i)"
  by (induction xs arbitrary: i) (auto split: if_splits)

lemma position_None: "position p xs = None \<longleftrightarrow> (\<forall>x\<in>set xs. \<not> p x)"
  by (induction xs) auto

lemma mset_swap_remove: "i < length xs \<Longrightarrow> add_mset (xs ! i) (mset (swap_remove i xs)) = mset xs"
proof -
  assume i: "i < length xs"
  then have ne: "xs \<noteq> []" by auto
  let ?ys = "xs[i := last xs]"
  have "last ?ys = last xs" using i ne by (auto simp: last_list_update)
  then have "mset ?ys = add_mset (last xs) (mset (butlast ?ys))"
    using ne append_butlast_last_id[of ?ys] by (metis add_mset_add_single length_greater_0_conv length_list_update
        list.size(3) mset.simps(1) mset.simps(2) mset_append)
  moreover have "mset ?ys = add_mset (last xs) (mset xs - {#xs ! i#})"
    by (rule mset_update[OF i])
  ultimately have "mset (butlast ?ys) = mset xs - {#xs ! i#}" by simp
  then show ?thesis using i by (simp add: swap_remove_def)
qed

abbreviation listeners_of :: "'l CacheData \<Rightarrow> 'l list" where
  "listeners_of c \<equiv> map lw_listener (cd_listeners c)"

lemma add_listener_members:
  "distinct (listeners_of c) \<Longrightarrow>
    distinct (listeners_of (add_listener l c)) \<and> set (listeners_of (add_listener l c)) = insert l (set (listeners_of c))"
  by (cases "index_of_listener (cd_listeners c) l")
    (auto simp: add_listener_def index_of_listener_def position_None ListenerWrapper_new_def dest: position_Some)

lemma remove_listener_mset:
  "mset (listeners_of (remove_listener l c)) = mset (listeners_of c) - {#l#}"
proof (cases "index_of_listener (cd_listeners c) l")
  case None
  then have "l \<notin> set (listeners_of c)" by (auto simp: index_of_listener_def position_None)
  then show ?thesis using None by (simp add: remove_listener_def diff_single_trivial)
next
  case (Some i)
  then have i: "i < length (cd_listeners c)" "lw_listener (cd_listeners c ! i) = l"
    by (auto simp: index_of_listener_def dest: position_Some)
  from mset_swap_remove[OF i(1)]
  have "image_mset lw_listener (add_mset (cd_listeners c ! i) (mset (swap_remove i (cd_listeners c))))
      = image_mset lw_listener (mset (cd_listeners c))" by simp
  then have "add_mset l (image_mset lw_listener (mset (swap_remove i (cd_listeners c))))
      = image_mset lw_listener (mset (cd_listeners c))" using i by simp
  then show ?thesis using Some by (simp add: remove_listener_def) (metis add_mset_remove_trivial)
qed

lemma remove_listener_members:
  assumes "distinct (listeners_of c)"
  shows "distinct (listeners_of (remove_listener l c)) \<and>
    set (listeners_of (remove_listener l c)) = set (listeners_of c) - {l}"
proof -
  have "mset (listeners_of (remove_listener l c)) = mset (remove1 l (listeners_of c))"
    by (simp only: remove_listener_mset mset_remove1)
  then have "distinct (listeners_of (remove_listener l c)) = distinct (remove1 l (listeners_of c))"
    "set (listeners_of (remove_listener l c)) = set (remove1 l (listeners_of c))"
    by (rule mset_eq_imp_distinct_iff, rule mset_eq_setD)
  then show ?thesis using assms by (simp add: distinct_remove1 set_remove1_eq)
qed

interpretation config_listeners: listener_registry listeners_of add_listener remove_listener
  by unfold_locales (simp_all only: add_listener_members remove_listener_members)

lemma dispatch_listeners: "listeners_of (snd (dispatch_notify r c)) = listeners_of c"
  by (simp add: dispatch_notify_def)

lemma dispatch_twice: "fst (dispatch_notify r' (snd (dispatch_notify r c))) = []"
  by (auto simp: dispatch_notify_def filter_empty_conv)

lemma dispatch_notified: "fst ` set (fst (dispatch_notify r c)) = {lw_listener w | w. w \<in> set (cd_listeners c) \<and> last_md5 w \<noteq> cd_md5 c}"
  by (force simp: dispatch_notify_def)

text \<open>
  C32: over any sequence of \<open>add_listener\<close> and \<open>remove_listener\<close> calls on a configuration, a listener is
  registered exactly when its last call was an add, and never more than once, so one change never
  notifies a listener twice.
\<close>

theorem config_listeners_replay:
  assumes "distinct (listeners_of c)"
  shows "distinct (listeners_of (fold (registry_apply add_listener remove_listener) ops c)) \<and>
    set (listeners_of (fold (registry_apply add_listener remove_listener) ops c)) =
      registry_replay ops (set (listeners_of c))"
  using config_listeners.replay_members[OF assms] .

lemma config_listeners_replay_witness:
  "set (listeners_of (fold (registry_apply add_listener remove_listener)
      [AddListener (1::nat), AddListener 2, AddListener 1, RemoveListener 2] (CacheData_new [] ''d'' ''g'' ''n''))) = {1}"
proof -
  have "distinct (listeners_of (CacheData_new [] ''d'' ''g'' ''n'' :: nat CacheData))" by (simp add: CacheData_new_def)
  from config_listeners_replay[OF this, of "[AddListener 1, AddListener 2, AddListener 1, RemoveListener 2]"]
  have "set (listeners_of (fold (registry_apply add_listener remove_listener)
      [AddListener (1::nat), AddListener 2, AddListener 1, RemoveListener 2] (CacheData_new [] ''d'' ''g'' ''n'')))
    = registry_replay [AddListener 1, AddListener 2, AddListener 1, RemoveListener 2]
        (set (listeners_of (CacheData_new [] ''d'' ''g'' ''n'')))" by (rule conjunct2)
  also have "\<dots> = {1}" by (auto simp: CacheData_new_def)
  finally show ?thesis .
qed

section \<open>Display\<close>

text \<open>The characters of a UTF-8 string: a first byte with the continuation bytes after it.\<close>

definition is_continuation :: "char \<Rightarrow> bool" where
  "is_continuation c = (128 \<le> code c \<and> code c < 192)"

function utf8_chars :: "string \<Rightarrow> string list" where
  "utf8_chars [] = []"
| "utf8_chars (c # cs) = (c # takeWhile is_continuation cs) # utf8_chars (dropWhile is_continuation cs)"
  by pat_completeness auto
termination
  by (relation "measure length") (auto simp: less_Suc_eq_le length_dropWhile_le)

text \<open>Both print at most 30 characters of the content.\<close>

definition display_content :: "string \<Rightarrow> string" where
  "display_content content =
    (if 30 < length (utf8_chars content) then concat (take 30 (utf8_chars content)) @ ''...'' else content)"

definition ConfigResponse_display :: "ConfigResponse \<Rightarrow> string" where
  "ConfigResponse_display r =
    ''ConfigResponse(namespace='' @ cresp_namespace r @ '',data_id='' @ cresp_data_id r @ '',group='' @ cresp_group r @
    '',md5='' @ cresp_md5 r @ '',content='' @ display_content (cresp_content r) @ '')''"

definition CacheData_display :: "'l CacheData \<Rightarrow> string" where
  "CacheData_display c =
    ''CacheData(namespace='' @ cd_namespace c @ '',data_id='' @ cd_data_id c @ '',group='' @ cd_group c @
    '',md5='' @ cd_md5 c @ '',encrypted_data_key='' @ cd_encrypted_data_key c @ '',content_type='' @ cd_content_type c @
    '',content='' @ display_content (cd_content c) @ '')''"

lemma concat_utf8_chars: "concat (utf8_chars s) = s"
  by (induction s rule: utf8_chars.induct) auto

lemma utf8_char_parts: "x \<in> set (utf8_chars s) \<Longrightarrow> x \<noteq> [] \<and> (\<forall>c\<in>set (tl x). is_continuation c)"
  by (induction s rule: utf8_chars.induct) (auto dest: set_takeWhileD)

text \<open>What is printed is the content, or a part of it cut between two characters, marked as such.\<close>

lemma display_content_cut:
  obtains rest where "content = concat (take 30 (utf8_chars content)) @ rest"
    "display_content content = (if rest = [] then content else concat (take 30 (utf8_chars content)) @ ''...'')"
    "\<forall>c cs. rest = c # cs \<longrightarrow> rest = concat (drop 30 (utf8_chars content))"
proof -
  let ?cs = "utf8_chars content" let ?rest = "concat (drop 30 ?cs)"
  have e: "content = concat (take 30 ?cs) @ ?rest"
    by (metis append_take_drop_id concat_append concat_utf8_chars)
  have "?rest = [] \<longleftrightarrow> length ?cs \<le> 30"
    using utf8_char_parts[of _ content] by (auto simp: concat_eq_Nil_conv dest: in_set_dropD)
      (metis drop_eq_Nil hd_in_set in_set_dropD)
  then show thesis using e by (intro that[of ?rest]) (auto simp: display_content_def)
qed

end
