(* ===== verification/Observable.thy ===== *)
theory Observable
  imports ServiceInfo ConfigData Cache
begin

text \<open>
  Service pushes and their observers (src/naming/observable/service\_info\_observable.rs) and the push
  handler (src/naming/handler). The emitter decides whether a pushed service differs from the cached
  one, stores it and queues an event; the observer task delivers each event to the listeners of its
  key.
\<close>

section \<open>Observers\<close>

type_synonym 'l observers = "string \<rightharpoonup> 'l list"

text \<open>\<^verbatim>\<open>Vec::remove\<close> of an index.\<close>

definition vec_remove :: "nat \<Rightarrow> 'a list \<Rightarrow> 'a list" where
  "vec_remove i xs = take i xs @ drop (Suc i) xs"

definition observer_index :: "'l list \<Rightarrow> 'l \<Rightarrow> nat option" where
  "observer_index ls l = position (\<lambda>s. s = l) ls"

definition subscribe :: "string \<Rightarrow> 'l \<Rightarrow> 'l observers \<Rightarrow> 'l observers" where
  "subscribe key l m =
    (case m key of
       Some ls \<Rightarrow>
         (let ls = (case observer_index ls l of Some i \<Rightarrow> vec_remove i ls | None \<Rightarrow> ls)
          in m(key \<mapsto> ls @ [l]))
     | None \<Rightarrow> m(key \<mapsto> [l]))"

definition unsubscribe :: "string \<Rightarrow> 'l \<Rightarrow> 'l observers \<Rightarrow> 'l observers" where
  "unsubscribe key l m =
    (case m key of
       None \<Rightarrow> m
     | Some ls \<Rightarrow>
         (case observer_index ls l of
            None \<Rightarrow> m
          | Some i \<Rightarrow> m(key \<mapsto> vec_remove i ls)))"

record NamingChangeEvent =
  ev_service_name :: string
  ev_group_name :: string
  ev_clusters :: string
  ev_instances :: "ServiceInstance list option"

text \<open>One event of the observer task: who is notified of what.\<close>

definition observe_one :: "ServiceInfo \<Rightarrow> 'l observers \<Rightarrow> ('l \<times> NamingChangeEvent) list" where
  "observe_one s m =
    (case m (get_key_without_clusters (name s) (group_name s)) of
       None \<Rightarrow> []
     | Some ls \<Rightarrow>
         if ls = [] then []
         else
           (let ev = \<lparr>ev_service_name = name s, ev_group_name = group_name s, ev_clusters = clusters s,
                      ev_instances = hosts s\<rparr>
            in map (\<lambda>l. (l, ev)) ls))"

definition observers_of :: "string \<Rightarrow> 'l observers \<Rightarrow> 'l list" where
  "observers_of key m = (case m key of None \<Rightarrow> [] | Some ls \<Rightarrow> ls)"

lemma vec_remove_mset: "i < length xs \<Longrightarrow> add_mset (xs ! i) (mset (vec_remove i xs)) = mset xs"
  by (metis add_mset_add_single id_take_nth_drop mset.simps(2) mset_append union_mset_add_mset_right vec_remove_def)

lemma vec_remove_distinct:
  assumes "i < length xs" "distinct xs"
  shows "distinct (vec_remove i xs) \<and> set (vec_remove i xs) = set xs - {xs ! i}"
proof -
  have "xs = take i xs @ xs ! i # drop (Suc i) xs" using assms(1) by (rule id_take_nth_drop)
  then have "distinct (take i xs @ xs ! i # drop (Suc i) xs)" "set xs = set (take i xs @ xs ! i # drop (Suc i) xs)"
    using assms(2) by simp_all
  then show ?thesis by (auto simp: vec_remove_def)
qed

lemma observer_index_Some: "observer_index ls l = Some i \<Longrightarrow> i < length ls \<and> ls ! i = l"
  by (auto simp: observer_index_def dest: position_Some)

lemma observer_index_None: "observer_index ls l = None \<longleftrightarrow> l \<notin> set ls"
  by (auto simp: observer_index_def position_None)

lemma subscribe_members:
  assumes "distinct (observers_of key m)"
  shows "distinct (observers_of key (subscribe key l m)) \<and>
    set (observers_of key (subscribe key l m)) = insert l (set (observers_of key m))"
proof (cases "m key")
  case None
  then show ?thesis by (simp add: observers_of_def subscribe_def)
next
  case (Some ls)
  then have d: "distinct ls" using assms by (simp add: observers_of_def)
  show ?thesis
  proof (cases "observer_index ls l")
    case None
    then show ?thesis using Some d by (simp add: observers_of_def subscribe_def) (simp add: observer_index_None)
  next
    case i: (Some i)
    from vec_remove_distinct[of i ls] d observer_index_Some[OF i] show ?thesis
      using Some i by (auto simp: observers_of_def subscribe_def)
  qed
qed

lemma unsubscribe_members:
  assumes "distinct (observers_of key m)"
  shows "distinct (observers_of key (unsubscribe key l m)) \<and>
    set (observers_of key (unsubscribe key l m)) = set (observers_of key m) - {l}"
proof (cases "m key")
  case None
  then show ?thesis by (simp add: observers_of_def unsubscribe_def)
next
  case (Some ls)
  then have d: "distinct ls" using assms by (simp add: observers_of_def)
  show ?thesis
  proof (cases "observer_index ls l")
    case None
    then show ?thesis using Some d by (simp add: observers_of_def unsubscribe_def) (simp add: observer_index_None)
  next
    case i: (Some i)
    from vec_remove_distinct[of i ls] d observer_index_Some[OF i] show ?thesis
      using Some i by (auto simp: observers_of_def unsubscribe_def)
  qed
qed

interpretation naming_observers: listener_registry "observers_of key" "subscribe key" "unsubscribe key"
  by unfold_locales (simp_all only: subscribe_members unsubscribe_members)

lemma other_key_untouched:
  "k \<noteq> key \<Longrightarrow> observers_of k (subscribe key l m) = observers_of k m"
  "k \<noteq> key \<Longrightarrow> observers_of k (unsubscribe key l m) = observers_of k m"
  by (auto simp: observers_of_def subscribe_def unsubscribe_def split: option.splits)

lemma observe_one_listeners:
  "map fst (observe_one s m) = observers_of (get_key_without_clusters (name s) (group_name s)) m"
  by (auto simp: observe_one_def observers_of_def comp_def split: option.splits)

section \<open>The emitter\<close>

record emitter =
  e_cache :: "ServiceInfo cache"
  push_empty_protection :: bool

definition is_empty_or_error_push :: "emitter \<Rightarrow> ServiceInfo \<Rightarrow> bool" where
  "is_empty_or_error_push e s = (hosts s = None \<or> (push_empty_protection e \<and> \<not> validate s))"

definition is_changed_service_info :: "ServiceInfo option \<Rightarrow> ServiceInfo \<Rightarrow> bool" where
  "is_changed_service_info old_service new_service =
    (case old_service of
       None \<Rightarrow> True
     | Some old \<Rightarrow>
         if is_outdated_data old new_service then False
         else if hosts new_service = None \<and> hosts old = None then False
         else if hosts new_service = None \<or> hosts old = None then True
         else changed (diff_calculate (case hosts old of None \<Rightarrow> [] | Some h \<Rightarrow> h)
                (case hosts new_service of None \<Rightarrow> [] | Some h \<Rightarrow> h)))"

definition process_service_info :: "ServiceInfo to_vec \<Rightarrow> ServiceInfo \<Rightarrow> emitter \<Rightarrow> bool \<times> emitter \<times> store_cmd list" where
  "process_service_info to_vec s e =
    (if is_empty_or_error_push e s then (False, e, [])
     else
       (let key = get_key_without_clusters (name s) (group_name s);
            old_service = cache_get (e_cache e) key;
            chg = is_changed_service_info old_service s
        in if chg then
             (let (_, c', cmds) = cache_insert to_vec key s (e_cache e) in (True, e\<lparr>e_cache := c'\<rparr>, cmds))
           else (False, e, [])))"

text \<open>The service that \<^verbatim>\<open>emit\<close> puts on the observers' channel, if any.\<close>

definition emit :: "ServiceInfo to_vec \<Rightarrow> ServiceInfo \<Rightarrow> emitter \<Rightarrow> ServiceInfo option \<times> emitter \<times> store_cmd list" where
  "emit to_vec s e =
    (let (notify, e', cmds) = process_service_info to_vec s e
     in (if notify then Some s else None, e', cmds))"

text \<open>A sequence of pushes: the events, in order.\<close>

fun emit_all :: "ServiceInfo to_vec \<Rightarrow> ServiceInfo list \<Rightarrow> emitter \<Rightarrow> ServiceInfo list \<times> emitter" where
  "emit_all to_vec [] e = ([], e)"
| "emit_all to_vec (s # ss) e =
    (let (ev, e1, _) = emit to_vec s e; (evs, e2) = emit_all to_vec ss e1
     in ((case ev of None \<Rightarrow> evs | Some x \<Rightarrow> x # evs), e2))"

text \<open>The push handler: the reply, and the effect of \<^verbatim>\<open>emit\<close>.\<close>

record NotifySubscriberRequest = grpc_request +
  ns_service_info :: ServiceInfo

definition NamingPush_reply ::
    "ServiceInfo to_vec \<Rightarrow> NotifySubscriberRequest from_slice \<Rightarrow> grpc_response from_slice \<Rightarrow> grpc_response to_vec \<Rightarrow>
      string \<Rightarrow> payload \<Rightarrow> emitter \<Rightarrow> payload option \<times> ServiceInfo option \<times> emitter" where
  "NamingPush_reply si_to_vec from_slice err_slice to_vec local_ip request e =
    (case from_payload ''NotifySubscriberRequest'' from_slice err_slice request of
       Inl err \<Rightarrow> (None, None, e)
     | Inr m \<Rightarrow>
         (let body = gm_body m;
              (ev, e', _) = emit si_to_vec (ns_service_info body) e;
              response = response_ok\<lparr>response_id := request_id body\<rparr>
          in (case into_payload ''NotifySubscriberResponse'' to_vec (builder_build (builder_new local_ip response)) of
                Inl err \<Rightarrow> None
              | Inr p \<Rightarrow> Some p, ev, e')))"

section \<open>Properties\<close>

definition service_key :: "ServiceInfo \<Rightarrow> string" where
  "service_key s = get_key_without_clusters (name s) (group_name s)"

lemma emit_cases:
  obtains (skip) "emit to_vec s e = (None, e, [])"
  | (store) cmds where "emit to_vec s e = (Some s, e\<lparr>e_cache := cache_put to_vec (service_key s) s (e_cache e)\<rparr>, cmds)"
      "\<not> is_empty_or_error_push e s" "is_changed_service_info (cache_get (e_cache e) (service_key s)) s"
proof (cases "is_empty_or_error_push e s \<or> \<not> is_changed_service_info (cache_get (e_cache e) (service_key s)) s")
  case True
  then show thesis using skip by (auto simp: emit_def process_service_info_def service_key_def)
next
  case False
  then show thesis using store
    by (simp add: emit_def process_service_info_def service_key_def case_prod_unfold)
qed

text \<open>
  What the cache holds: services accepted by the guard, under their own key.
\<close>

definition emitter_ok :: "emitter \<Rightarrow> bool" where
  "emitter_ok e = (\<forall>k s. cache_get (e_cache e) k = Some s \<longrightarrow>
     service_key s = k \<and> hosts s \<noteq> None \<and> (push_empty_protection e \<longrightarrow> validate s))"

lemma emit_ok [wf_preserve]:
  assumes "emitter_ok e" "emit to_vec s e = (ev, e', cmds)"
  shows "emitter_ok e' \<and> push_empty_protection e' = push_empty_protection e"
proof (cases rule: emit_cases[of to_vec s e])
  case skip
  then show ?thesis using assms by simp
next
  case (store cs)
  then have "e' = e\<lparr>e_cache := cache_put to_vec (service_key s) s (e_cache e)\<rparr>" using assms(2) by simp
  then show ?thesis using assms(1) store(2)
    by (auto simp: emitter_ok_def cache.lookup_put is_empty_or_error_push_def split: if_splits)
qed

lemma emit_time:
  assumes "emit to_vec s e = (ev, e', cmds)" "cache_get (e_cache e) k = Some old"
  shows "\<exists>new. cache_get (e_cache e') k = Some new \<and> sint (last_ref_time old) \<le> sint (last_ref_time new)"
proof (cases rule: emit_cases[of to_vec s e])
  case skip
  then show ?thesis using assms by simp
next
  case (store cs)
  then have e': "e' = e\<lparr>e_cache := cache_put to_vec (service_key s) s (e_cache e)\<rparr>" using assms(1) by simp
  show ?thesis
  proof (cases "k = service_key s")
    case True
    then show ?thesis using e' store(3) assms(2)
      by (auto simp: cache.lookup_put is_changed_service_info_def is_outdated_data_def split: if_splits)
  next
    case False
    then show ?thesis using e' assms(2) by (simp add: cache.lookup_put)
  qed
qed

text \<open>
  C6: over any sequence of pushes, the cached snapshot of a service never goes back in time, every
  cached snapshot is filed under its own key, and with empty protection on, every cached snapshot has
  a usable instance (or lists all addresses): an empty or broken push never replaces a good one.
\<close>

theorem pushes_keep_cache_sound:
  assumes "emitter_ok e" "emit_all to_vec ss e = (evs, e')"
  shows "emitter_ok e' \<and> push_empty_protection e' = push_empty_protection e \<and>
    (\<forall>k old. cache_get (e_cache e) k = Some old \<longrightarrow>
      (\<exists>new. cache_get (e_cache e') k = Some new \<and> sint (last_ref_time old) \<le> sint (last_ref_time new)))"
  using assms
proof (induction ss arbitrary: e evs)
  case (Cons s ss)
  obtain ev e1 cmds where 1: "emit to_vec s e = (ev, e1, cmds)" by (metis prod_cases3)
  obtain evs' where 2: "emit_all to_vec ss e1 = (evs', e')" using Cons.prems(2) 1 by (auto split: prod.splits)
  note IH = Cons.IH[OF _ 2] emit_ok[OF Cons.prems(1) 1]
  show ?case
  proof (intro conjI allI impI)
    show "emitter_ok e'" "push_empty_protection e' = push_empty_protection e" using IH by auto
    fix k old assume "cache_get (e_cache e) k = Some old"
    from emit_time[OF 1 this] obtain mid where "cache_get (e_cache e1) k = Some mid"
      "sint (last_ref_time old) \<le> sint (last_ref_time mid)" by blast
    then show "\<exists>new. cache_get (e_cache e') k = Some new \<and> sint (last_ref_time old) \<le> sint (last_ref_time new)"
      using IH by (meson order_trans)
  qed
qed simp

definition demo_service :: "64 word \<Rightarrow> string \<Rightarrow> ServiceInfo" where
  "demo_service t addr = ServiceInfo_default\<lparr>name := ''svc'', group_name := ''G'', last_ref_time := t,
     hosts := Some [ServiceInstance_default\<lparr>ip := addr\<rparr>]\<rparr>"

definition demo_emitter :: emitter where
  "demo_emitter = \<lparr>e_cache = \<lparr>inner = Map.empty, has_store = False\<rparr>, push_empty_protection = True\<rparr>"

lemma demo_emitter_ok: "emitter_ok demo_emitter"
  by (simp add: emitter_ok_def demo_emitter_def cache_get_def)

lemma pushes_keep_cache_sound_witness:
  "emitter_ok (snd (emit_all (\<lambda>_. Inl []) [demo_service 1 ''a'', demo_service 2 ''b''] demo_emitter))"
  using pushes_keep_cache_sound[OF demo_emitter_ok prod.collapse[symmetric]] by blast

text \<open>Each element differs from the one before it, the first from \<open>old\<close>, and none is older.\<close>

fun successive :: "ServiceInfo option \<Rightarrow> ServiceInfo list \<Rightarrow> bool" where
  "successive old [] = True"
| "successive old (x # xs) = (is_changed_service_info old x \<and> successive (Some x) xs)"



text \<open>
  the time of a push that changes nothing is forgotten, so an older push can win: after a push
  \<open>s3\<close> equal to the cached \<open>s1\<close>, a delayed push \<open>s2\<close> from between the two is taken as new, cached and
  sent to the listeners.
\<close>

lemma delayed_push_overrides_newer:
  assumes "cache_get (e_cache e) k = Some s1" "service_key s2 = k" "service_key s3 = k"
    "hosts s1 = Some h1" "hosts s2 = Some h2" "hosts s3 = Some h3"
    "\<not> changed (diff_calculate h1 h3)" "changed (diff_calculate h1 h2)"
    "sint (last_ref_time s1) \<le> sint (last_ref_time s2)" "sint (last_ref_time s2) < sint (last_ref_time s3)"
    "validate s2"
  shows "\<exists>e'. emit_all to_vec [s3, s2] e = ([s2], e') \<and> cache_get (e_cache e') k = Some s2"
proof -
  have 3: "emit to_vec s3 e = (None, e, [])"
    using assms by (auto simp: emit_def process_service_info_def service_key_def is_changed_service_info_def)
  let ?e' = "e\<lparr>e_cache := cache_put to_vec k s2 (e_cache e)\<rparr>"
  have "is_changed_service_info (Some s1) s2" "\<not> is_empty_or_error_push e s2"
    using assms by (auto simp: is_changed_service_info_def is_outdated_data_def is_empty_or_error_push_def)
  then have 2: "\<exists>cmds. emit to_vec s2 e = (Some s2, ?e', cmds)"
    using assms(1,2) by (simp add: emit_def process_service_info_def service_key_def case_prod_unfold)
  have "cache_get (e_cache ?e') k = Some s2" by (simp add: cache.lookup_put)
  then show ?thesis using 2 3 by (intro exI[of _ ?e']) auto
qed

lemma demo_hosts_differ:
  "\<not> changed (diff_calculate [ServiceInstance_default\<lparr>ip := a\<rparr>] [ServiceInstance_default\<lparr>ip := a\<rparr>])"
  "a \<noteq> b \<Longrightarrow> changed (diff_calculate [ServiceInstance_default\<lparr>ip := a\<rparr>] [ServiceInstance_default\<lparr>ip := b\<rparr>])"
  by (auto simp: diff_calculate_def host_map_def host_keys_def map_filter_simps is_same_instance_iff
      ServiceInstance_default_def ip_and_port_def)

lemma delayed_push_overrides_newer_witness:
  "\<exists>e'. emit_all (\<lambda>_. Inl []) [demo_service 3 ''a'', demo_service 2 ''b'']
      \<lparr>e_cache = \<lparr>inner = [''G@@svc'' \<mapsto> demo_service 1 ''a''], has_store = False\<rparr>, push_empty_protection = True\<rparr>
      = ([demo_service 2 ''b''], e') \<and> cache_get (e_cache e') ''G@@svc'' = Some (demo_service 2 ''b'')"
proof (rule delayed_push_overrides_newer[where ?s1.0 = "demo_service 1 ''a''" and ?h1.0 = "[ServiceInstance_default\<lparr>ip := ''a''\<rparr>]"
      and ?h2.0 = "[ServiceInstance_default\<lparr>ip := ''b''\<rparr>]" and ?h3.0 = "[ServiceInstance_default\<lparr>ip := ''a''\<rparr>]"])
  have key: "service_key (demo_service t x) = ''G@@svc''" for t x
    by (simp add: service_key_def get_key_without_clusters_def get_grouped_service_name_def demo_service_def
        SERVICE_INFO_SEPARATOR_def ServiceInfo_default_def)
  show "service_key (demo_service 2 ''b'') = ''G@@svc''" "service_key (demo_service 3 ''a'') = ''G@@svc''"
    using key by simp_all
  show "\<not> changed (diff_calculate [ServiceInstance_default\<lparr>ip := ''a''\<rparr>] [ServiceInstance_default\<lparr>ip := ''a''\<rparr>])"
    "changed (diff_calculate [ServiceInstance_default\<lparr>ip := ''a''\<rparr>] [ServiceInstance_default\<lparr>ip := ''b''\<rparr>])"
    using demo_hosts_differ by simp_all
qed (simp_all add: cache_get_def demo_service_def validate_def is_all_ips_def ServiceInfo_default_def ServiceInstance_default_def)

text \<open>
  a listener is delivered an event of a service exactly when its last subscription call for that
  service was a subscribe, once per event, whatever clusters the push names and whatever happens to
  the listeners of other services.
\<close>

lemma event_delivery:
  assumes "distinct (observers_of (service_key s) m)"
  shows "map fst (observe_one s (fold (registry_apply (subscribe (service_key s)) (unsubscribe (service_key s))) ops m))
      = observers_of (service_key s) (fold (registry_apply (subscribe (service_key s)) (unsubscribe (service_key s))) ops m) \<and>
    distinct (map fst (observe_one s (fold (registry_apply (subscribe (service_key s)) (unsubscribe (service_key s))) ops m))) \<and>
    fst ` set (observe_one s (fold (registry_apply (subscribe (service_key s)) (unsubscribe (service_key s))) ops m))
      = registry_replay ops (set (observers_of (service_key s) m))"
  using naming_observers.replay_members[OF assms, of ops]
    observe_one_listeners[of s "fold (registry_apply (subscribe (service_key s)) (unsubscribe (service_key s))) ops m"]
  by (metis service_key_def set_map)

lemma event_delivery_witness:
  "fst ` set (observe_one (demo_service 1 ''a'') (fold (registry_apply (subscribe (service_key (demo_service 1 ''a'')))
      (unsubscribe (service_key (demo_service 1 ''a'')))) [AddListener (1::nat), AddListener 2, RemoveListener 1] Map.empty)) = {2}"
proof -
  let ?k = "service_key (demo_service 1 ''a'')" and ?ops = "[AddListener (1::nat), AddListener 2, RemoveListener 1]"
  have "distinct (observers_of ?k (Map.empty :: nat observers))" by (simp add: observers_of_def)
  from event_delivery[OF this, of ?ops]
  have "fst ` set (observe_one (demo_service 1 ''a'') (fold (registry_apply (subscribe ?k) (unsubscribe ?k)) ?ops Map.empty))
      = registry_replay ?ops (set (observers_of ?k Map.empty))" by (elim conjE)
  also have "\<dots> = {2}" by (auto simp: observers_of_def)
  finally show ?thesis .
qed

section \<open>Listeners and the cache\<close>

definition event_of :: "ServiceInfo \<Rightarrow> NamingChangeEvent" where
  "event_of s = \<lparr>ev_service_name = name s, ev_group_name = group_name s, ev_clusters = clusters s, ev_instances = hosts s\<rparr>"

text \<open>The events the observer task spawns for one listener, in the order it spawns them.\<close>

definition heard :: "'l \<Rightarrow> ServiceInfo list \<Rightarrow> 'l observers \<Rightarrow> NamingChangeEvent list" where
  "heard l evs m = map snd (filter (\<lambda>x. fst x = l) (concat (map (\<lambda>s. observe_one s m) evs)))"

lemma observe_one_pairs: "observe_one s m = map (\<lambda>l. (l, event_of s)) (observers_of (service_key s) m)"
  by (auto simp: observe_one_def observers_of_def event_of_def service_key_def Let_def split: option.splits)

lemma filter_eq_distinct: "distinct xs \<Longrightarrow> filter (\<lambda>x. x = l) xs = (if l \<in> set xs then [l] else [])"
  by (induction xs) auto

lemma observe_one_for:
  "distinct (observers_of (service_key s) m) \<Longrightarrow>
    map snd (filter (\<lambda>x. fst x = l) (observe_one s m)) = (if l \<in> set (observers_of (service_key s) m) then [event_of s] else [])"
  by (simp add: observe_one_pairs filter_map comp_def filter_eq_distinct)

lemma heard_events:
  assumes "\<forall>k. distinct (observers_of k m)"
  shows "heard l evs m = map event_of (filter (\<lambda>s. l \<in> set (observers_of (service_key s) m)) evs)"
  using assms by (induction evs) (simp_all add: heard_def observe_one_for)

text \<open>The emitter over a whole sequence is a fold of its events over the cache.\<close>

lemma emit_all_fold:
  assumes "emit_all to_vec ss e = (evs, e')"
  shows "cache_get (e_cache e') = fold (\<lambda>s m. m(service_key s \<mapsto> s)) evs (cache_get (e_cache e))"
  using assms
proof (induction ss arbitrary: e evs)
  case (Cons s ss)
  obtain ev e1 cmds where 1: "emit to_vec s e = (ev, e1, cmds)" by (metis prod_cases3)
  obtain evs' where 2: "emit_all to_vec ss e1 = (evs', e')" using Cons.prems 1 by (auto split: prod.splits)
  show ?case
  proof (cases rule: emit_cases[of to_vec s e])
    case skip
    then show ?thesis using Cons.prems 1 2 Cons.IH[OF 2] by simp
  next
    case (store cs)
    then have "evs = s # evs'" "e1 = e\<lparr>e_cache := cache_put to_vec (service_key s) s (e_cache e)\<rparr>"
      using Cons.prems 1 2 by auto
    then show ?thesis using Cons.IH[OF 2] by (simp add: cache.lookup_put)
  qed
qed simp

lemma fold_put_lookup:
  "fold (\<lambda>s m. m(service_key s \<mapsto> s)) evs m k =
    (case filter (\<lambda>s. service_key s = k) evs of [] \<Rightarrow> m k | x # xs \<Rightarrow> Some (last (x # xs)))"
  by (induction evs arbitrary: m) (auto split: list.splits)

text \<open>
  C21: the cache is what its events say: whatever is pushed, the cached services are the old ones
  overwritten by the events in their order; so the last task spawned for a listener of one service
  tells it exactly what the client would now answer for the service, and without such a task the
  service is as it was. (Each event is a task of its own, and the runtime may run them in another order.)
\<close>

theorem listener_follows_cache:
  assumes "emit_all to_vec ss e = (evs, e')" "\<forall>k. distinct (observers_of k m)"
    "\<forall>k'. l \<in> set (observers_of k' m) \<longleftrightarrow> k' = k"
  shows "cache_get (e_cache e') = fold (\<lambda>s m. m(service_key s \<mapsto> s)) evs (cache_get (e_cache e)) \<and>
    (if heard l evs m = [] then cache_get (e_cache e') k = cache_get (e_cache e) k
     else map_option event_of (cache_get (e_cache e') k) = Some (last (heard l evs m)))"
proof -
  have n: "heard l evs m = map event_of (filter (\<lambda>s. service_key s = k) evs)"
    using heard_events[OF assms(2)] assms(3) by simp
  show ?thesis unfolding emit_all_fold[OF assms(1)] n fold_put_lookup
    by (auto split: list.splits simp: last_map)
qed

lemma listener_follows_cache_witness:
  "map_option event_of (cache_get (e_cache (snd (emit_all (\<lambda>_. Inl []) [demo_service 1 ''a''] (demo_emitter\<lparr>push_empty_protection := False\<rparr>)))) ''G@@svc'')
    = Some (event_of (demo_service 1 ''a''))"
proof -
  let ?r = "emit_all (\<lambda>_. Inl []) [demo_service 1 ''a''] (demo_emitter\<lparr>push_empty_protection := False\<rparr>)"
  have m: "\<forall>k. distinct (observers_of k [''G@@svc'' \<mapsto> [7::nat]])" "\<forall>k. 7 \<in> set (observers_of k [''G@@svc'' \<mapsto> [7::nat]]) \<longleftrightarrow> k = ''G@@svc''"
    by (simp_all add: observers_of_def)
  have "fst ?r = [demo_service 1 ''a'']"
    by (simp add: emit_def process_service_info_def is_changed_service_info_def is_empty_or_error_push_def demo_emitter_def
        cache_get_def demo_service_def case_prod_unfold)
  then have "heard (7::nat) (fst ?r) [''G@@svc'' \<mapsto> [7]] = [event_of (demo_service 1 ''a'')]"
    unfolding heard_events[OF m(1)]
    by (simp add: observers_of_def service_key_def get_key_without_clusters_def get_grouped_service_name_def demo_service_def
        SERVICE_INFO_SEPARATOR_def ServiceInfo_default_def)
  then show ?thesis using conjunct2[OF listener_follows_cache[OF prod.collapse[symmetric, of ?r] m]] by (simp del: emit_all.simps)
qed

end
