(* ===== verification/Updater.thy ===== *)
theory Updater
  imports Observable Redo
begin

text \<open>
  The polling of subscribed services (src/naming/updater/mod.rs): one background loop per service and
  clusters, its delays and back-off, and the map of the loops that are to run.
\<close>

section \<open>One loop\<close>

definition DEFAULT_DELAY :: "64 word" where "DEFAULT_DELAY = 1000"
definition DEFAULT_UPDATE_CACHE_TIME_MULTIPLE :: "64 word" where "DEFAULT_UPDATE_CACHE_TIME_MULTIPLE = 6"
definition MAX_FAILED :: nat where "MAX_FAILED = 6"

record update_task =
  ut_running :: bool
  ut_service_name :: string
  ut_namespace :: string
  ut_group_name :: string
  ut_cluster :: string
  delay_time :: "64 word"
  last_refresh_time :: "64 word"
  failed_count :: nat

definition update_task_new :: "string \<Rightarrow> string \<Rightarrow> string \<Rightarrow> string \<Rightarrow> update_task" where
  "update_task_new service_name namespace grp cluster =
    \<lparr>ut_running = False, ut_service_name = service_name, ut_namespace = namespace, ut_group_name = grp,
     ut_cluster = cluster, delay_time = DEFAULT_DELAY, last_refresh_time = - 1, failed_count = 0\<rparr>"

definition task_start :: "update_task \<Rightarrow> update_task" where
  "task_start t = (if ut_running t then t else t\<lparr>ut_running := True\<rparr>)"

definition task_stop :: "update_task \<Rightarrow> update_task" where
  "task_stop t = t\<lparr>ut_running := False\<rparr>"

text \<open>The milliseconds a round sleeps; the shift of a \<^verbatim>\<open>u64\<close> loses the bits it moves out.\<close>

definition delay_millis :: "update_task \<Rightarrow> 64 word" where
  "delay_millis t = min (push_bit (failed_count t) (delay_time t)) (DEFAULT_DELAY * 60)"

definition update_task_key :: "string \<Rightarrow> string \<Rightarrow> string \<Rightarrow> string" where
  "update_task_key service_name grp cluster = get_key (get_grouped_service_name service_name grp) cluster"

definition task_query :: "string \<Rightarrow> update_task \<Rightarrow> ServiceQueryRequest" where
  "task_query rid t = \<lparr>req_headers = Map.empty, request_id = Some rid, nr_namespace = Some (ut_namespace t),
     nr_service_name = Some (ut_service_name t), nr_group_name = Some (ut_group_name t),
     sq_cluster = ut_cluster t, sq_healthy_only = False, sq_udp_port = 0\<rparr>"

definition cached_of :: "emitter \<Rightarrow> update_task \<Rightarrow> ServiceInfo option" where
  "cached_of e t = cache_get (e_cache e) (update_task_key (ut_service_name t) (ut_group_name t) (ut_cluster t))"

text \<open>Whether a round asks the server, and the time it remembers. Times compare as \<^verbatim>\<open>u64\<close>.\<close>

definition need_query :: "ServiceInfo option \<Rightarrow> update_task \<Rightarrow> bool \<times> update_task" where
  "need_query cached t =
    (case cached of
       None \<Rightarrow> (True, t)
     | Some s \<Rightarrow> if last_ref_time s \<le> last_refresh_time t then (True, t)
                else (False, t\<lparr>last_refresh_time := last_ref_time s\<rparr>))"

definition count_failure :: "update_task \<Rightarrow> update_task" where
  "count_failure t = (if failed_count t < MAX_FAILED then t\<lparr>failed_count := failed_count t + 1\<rparr> else t)"

text \<open>
  One round after its sleep: the task, the emitter and the event it emitted. A stopped task does
  nothing. The product of \<^verbatim>\<open>cache_millis\<close> wraps, as in a release build.
\<close>

definition update_round ::
    "ServiceInfo to_vec \<Rightarrow> (ServiceQueryRequest \<Rightarrow> QueryServiceResponse result) \<Rightarrow> string \<Rightarrow> update_task \<Rightarrow> emitter \<Rightarrow>
      update_task \<times> emitter \<times> ServiceInfo option" where
  "update_round to_vec query rid t e =
    (if \<not> ut_running t then (t, e, None)
     else
       (let (need, t1) = need_query (cached_of e t) t
        in if \<not> need then (t1, e, None)
           else (case query (task_query rid t1) of
               Inl err \<Rightarrow> (count_failure t1, e, None)
             | Inr response \<Rightarrow>
                 if \<not> is_success response then (count_failure t1, e, None)
                 else
                   (let s = qs_service_info response;
                        (ev, e', _) = emit to_vec s e
                    in (t1\<lparr>last_refresh_time := last_ref_time s,
                          delay_time := cache_millis s * DEFAULT_UPDATE_CACHE_TIME_MULTIPLE,
                          failed_count := 0\<rparr>, e', ev)))))"

section \<open>The map of loops\<close>

text \<open>The loops by number; \<open>up_map\<close> is \<^verbatim>\<open>task_map\<close>. A stopped loop is no longer in the map.\<close>

record updater =
  up_map :: "string \<rightharpoonup> nat"
  up_tasks :: "update_task list"

definition updater_new :: updater where
  "updater_new = \<lparr>up_map = Map.empty, up_tasks = []\<rparr>"

definition schedule_update :: "string \<Rightarrow> string \<Rightarrow> string \<Rightarrow> string \<Rightarrow> updater \<Rightarrow> updater" where
  "schedule_update namespace service_name grp cluster u =
    (let key = update_task_key service_name grp cluster
     in if up_map u key \<noteq> None then u
        else \<lparr>up_map = (up_map u)(key \<mapsto> length (up_tasks u)),
              up_tasks = up_tasks u @ [task_start (update_task_new service_name namespace grp cluster)]\<rparr>)"

definition stop_update :: "string \<Rightarrow> string \<Rightarrow> string \<Rightarrow> updater \<Rightarrow> updater" where
  "stop_update service_name grp cluster u =
    (let key = update_task_key service_name grp cluster
     in case up_map u key of
          None \<Rightarrow> u
        | Some i \<Rightarrow> \<lparr>up_map = (up_map u)(key := None), up_tasks = (up_tasks u)[i := task_stop (up_tasks u ! i)]\<rparr>)"

datatype updater_call = Schedule string string string string | Stop string string string

fun updater_apply :: "updater_call \<Rightarrow> updater \<Rightarrow> updater" where
  "updater_apply (Schedule ns s g c) u = schedule_update ns s g c u"
| "updater_apply (Stop s g c) u = stop_update s g c u"

section \<open>Properties\<close>

definition task_key_of :: "update_task \<Rightarrow> string" where
  "task_key_of t = update_task_key (ut_service_name t) (ut_group_name t) (ut_cluster t)"

text \<open>The map names exactly the loops that run.\<close>

definition updater_ok :: "updater \<Rightarrow> bool" where
  "updater_ok u = (\<forall>k i. up_map u k = Some i \<longleftrightarrow>
     i < length (up_tasks u) \<and> ut_running (up_tasks u ! i) \<and> task_key_of (up_tasks u ! i) = k)"

lemma updater_new_ok: "updater_ok updater_new"
  by (simp add: updater_ok_def updater_new_def)

lemma schedule_update_ok [wf_preserve]:
  assumes "updater_ok u"
  shows "updater_ok (schedule_update ns s g c u)"
proof (cases "up_map u (update_task_key s g c)")
  case None
  then have "\<not> (i < length (up_tasks u) \<and> ut_running (up_tasks u ! i) \<and> task_key_of (up_tasks u ! i) = update_task_key s g c)" for i
    using assms by (metis option.distinct(1) updater_ok_def)
  then show ?thesis using None assms
    by (auto simp: updater_ok_def schedule_update_def nth_append task_start_def update_task_new_def
        task_key_of_def less_Suc_eq)
qed (simp add: schedule_update_def assms)

lemma stop_update_ok [wf_preserve]:
  assumes "updater_ok u"
  shows "updater_ok (stop_update s g c u)"
proof (cases "up_map u (update_task_key s g c)")
  case (Some i)
  then have i: "i < length (up_tasks u)" "task_key_of (up_tasks u ! i) = update_task_key s g c"
    using assms by (simp_all add: updater_ok_def)
  let ?u = "stop_update s g c u" and ?key = "update_task_key s g c"
  have u: "up_map ?u = (up_map u)(?key := None)" "up_tasks ?u = (up_tasks u)[i := task_stop (up_tasks u ! i)]"
    using Some by (simp_all add: stop_update_def)
  have "up_map ?u k = Some j \<longleftrightarrow> j < length (up_tasks ?u) \<and> ut_running (up_tasks ?u ! j) \<and> task_key_of (up_tasks ?u ! j) = k" for k j
  proof (cases "j = i")
    case True
    have "up_map u k = Some i \<Longrightarrow> k = ?key" using assms i by (simp add: updater_ok_def)
    then show ?thesis using True u i by (auto simp: task_stop_def)
  next
    case False
    have "up_map u k = Some j \<Longrightarrow> k \<noteq> ?key" using False Some by auto
    then have "up_map ?u k = Some j \<longleftrightarrow> up_map u k = Some j" using u by auto
    then show ?thesis using assms False u by (simp add: updater_ok_def)
  qed
  then show ?thesis by (simp add: updater_ok_def)
qed (simp add: stop_update_def assms)

lemma updater_apply_ok [wf_preserve]: "updater_ok u \<Longrightarrow> updater_ok (updater_apply c u)"
  by (cases c) (simp_all add: wf_preserve)

lemma updater_calls_ok: "updater_ok u \<Longrightarrow> updater_ok (fold updater_apply cs u)"
  by (induction cs arbitrary: u) (simp_all add: wf_preserve)

fun call_key :: "updater_call \<Rightarrow> string" where
  "call_key (Schedule ns s g c) = update_task_key s g c"
| "call_key (Stop s g c) = update_task_key s g c"

fun is_schedule :: "updater_call \<Rightarrow> bool" where
  "is_schedule (Schedule ns s g c) = True"
| "is_schedule (Stop s g c) = False"

lemma updater_apply_dom:
  "up_map (updater_apply c u) k = None \<longleftrightarrow> (if call_key c = k then \<not> is_schedule c else up_map u k = None)"
  by (cases c) (auto simp: schedule_update_def stop_update_def split: option.splits)

text \<open>
  C30: after any sequence of schedule and stop calls, at most one loop runs for a service and
  clusters, and one runs exactly when the last call for it was a schedule: rescheduling starts no
  second loop, stopping leaves none.
\<close>

theorem one_loop_per_service:
  "card {i. i < length (up_tasks u) \<and> ut_running (up_tasks u ! i) \<and> task_key_of (up_tasks u ! i) = k} =
    (if filter (\<lambda>c. call_key c = k) cs \<noteq> [] \<and> is_schedule (last (filter (\<lambda>c. call_key c = k) cs)) then 1 else 0)"
  if "u = fold updater_apply cs updater_new"
proof -
  have ok: "updater_ok u" using updater_calls_ok[OF updater_new_ok] that by simp
  have dom: "up_map (fold updater_apply cs v) k = None \<longleftrightarrow>
      (if filter (\<lambda>c. call_key c = k) cs = [] then up_map v k = None
       else \<not> is_schedule (last (filter (\<lambda>c. call_key c = k) cs)))" for v
  proof (induction cs arbitrary: v)
    case (Cons c cs)
    show ?case
      by (cases "call_key c = k"; cases "filter (\<lambda>c. call_key c = k) cs = []")
        (simp_all only: fold_simps Cons.IH updater_apply_dom filter.simps if_True if_False last.simps simp_thms list.distinct o_apply)
  qed simp
  have "{i. i < length (up_tasks u) \<and> ut_running (up_tasks u ! i) \<and> task_key_of (up_tasks u ! i) = k} =
      {i. up_map u k = Some i}"
    using ok by (simp add: updater_ok_def)
  then have set: "card {i. i < length (up_tasks u) \<and> ut_running (up_tasks u ! i) \<and> task_key_of (up_tasks u ! i) = k} =
      (if up_map u k = None then 0 else 1)"
    by (cases "up_map u k") simp_all
  show ?thesis unfolding set using dom[of updater_new] that by (simp add: updater_new_def)
qed

lemma one_loop_per_service_witness:
  "card {i. i < length (up_tasks (fold updater_apply [Schedule ''n'' ''s'' ''g'' [], Schedule ''n'' ''s'' ''g'' []] updater_new)) \<and>
      ut_running (up_tasks (fold updater_apply [Schedule ''n'' ''s'' ''g'' [], Schedule ''n'' ''s'' ''g'' []] updater_new) ! i) \<and>
      task_key_of (up_tasks (fold updater_apply [Schedule ''n'' ''s'' ''g'' [], Schedule ''n'' ''s'' ''g'' []] updater_new) ! i) =
        update_task_key ''s'' ''g'' []} = 1"
  by (simp only: one_loop_per_service[OF refl]) simp

text \<open>A loop whose queries fail, \<open>n\<close> rounds in a row.\<close>

fun failing_rounds :: "nat \<Rightarrow> ServiceInfo to_vec \<Rightarrow> (ServiceQueryRequest \<Rightarrow> QueryServiceResponse result) \<Rightarrow> update_task \<Rightarrow> emitter \<Rightarrow> update_task" where
  "failing_rounds 0 to_vec query t e = t"
| "failing_rounds (Suc n) to_vec query t e =
    (let (t', e', _) = update_round to_vec query [] t e in failing_rounds n to_vec query t' e')"

definition query_fails :: "(ServiceQueryRequest \<Rightarrow> QueryServiceResponse result) \<Rightarrow> bool" where
  "query_fails query = (\<forall>r resp. query r = Ok resp \<longrightarrow> \<not> is_success resp)"

lemma failing_round:
  assumes "query_fails query" "ut_running t" "cached_of e t = None"
  shows "update_round to_vec query rid t e = (count_failure t, e, None)"
  using assms by (auto simp: update_round_def need_query_def query_fails_def split: sum.splits)

lemma count_failure_simps [simp]:
  "ut_running (count_failure t) = ut_running t" "cached_of e (count_failure t) = cached_of e t"
  "delay_time (count_failure t) = delay_time t"
  "failed_count (count_failure t) = (if failed_count t < MAX_FAILED then failed_count t + 1 else failed_count t)"
  by (simp_all add: count_failure_def cached_of_def)

lemma failing_rounds_count:
  assumes "query_fails query" "ut_running t" "cached_of e t = None" "failed_count t \<le> MAX_FAILED"
  shows "failed_count (failing_rounds n to_vec query t e) = min (failed_count t + n) MAX_FAILED \<and>
    delay_time (failing_rounds n to_vec query t e) = delay_time t \<and>
    ut_running (failing_rounds n to_vec query t e) \<and> cached_of e (failing_rounds n to_vec query t e) = None"
  using assms
proof (induction n arbitrary: t)
  case (Suc n)
  then show ?case using Suc.IH[of "count_failure t"] by (auto simp: failing_round)
qed simp

lemma unat_push_bit:
  assumes "unat (w :: 64 word) * 2 ^ k < 2 ^ 64"
  shows "unat (push_bit k w) = unat w * 2 ^ k"
  using assms unsigned_push_bit_eq[where ?'a = nat, of k w]
  by (simp only: unsigned_push_bit_eq push_bit_eq_mult) (simp add: take_bit_nat_eq_self)

lemma unat_min: "unat (min a b :: 'a::len word) = min (unat a) (unat b)"
  by (simp add: min_def word_le_nat_alt)

lemma unat_sint: "unat w = nat (sint w)" if "0 \<le> sint (w :: 64 word)"
proof -
  have "sint w < 2 ^ 63" using sint_lt[of w] by simp
  then have "uint w = sint w" using that uint_sint[of w] by (simp add: take_bit_int_eq_self)
  then show ?thesis by (simp add: unat_eq_nat_uint)
qed

text \<open>
  the pause between two queries doubles with every failure in a row, up to the factor 64, and
  never exceeds a minute; a successful answer sets it to six times the interval the server names
  (and a minute at most), whatever failed before.
\<close>

lemma update_backoff:
  assumes "query_fails query" "ut_running t" "cached_of e t = None" "failed_count t = 0"
    "unat (delay_time t) < 2 ^ 58"
  shows "unat (delay_millis (failing_rounds n to_vec query t e)) = min (unat (delay_time t) * 2 ^ min n MAX_FAILED) 60000 \<and>
    (is_success resp \<longrightarrow> 0 \<le> sint (cache_millis (qs_service_info resp)) \<longrightarrow> sint (cache_millis (qs_service_info resp)) < 2 ^ 60 \<longrightarrow>
      unat (delay_millis (fst (update_round to_vec (\<lambda>_. Ok resp) rid (failing_rounds n to_vec query t e) e)))
        = min (6 * nat (sint (cache_millis (qs_service_info resp)))) 60000)"
proof
  let ?t = "failing_rounds n to_vec query t e"
  have c: "failed_count ?t = min n MAX_FAILED" "delay_time ?t = delay_time t"
    using failing_rounds_count[OF assms(1-3), of n to_vec] assms(4) by auto
  have "unat (delay_time t) * 2 ^ min n MAX_FAILED \<le> unat (delay_time t) * 2 ^ 6"
    by (rule mult_left_mono[OF power_increasing]) (simp_all add: MAX_FAILED_def)
  also have "\<dots> < 2 ^ 64" using assms(5) by simp
  finally have "unat (push_bit (min n MAX_FAILED) (delay_time t)) = unat (delay_time t) * 2 ^ min n MAX_FAILED"
    by (rule unat_push_bit)
  then show "unat (delay_millis ?t) = min (unat (delay_time t) * 2 ^ min n MAX_FAILED) 60000"
    using c by (simp add: delay_millis_def DEFAULT_DELAY_def unat_min)
  show "is_success resp \<longrightarrow> 0 \<le> sint (cache_millis (qs_service_info resp)) \<longrightarrow>
      sint (cache_millis (qs_service_info resp)) < 2 ^ 60 \<longrightarrow>
      unat (delay_millis (fst (update_round to_vec (\<lambda>_. Ok resp) rid ?t e)))
        = min (6 * nat (sint (cache_millis (qs_service_info resp)))) 60000"
  proof (intro impI)
    let ?c = "cache_millis (qs_service_info resp)"
    assume ok: "is_success resp" and pos: "0 \<le> sint ?c" and small: "sint ?c < 2 ^ 60"
    have "delay_millis (fst (update_round to_vec (\<lambda>_. Ok resp) rid ?t e)) = min (?c * 6) 60000"
      using failing_rounds_count[OF assms(1-3), of n to_vec] assms(4) ok
      by (simp add: update_round_def need_query_def case_prod_unfold delay_millis_def DEFAULT_DELAY_def
          DEFAULT_UPDATE_CACHE_TIME_MULTIPLE_def)
    moreover have "unat ?c = nat (sint ?c)"
      using pos by (rule unat_sint)
    moreover from this small pos have "unat (?c * 6) = unat ?c * 6"
      by (simp add: unat_word_ariths(2))
    ultimately show "unat (delay_millis (fst (update_round to_vec (\<lambda>_. Ok resp) rid ?t e))) = min (6 * nat (sint ?c)) 60000"
      by (simp add: unat_min mult.commute)
  qed
qed

lemma update_backoff_witness:
  "unat (delay_millis (failing_rounds 3 (\<lambda>_. Inl []) (\<lambda>_. Err (ErrResult [])) (task_start (update_task_new ''s'' ''n'' ''g'' [])) demo_emitter)) = 8000"
  using update_backoff[THEN conjunct1, of "\<lambda>_. Err (ErrResult [])" "task_start (update_task_new ''s'' ''n'' ''g'' [])" demo_emitter 3 "\<lambda>_. Inl []"]
  by (simp add: query_fails_def task_start_def update_task_new_def cached_of_def demo_emitter_def cache_get_def
      DEFAULT_DELAY_def MAX_FAILED_def)

definition plain_names :: "ServiceInfo \<Rightarrow> bool" where
  "plain_names s = (CHR ''@'' \<notin> set (name s) \<and> CHR ''@'' \<notin> set (group_name s))"

definition ats :: "string \<Rightarrow> nat" where
  "ats s = length (filter (\<lambda>c. c = CHR ''@'') s)"

lemma ats_simps [simp]: "ats (a @ b) = ats a + ats b" "ats SERVICE_INFO_SEPARATOR = 2"
  by (simp_all add: ats_def SERVICE_INFO_SEPARATOR_def)

lemma ats_none: "CHR ''@'' \<notin> set s \<Longrightarrow> ats s = 0"
  by (auto simp: ats_def filter_empty_conv)

lemma service_key_ats: "plain_names s \<Longrightarrow> ats (service_key s) \<le> 2"
  by (simp add: plain_names_def service_key_def get_key_without_clusters_def get_grouped_service_name_def ats_none)

lemma cluster_key_ats:
  assumes "cluster \<noteq> []" "grp \<noteq> []"
  shows "2 < ats (update_task_key service grp cluster) \<or> contains service SERVICE_INFO_SEPARATOR"
  using assms by (simp add: update_task_key_def get_key_def get_grouped_service_name_def)

lemma cluster_loop_never_cached_lemma:
  assumes "emitter_ok e" "\<forall>k s. cache_get (e_cache e) k = Some s \<longrightarrow> plain_names s"
    "ut_cluster t \<noteq> []" "ut_group_name t \<noteq> []" "CHR ''@'' \<notin> set (ut_service_name t)"
  shows "cached_of e t = None"
proof -
  have "\<not> contains (ut_service_name t) SERVICE_INFO_SEPARATOR"
    using assms(5) by (auto simp: contains_sublist SERVICE_INFO_SEPARATOR_def sublist_def)
  then have "2 < ats (update_task_key (ut_service_name t) (ut_group_name t) (ut_cluster t))"
    using cluster_key_ats[OF assms(3,4)] by blast
  moreover have "ats k \<le> 2" if "cache_get (e_cache e) k = Some s" for k s
    using assms(1,2) service_key_ats[of s] that by (auto simp: emitter_ok_def)
  ultimately show ?thesis
    unfolding cached_of_def by (metis not_None_eq not_less)
qed

text \<open>
  the loop of a subscription to given clusters never finds its service in the cache, however
  often it was pushed: the cache files it under the key without clusters. (Names and groups without
  the separator's character, a group that is not empty.)
\<close>

lemma cluster_loop_never_cached:
  assumes "emitter_ok e" "\<forall>k s. cache_get (e_cache e) k = Some s \<longrightarrow> plain_names s"
    "ut_cluster t \<noteq> []" "ut_group_name t \<noteq> []" "CHR ''@'' \<notin> set (ut_service_name t)"
  shows "cached_of e t = None \<and> fst (need_query (cached_of e t) t)"
  using cluster_loop_never_cached_lemma[OF assms] by (simp add: need_query_def)

lemma cluster_loop_never_cached_witness:
  "cached_of (demo_emitter\<lparr>e_cache := cache_put (\<lambda>_. Inl []) ''G@@svc'' (demo_service 1 ''a'') (e_cache demo_emitter)\<rparr>)
    (update_task_new ''svc'' ''ns'' ''G'' ''c'') = None"
proof (rule cluster_loop_never_cached[THEN conjunct1])
  let ?e = "demo_emitter\<lparr>e_cache := cache_put (\<lambda>_. Inl []) ''G@@svc'' (demo_service 1 ''a'') (e_cache demo_emitter)\<rparr>"
  have get: "cache_get (cache_put (\<lambda>_. Inl []) ''G@@svc'' (demo_service 1 ''a'') (e_cache demo_emitter)) k = (if k = ''G@@svc'' then Some (demo_service 1 ''a'') else None)" for k
    by (simp add: cache.lookup_put demo_emitter_def cache_get_def)
  have key: "service_key (demo_service 1 ''a'') = ''G@@svc''" by code_simp
  have plain: "plain_names (demo_service 1 ''a'')"
    by (simp add: plain_names_def demo_service_def)
  have "hosts (demo_service 1 ''a'') \<noteq> None" "validate (demo_service 1 ''a'')" by code_simp+
  then show "emitter_ok ?e" using key by (simp add: emitter_ok_def get split: if_splits)
  show "\<forall>k s. cache_get (e_cache ?e) k = Some s \<longrightarrow> plain_names s"
    using plain by (simp add: get split: if_splits)
qed (simp_all add: update_task_new_def)

end
