(* ===== verification/Chooser.thy ===== *)
theory Chooser
  imports ServiceInfo
begin

text \<open>
  The weighted random choice of an instance (src/naming/chooser/mod.rs) over \<^verbatim>\<open>f64\<close> weights. The
  random number is an argument.
\<close>

record chooser =
  ch_weights :: "f64 list"
  ch_items :: "ServiceInstance list"

definition no_service_error :: "string \<Rightarrow> error" where
  "no_service_error service_name =
    ErrResult (''no available '' @ service_name @ '' service instance can be selected'')"

fun origin_weight_sum :: "f64 \<Rightarrow> ServiceInstance list \<Rightarrow> f64" where
  "origin_weight_sum s [] = s"
| "origin_weight_sum s (h # hs) =
    (let w = weight h
     in if w \<le> Fin 0 then origin_weight_sum s hs
        else
          (let w1 = (if w = PosInf \<or> w = NegInf then Fin 10000 else w);
               w2 = (if w1 = NotANumber then Fin 1 else w1)
           in origin_weight_sum (f64_add s w2) hs))"

definition init_items :: "ServiceInstance list \<Rightarrow> ServiceInstance list" where
  "init_items hs = filter (\<lambda>h. \<not> weight h \<le> Fin 0) hs"

fun cumulate :: "f64 \<Rightarrow> f64 list \<Rightarrow> f64 list" where
  "cumulate random_range [] = []"
| "cumulate random_range (x # xs) =
    f64_add random_range x # cumulate (f64_add random_range x) xs"

definition RandomWeightChooser_new :: "string \<Rightarrow> ServiceInstance list \<Rightarrow> chooser result" where
  "RandomWeightChooser_new service_name items =
    (if items = [] then Err (no_service_error service_name)
     else
       (let s = origin_weight_sum (Fin 0) items;
            init = init_items items;
            exact_weights = map (\<lambda>h. f64_div (weight h) s) init;
            weights = cumulate (Fin 0) exact_weights;
            double_precision_delta = fl (1 / 10000)
        in if weights = [] \<or> f64_abs (f64_sub (last weights) (Fin 1)) < double_precision_delta
           then Ok \<lparr>ch_weights = weights, ch_items = init\<rparr>
           else Err (ErrResult ''Cumulative Weight calculate wrong , the sum of probabilities does not equals 1.'')))"

section \<open>Binary search\<close>

text \<open>The algorithm of \<^verbatim>\<open>slice::binary_search_by\<close>; \<open>Inl\<close> is its \<^verbatim>\<open>Ok\<close>, \<open>Inr\<close> its \<^verbatim>\<open>Err\<close>.\<close>

datatype ordering = Less | Equal | Greater

definition cmp_or_less :: "f64 \<Rightarrow> f64 \<Rightarrow> ordering" where
  "cmp_or_less d r = (if d < r then Less else if f64_eq d r then Equal else if r < d then Greater else Less)"

function bs_base :: "(nat \<Rightarrow> ordering) \<Rightarrow> nat \<Rightarrow> nat \<Rightarrow> nat" where
  "bs_base f base sz =
    (if 1 < sz
     then (let half = sz div 2; mid = base + half
           in bs_base f (if f mid = Greater then base else mid) (sz - half))
     else base)"
  by pat_completeness auto
termination by (relation "measure (\<lambda>(f, base, sz). sz)") auto

declare bs_base.simps [simp del]

definition binary_search_by :: "('a \<Rightarrow> ordering) \<Rightarrow> 'a list \<Rightarrow> nat + nat" where
  "binary_search_by f xs =
    (if xs = [] then Inr 0
     else
       (let base = bs_base (\<lambda>i. f (xs ! i)) 0 (length xs)
        in case f (xs ! base) of
             Equal \<Rightarrow> Inl base
           | Less \<Rightarrow> Inr (base + 1)
           | Greater \<Rightarrow> Inr base))"

definition pop :: "'a list \<Rightarrow> 'a option" where
  "pop xs = (if xs = [] then None else Some (last xs))"

definition get :: "'a list \<Rightarrow> nat \<Rightarrow> 'a option" where
  "get xs i = (if i < length xs then Some (xs ! i) else None)"

definition chooser_choose :: "chooser \<Rightarrow> f64 \<Rightarrow> ServiceInstance option" where
  "chooser_choose c random_number =
    (case binary_search_by (\<lambda>d. cmp_or_less d random_number) (ch_weights c) of
       Inl index \<Rightarrow> (case get (ch_items c) index of Some h \<Rightarrow> Some h | None \<Rightarrow> pop (ch_items c))
     | Inr index \<Rightarrow>
         if index < length (ch_weights c) then
           (case get (ch_weights c) index of
              None \<Rightarrow> pop (ch_items c)
            | Some w \<Rightarrow>
                if random_number < w then
                  (case get (ch_items c) index of None \<Rightarrow> pop (ch_items c) | Some h \<Rightarrow> Some h)
                else pop (ch_items c))
         else pop (ch_items c))"

section \<open>Properties\<close>

lemma cumulate_length [simp]: "length (cumulate s xs) = length xs"
  by (induction xs arbitrary: s) simp_all

lemma bs_base_bound: "0 < sz \<Longrightarrow> bs_base f base sz < base + sz"
proof (induction f base sz rule: bs_base.induct)
  case (1 f base sz)
  show ?case
  proof (cases "1 < sz")
    case True
    let ?b = "if f (base + sz div 2) = Greater then base else base + sz div 2"
    have "bs_base f ?b (sz - sz div 2) < ?b + (sz - sz div 2)"
      using 1(1)[OF True refl refl] True by (simp split: if_splits)
    moreover have "?b + (sz - sz div 2) \<le> base + sz" by (simp split: if_splits)
    moreover have "bs_base f base sz = bs_base f ?b (sz - sz div 2)"
      using True by (subst bs_base.simps) simp
    ultimately show ?thesis by linarith
  next
    case False
    then show ?thesis using 1(2) by (subst bs_base.simps) simp
  qed
qed

text \<open>What the search finds in a sorted list.\<close>

definition ordered :: "(nat \<Rightarrow> ordering) \<Rightarrow> nat \<Rightarrow> bool" where
  "ordered f n = (\<forall>i j. i \<le> j \<longrightarrow> j < n \<longrightarrow> (f i = Greater \<longrightarrow> f j = Greater) \<and> (f j = Less \<longrightarrow> f i = Less))"

lemma bs_base_inv:
  assumes "ordered f n" "0 < sz" "base + sz \<le> n"
    "\<forall>j. base + sz \<le> j \<longrightarrow> j < n \<longrightarrow> f j = Greater" "base = 0 \<or> f base \<noteq> Greater"
  shows "(let b = bs_base f base sz in
    (\<forall>j. b < j \<longrightarrow> j < n \<longrightarrow> f j = Greater) \<and> (b = 0 \<or> f b \<noteq> Greater))"
  using assms
proof (induction f base sz rule: bs_base.induct)
  case (1 f base sz)
  show ?case
  proof (cases "1 < sz")
    case True
    let ?mid = "base + sz div 2"
    let ?b = "if f ?mid = Greater then base else ?mid"
    have g: "\<forall>j. ?b + (sz - sz div 2) \<le> j \<longrightarrow> j < n \<longrightarrow> f j = Greater"
    proof (cases "f ?mid = Greater")
      case True
      then have "f j = Greater" if "?mid \<le> j" "j < n" for j using that 1(2) by (auto simp: ordered_def)
      moreover have "?mid \<le> base + (sz - sz div 2)" by simp
      ultimately show ?thesis using True by auto
    next
      case False
      then show ?thesis using 1(5) by simp
    qed
    have "(let b = bs_base f ?b (sz - sz div 2) in
        (\<forall>j. b < j \<longrightarrow> j < n \<longrightarrow> f j = Greater) \<and> (b = 0 \<or> f b \<noteq> Greater))"
    proof (rule 1(1)[OF True refl refl 1(2) _ _ g])
      show "0 < sz - sz div 2" using True by simp
      show "?b + (sz - sz div 2) \<le> n" using 1(4) by (cases "f ?mid = Greater") simp_all
      show "?b = 0 \<or> f ?b \<noteq> Greater" using 1(6) by simp
    qed
    moreover have "bs_base f base sz = bs_base f ?b (sz - sz div 2)"
      using True by (subst bs_base.simps) simp
    ultimately show ?thesis by (simp only:)
  next
    case False
    then have "sz = 1" "bs_base f base sz = base" using 1(3) by (auto simp: bs_base.simps)
    then show ?thesis using 1(5,6) by auto
  qed
qed

lemma binary_search_found: "binary_search_by f xs = Inl i \<Longrightarrow> i < length xs \<and> f (xs ! i) = Equal"
  using bs_base_bound[of "length xs" "\<lambda>i. f (xs ! i)" 0]
  by (auto simp: binary_search_by_def split: if_splits ordering.splits)

lemma binary_search_missing:
  assumes "ordered (\<lambda>i. f (xs ! i)) (length xs)" "binary_search_by f xs = Inr i"
  shows "i \<le> length xs \<and> (\<forall>j<i. f (xs ! j) = Less) \<and> (\<forall>j\<ge>i. j < length xs \<longrightarrow> f (xs ! j) = Greater)"
proof (cases "xs = []")
  case False
  let ?f = "\<lambda>i. f (xs ! i)" and ?n = "length xs"
  have n: "0 < ?n" using False by simp
  obtain m where m: "m = bs_base ?f 0 ?n" by simp
  have b: "m < ?n" using bs_base_bound[OF n, of ?f 0] m by simp
  have "let b = m in (\<forall>j. b < j \<longrightarrow> j < ?n \<longrightarrow> ?f j = Greater) \<and> (b = 0 \<or> ?f b \<noteq> Greater)"
    unfolding m by (rule bs_base_inv[OF assms(1) n]) simp_all
  then have inv: "\<forall>j. m < j \<longrightarrow> j < ?n \<longrightarrow> ?f j = Greater" "m = 0 \<or> ?f m \<noteq> Greater" by simp_all
  have search: "binary_search_by f xs = (case ?f m of Equal \<Rightarrow> Inl m | Less \<Rightarrow> Inr (m + 1) | Greater \<Rightarrow> Inr m)"
    using False by (simp add: binary_search_by_def m[symmetric])
  show ?thesis
  proof (cases "?f m")
    case Less
    then have "i = m + 1" using assms(2) search by simp
    moreover have "?f j = Less" if "j \<le> m" for j
      using assms(1) that b Less unfolding ordered_def by blast
    ultimately show ?thesis using inv(1) b by (simp add: less_Suc_eq_le Suc_le_eq)
  next
    case Greater
    then have "i = 0" "m = 0" using assms(2) search inv(2) by simp_all
    moreover have "?f j = Greater" if "j < ?n" for j
      using inv(1) Greater that \<open>m = 0\<close> by (cases j) auto
    ultimately show ?thesis by simp
  next
    case Equal
    then show ?thesis using assms(2) search by simp
  qed
qed (use assms(2) in \<open>simp add: binary_search_by_def\<close>)

lemma chooser_choose_in: "chooser_choose c r = Some h \<Longrightarrow> h \<in> set (ch_items c)"
  by (auto simp: chooser_choose_def get_def pop_def split: sum.splits option.splits if_splits)

lemma chooser_choose_None: "chooser_choose c r = None \<longleftrightarrow> ch_items c = []"
  by (auto simp: chooser_choose_def get_def pop_def split: sum.splits option.splits if_splits)

lemma new_items: "RandomWeightChooser_new s items = Ok c \<Longrightarrow> ch_items c = init_items items"
  by (auto simp: RandomWeightChooser_new_def split: if_splits)

text \<open>
  Whatever the random number, a choice among the given instances is one of those whose weight is
  not zero or negative, and there is one unless all weights are.
\<close>

lemma chooser_picks_weighted:
  assumes "RandomWeightChooser_new s items = Ok c"
  shows "(case chooser_choose c r of
      None \<Rightarrow> \<forall>h\<in>set items. weight h \<le> Fin 0
    | Some h \<Rightarrow> h \<in> set items \<and> \<not> weight h \<le> Fin 0)"
proof (cases "chooser_choose c r")
  case None
  then have "init_items items = []" using new_items[OF assms] chooser_choose_None by metis
  then show ?thesis using None by (simp add: init_items_def filter_empty_conv)
next
  case (Some h)
  then show ?thesis using new_items[OF assms] chooser_choose_in[OF Some] by (simp add: init_items_def)
qed

lemma origin_weight_sum_nonneg: "f64_nonneg s \<Longrightarrow> f64_nonneg (origin_weight_sum s hs)"
proof (induction hs arbitrary: s)
  case (Cons h hs)
  show ?case
  proof (cases "weight h")
    case (Fin x)
    then show ?thesis using Cons by (simp add: f64_add_nonneg)
  qed (use Cons in \<open>simp_all add: f64_add_nonneg less_eq_f64_def f64_eq_def\<close>)
qed simp

lemma init_items_nonneg: "h \<in> set (init_items hs) \<Longrightarrow> f64_nonneg (weight h)"
  by (cases "weight h") (auto simp: init_items_def less_eq_f64_def f64_eq_def)

lemma cumulate_finite:
  assumes "\<forall>x\<in>set xs. f64_nonneg x" "xs \<noteq> []" "last (cumulate s xs) = Fin z" "f64_nonneg s"
  shows "(\<forall>x\<in>set xs. \<exists>a. x = Fin a) \<and> (\<exists>a. s = Fin a)"
  using assms
proof (induction xs arbitrary: s)
  case (Cons x xs)
  show ?case
  proof (cases "xs = []")
    case True
    then show ?thesis using Cons.prems f64_add_finite[of s x z] by auto
  next
    case False
    then have "last (cumulate (f64_add s x) xs) = Fin z"
      using Cons.prems(3) by (metis cumulate.simps(2) cumulate_length last_ConsR length_0_conv)
    then have "(\<forall>x\<in>set xs. \<exists>a. x = Fin a) \<and> (\<exists>a. f64_add s x = Fin a)"
      using Cons.IH Cons.prems False f64_add_nonneg by simp
    then show ?thesis using f64_add_finite[of s x] Cons.prems by auto
  qed
qed simp

lemma cumulate_sorted:
  assumes "\<forall>x\<in>set xs. f64_nonneg x" "xs \<noteq> []" "last (cumulate (Fin a) xs) = Fin z" "0 \<le> a" "fl a = Fin a"
  shows "\<exists>ws. cumulate (Fin a) xs = map Fin ws \<and> sorted (a # ws)"
  using assms
proof (induction xs arbitrary: a)
  case (Cons x xs)
  then obtain b where x: "x = Fin b" "0 \<le> b" using cumulate_finite[OF Cons.prems(1-3)] by auto
  have "\<exists>y. f64_add (Fin a) x = Fin y"
  proof (cases "xs = []")
    case False
    then have "last (cumulate (f64_add (Fin a) x) xs) = Fin z"
      using Cons.prems(3) by (metis cumulate.simps(2) cumulate_length last_ConsR length_0_conv)
    then show ?thesis
      using cumulate_finite[of xs "f64_add (Fin a) x" z] Cons.prems False x f64_add_nonneg[of "Fin a" x] by simp
  qed (use Cons.prems in simp)
  then obtain y where y: "fl (a + b) = Fin y" using x by auto
  have ay: "a \<le> y" using fl_mono[of a "a + b"] x Cons.prems(4,5) y by simp
  have yf: "fl y = Fin y" "0 \<le> y"
    using fl_cases[of "a + b"] y x Cons.prems(4) ay by (metis add_nonneg_nonneg f64.distinct(1) f64.inject, simp)
  show ?case
  proof (cases "xs = []")
    case True
    then show ?thesis using x y ay by (intro exI[of _ "[y]"]) simp
  next
    case False
    then have "last (cumulate (Fin y) xs) = Fin z"
      using Cons.prems(3) x y by (metis cumulate.simps(2) cumulate_length f64_add.simps(1) last_ConsR length_0_conv)
    then obtain ws where "cumulate (Fin y) xs = map Fin ws" "sorted (y # ws)"
      using Cons.IH[of y] Cons.prems False yf by auto
    then show ?thesis using x y ay by (intro exI[of _ "y # ws"]) (auto intro: order_trans)
  qed
qed simp

lemma new_weights:
  assumes "RandomWeightChooser_new s items = Ok c"
  shows "\<exists>ws. ch_weights c = map Fin ws \<and> sorted ws \<and> length ws = length (ch_items c) \<and>
    (\<forall>h\<in>set (ch_items c). \<exists>x. f64_div (weight h) (origin_weight_sum (Fin 0) items) = Fin x)"
proof (cases "init_items items = []")
  case True
  then show ?thesis using assms by (auto simp: RandomWeightChooser_new_def split: if_splits)
next
  case False
  let ?s = "origin_weight_sum (Fin 0) items"
  let ?xs = "map (\<lambda>h. f64_div (weight h) ?s) (init_items items)"
  have w: "ch_weights c = cumulate (Fin 0) ?xs" and it: "ch_items c = init_items items"
    and near: "f64_abs (f64_sub (last (cumulate (Fin 0) ?xs)) (Fin 1)) < fl (1 / 10000)"
    using assms False by (auto simp: RandomWeightChooser_new_def split: if_splits dest!: arg_cong[where f = length])
  have nn: "\<forall>x\<in>set ?xs. f64_nonneg x"
    using origin_weight_sum_nonneg[of "Fin 0" items] init_items_nonneg by (auto intro!: f64_div_nonneg)
  have "\<exists>z. last (cumulate (Fin 0) ?xs) = Fin z"
    using near fl_cases[of "1 / 10000"]
    by (cases "last (cumulate (Fin 0) ?xs)") (auto simp: f64_sub_def)
  then obtain z where z: "last (cumulate (Fin 0) ?xs) = Fin z" by blast
  from cumulate_sorted[OF nn _ z] False obtain ws where ws: "cumulate (Fin 0) ?xs = map Fin ws" "sorted ws"
    by auto
  moreover have "length ws = length (ch_items c)"
    using it ws(1) by (metis cumulate_length length_map)
  ultimately show ?thesis using cumulate_finite[OF nn _ z] w it False by auto
qed

lemma cmp_Fin [simp]:
  "cmp_or_less (Fin d) (Fin r) = (if d < r then Less else if d = r then Equal else Greater)"
  by (simp add: cmp_or_less_def)

lemma chooser_picks_weighted_witness:
  "\<forall>c. RandomWeightChooser_new ''svc'' [ServiceInstance_default] = Ok c \<longrightarrow>
    (case chooser_choose c (Fin (1 / 2)) of
      None \<Rightarrow> \<forall>h\<in>set [ServiceInstance_default]. weight h \<le> Fin 0
    | Some h \<Rightarrow> h \<in> set [ServiceInstance_default] \<and> \<not> weight h \<le> Fin 0)"
  using chooser_picks_weighted by blast

lemma choose_in_interval:
  assumes "RandomWeightChooser_new s items = Ok c" "chooser_choose c (Fin r) = Some h"
  shows "\<exists>ws i. ch_weights c = map Fin ws \<and> sorted ws \<and> i < length ws \<and> length ws = length (ch_items c) \<and>
    h = ch_items c ! i \<and> (i = 0 \<or> ws ! (i - 1) \<le> r) \<and> (r \<le> ws ! i \<or> i = length ws - 1)"
proof -
  from new_weights[OF assms(1)] obtain ws where ws: "ch_weights c = map Fin ws" "sorted ws" "length ws = length (ch_items c)"
    by blast
  let ?f = "\<lambda>d. cmp_or_less d (Fin r)"
  have sorted: "ws ! j \<le> ws ! k" if "j \<le> k" "k < length ws" for j k
    using sorted_nth_mono[OF ws(2)] that by simp
  have ord: "ordered (\<lambda>i. ?f (ch_weights c ! i)) (length (ch_weights c))"
    unfolding ordered_def
  proof (intro allI impI)
    fix j k assume "j \<le> k" "k < length (ch_weights c)"
    then show "(?f (ch_weights c ! j) = Greater \<longrightarrow> ?f (ch_weights c ! k) = Greater) \<and>
        (?f (ch_weights c ! k) = Less \<longrightarrow> ?f (ch_weights c ! j) = Less)"
      using sorted[of j k] ws(1) by (auto split: if_splits)
  qed
  have ne: "ws \<noteq> []" using assms(2) ws(3) chooser_choose_in[OF assms(2)] by auto
  show ?thesis
  proof (cases "binary_search_by ?f (ch_weights c)")
    case (Inl i)
    from binary_search_found[OF Inl] have i: "i < length ws" "ws ! i = r" using ws(1) by (auto split: if_splits)
    moreover have "h = ch_items c ! i" using assms(2) Inl i ws(3) by (simp add: chooser_choose_def get_def)
    moreover have "ws ! (i - 1) \<le> r" using sorted[of "i - 1" i] i by simp
    ultimately show ?thesis using ws by (intro exI[of _ ws] exI[of _ i]) simp
  next
    case (Inr i)
    have cmp: "?f (ch_weights c ! j) = (if ws ! j < r then Less else if ws ! j = r then Equal else Greater)"
      if "j < length ws" for j using that ws(1) by simp
    have len: "length (ch_weights c) = length ws" using ws(1) by simp
    have i: "i \<le> length ws"
      "\<And>j. j < i \<Longrightarrow> ?f (ch_weights c ! j) = Less"
      "\<And>j. i \<le> j \<Longrightarrow> j < length ws \<Longrightarrow> ?f (ch_weights c ! j) = Greater"
      using binary_search_missing[OF ord Inr] unfolding len by blast+
    have "ws ! j < r" if "j < i" for j using i(1) i(2)[OF that] cmp[of j] that by (auto split: if_splits)
    moreover have "r < ws ! j" if "i \<le> j" "j < length ws" for j
      using i(3)[OF that] cmp[OF that(2)] by (auto split: if_splits)
    ultimately have i: "i \<le> length ws"
      "\<And>j. j < i \<Longrightarrow> ws ! j < r" "\<And>j. i \<le> j \<Longrightarrow> j < length ws \<Longrightarrow> r < ws ! j"
      using i(1) by blast+
    show ?thesis
    proof (cases "i < length ws")
      case True
      then have "h = ch_items c ! i" using assms(2) Inr i(3)[of i] ws(1,3) by (simp add: chooser_choose_def get_def)
      moreover have "i = 0 \<or> ws ! (i - 1) \<le> r" using i(2)[of "i - 1"] by (cases i) auto
      ultimately show ?thesis using ws True i(3)[of i] by (intro exI[of _ ws] exI[of _ i]) auto
    next
      case False
      then have "h = ch_items c ! (length ws - 1)"
        using assms(2) Inr ws(1,3) ne by (auto simp: chooser_choose_def pop_def last_conv_nth split: if_splits)
      moreover have "length ws - 1 = 0 \<or> ws ! (length ws - 1 - 1) \<le> r"
        using i False less_imp_le[OF i(2)[of "length ws - 1 - 1"]] ne by (cases "length ws") auto
      moreover have "length ws - 1 < length ws" using ne by simp
      ultimately show ?thesis using ws by (intro exI[of _ ws] exI[of _ "length ws - 1"]) simp
    qed
  qed
qed

lemma new_weights_eq:
  assumes "RandomWeightChooser_new s items = Ok c"
  shows "ch_weights c = cumulate (Fin 0) (map (\<lambda>h. f64_div (weight h) (origin_weight_sum (Fin 0) items)) (init_items items))"
  using assms by (auto simp: RandomWeightChooser_new_def split: if_splits)

text \<open>
  C29: the choice is proportional to the weights: the rounded cumulative shares \<open>ws\<close> of the
  instances with a positive weight are in order, and the random number selects the instance in whose
  interval between two successive ones it falls (the last instance when rounding left the last one
  below it).
\<close>

theorem chooser_interval:
  assumes "RandomWeightChooser_new s items = Ok c" "chooser_choose c (Fin r) = Some h"
  shows "\<exists>ws i. map Fin ws =
      cumulate (Fin 0) (map (\<lambda>h. f64_div (weight h) (origin_weight_sum (Fin 0) items)) (init_items items)) \<and>
    sorted ws \<and> i < length ws \<and> h = init_items items ! i \<and>
    (i = 0 \<or> ws ! (i - 1) \<le> r) \<and> (r \<le> ws ! i \<or> i = length ws - 1)"
proof -
  from choose_in_interval[OF assms] obtain ws i where ws: "ch_weights c = map Fin ws" "sorted ws" "i < length ws"
      "h = ch_items c ! i" "i = 0 \<or> ws ! (i - 1) \<le> r" "r \<le> ws ! i \<or> i = length ws - 1"
    by (elim exE conjE) (rule that)
  then show ?thesis using new_weights_eq[OF assms(1)] new_items[OF assms(1)]
    by (intro exI[of _ ws] exI[of _ i] conjI) simp_all
qed

text \<open>
  one instance with an infinite weight, or a weight that is no number, makes every choice fail.
  (The sum counts such weights as 10000 and 1, but the shares are computed from the weights as given.)
\<close>

lemma infinite_weight_breaks_choice:
  assumes "h \<in> set items" "weight h = PosInf \<or> weight h = NotANumber"
  shows "\<exists>e. RandomWeightChooser_new s items = Err e"
proof (cases "RandomWeightChooser_new s items")
  case (Inr c)
  have "h \<in> set (ch_items c)"
    using assms new_items[OF Inr] by (auto simp: init_items_def less_eq_f64_def f64_eq_def)
  then obtain x where x: "f64_div (weight h) (origin_weight_sum (Fin 0) items) = Fin x"
    using new_weights[OF Inr] by blast
  have "f64_nonneg (origin_weight_sum (Fin 0) items)" by (rule origin_weight_sum_nonneg) simp
  then show ?thesis using assms(2) x by (cases "origin_weight_sum (Fin 0) items") auto
qed simp

lemma infinite_weight_breaks_choice_witness:
  "\<exists>e. RandomWeightChooser_new ''svc'' [ServiceInstance_default, ServiceInstance_default\<lparr>weight := PosInf\<rparr>] = Err e"
  by (rule infinite_weight_breaks_choice[of "ServiceInstance_default\<lparr>weight := PosInf\<rparr>"]) simp_all

lemma demo_chooser:
  "RandomWeightChooser_new ''svc'' [ServiceInstance_default, ServiceInstance_default\<lparr>weight := Fin 3\<rparr>] =
    Ok \<lparr>ch_weights = [Fin (1 / 4), Fin 1], ch_items = [ServiceInstance_default, ServiceInstance_default\<lparr>weight := Fin 3\<rparr>]\<rparr>"
proof -
  have fl: "fl 1 = Fin 1" "fl 4 = Fin 4" "fl (1 / 4) = Fin (1 / 4)" "fl (3 / 4) = Fin (3 / 4)" "fl (1 / 16384) = Fin (1 / 16384)"
    using fl_dyadic[of 1 1 0] fl_dyadic[of 4 1 2] fl_dyadic[of "1 / 4" 1 "- 2"] fl_dyadic[of "3 / 4" 3 "- 2"]
      fl_dyadic[of "1 / 16384" 1 "- 14"]
    by (simp_all add: power_int_def power_divide)
  have "fl (1 / 16384) \<le> fl (1 / 10000)" by (rule fl_mono) simp_all
  then have "Fin 0 < fl (1 / 10000)" using fl(5) by (cases "fl (1 / 10000)") (auto simp: less_eq_f64_def f64_eq_def)
  then show ?thesis using fl
    by (simp add: RandomWeightChooser_new_def ServiceInstance_default_def init_items_def f64_sub_def)
qed

lemma demo_cumulate:
  "cumulate (Fin 0) (map (\<lambda>h. f64_div (weight h)
      (origin_weight_sum (Fin 0) [ServiceInstance_default, ServiceInstance_default\<lparr>weight := Fin 3\<rparr>]))
    (init_items [ServiceInstance_default, ServiceInstance_default\<lparr>weight := Fin 3\<rparr>])) = [Fin (1 / 4), Fin 1]"
  using new_weights_eq[OF demo_chooser] by simp

lemma demo_choice:
  "chooser_choose \<lparr>ch_weights = [Fin (1 / 4), Fin 1], ch_items = [ServiceInstance_default, ServiceInstance_default\<lparr>weight := Fin 3\<rparr>]\<rparr>
    (Fin (1 / 2)) = Some (ServiceInstance_default\<lparr>weight := Fin 3\<rparr>)"
  by (simp add: chooser_choose_def binary_search_by_def get_def bs_base.simps)

lemma chooser_interval_witness:
  "\<exists>ws i. map Fin ws = [Fin (1 / 4), Fin 1] \<and> sorted ws \<and> i < length ws \<and>
    ServiceInstance_default\<lparr>weight := Fin 3\<rparr> = [ServiceInstance_default, ServiceInstance_default\<lparr>weight := Fin 3\<rparr>] ! i"
proof -
  from chooser_interval[OF demo_chooser demo_choice] show ?thesis
    unfolding demo_cumulate unfolding new_items[OF demo_chooser, symmetric] chooser.select_convs
    by (elim exE conjE) (intro exI conjI)
qed

end
