(* ===== verification/NamingService.thy ===== *)
theory NamingService
  imports Updater Chooser
begin

text \<open>
  The naming service (src/naming/mod.rs) behind the public API (src/api/naming.rs): registration,
  queries and subscriptions, composed of the redo executor, the updater, the observers and the cache.
\<close>

section \<open>State and server\<close>

record 'l naming_service =
  nam_namespace :: string
  nam_redo :: redo
  nam_updater :: updater
  nam_emitter :: emitter
  nam_observers :: "'l observers"

text \<open>
  What the server answers to each kind of request, the id of the request and the random number a call
  draws.
\<close>

record naming_env =
  env_instance :: "InstanceRequest \<Rightarrow> InstanceResponse result"
  env_persistent :: "PersistentInstanceRequest \<Rightarrow> InstanceResponse result"
  env_batch :: "BatchInstanceRequest \<Rightarrow> InstanceResponse result"
  env_service :: "ServiceQueryRequest \<Rightarrow> QueryServiceResponse result"
  env_list :: "ServiceListRequest \<Rightarrow> ServiceListResponse result"
  env_subscribe :: "SubscribeServiceRequest \<Rightarrow> SubscribeServiceResponse result"
  env_rid :: string
  env_random :: f64

section \<open>Registration\<close>

definition with_redo :: "(redo \<Rightarrow> 'r \<times> redo) \<Rightarrow> 'l naming_service \<Rightarrow> 'r \<times> 'l naming_service" where
  "with_redo f s = (let (r, d) = f (nam_redo s) in (r, s\<lparr>nam_redo := d\<rparr>))"

definition register_ephemeral_instance_async ::
    "naming_env \<Rightarrow> string \<Rightarrow> string option \<Rightarrow> ServiceInstance \<Rightarrow> 'l naming_service \<Rightarrow> unit result \<times> 'l naming_service" where
  "register_ephemeral_instance_async v service_name grp inst s =
    (let request = InstanceRequest_register (env_rid v) inst (Some service_name) (Some (nam_namespace s))
           (Some (normalize_group_name grp))
     in with_redo (execute_by_register_with_redo (\<lambda>_. env_instance v request) (AutoInstance request)
          ''register_ephemeral_instance'') s)"

definition register_persistent_instance_async ::
    "naming_env \<Rightarrow> string \<Rightarrow> string option \<Rightarrow> ServiceInstance \<Rightarrow> 'l naming_service \<Rightarrow> unit result \<times> 'l naming_service" where
  "register_persistent_instance_async v service_name grp inst s =
    (let request = PersistentInstanceRequest_register (env_rid v) inst (Some service_name) (Some (nam_namespace s))
           (Some (normalize_group_name grp))
     in with_redo (execute_by_register_with_redo (\<lambda>_. env_persistent v request) (AutoPersistent request)
          ''register_persistent_instance'') s)"

definition deregister_ephemeral_instance_async ::
    "naming_env \<Rightarrow> string \<Rightarrow> string option \<Rightarrow> ServiceInstance \<Rightarrow> 'l naming_service \<Rightarrow> unit result \<times> 'l naming_service" where
  "deregister_ephemeral_instance_async v service_name grp inst s =
    (let request = InstanceRequest_deregister (env_rid v) inst (Some service_name) (Some (nam_namespace s))
           (Some (normalize_group_name grp))
     in with_redo (execute_by_deregister_with_redo (\<lambda>_. env_instance v request) (AutoInstance request)
          ''deregister_ephemeral_instance'') s)"

definition deregister_persistent_instance_async ::
    "naming_env \<Rightarrow> string \<Rightarrow> string option \<Rightarrow> ServiceInstance \<Rightarrow> 'l naming_service \<Rightarrow> unit result \<times> 'l naming_service" where
  "deregister_persistent_instance_async v service_name grp inst s =
    (let request = PersistentInstanceRequest_deregister (env_rid v) inst (Some service_name) (Some (nam_namespace s))
           (Some (normalize_group_name grp))
     in with_redo (execute_by_deregister_with_redo (\<lambda>_. env_persistent v request) (AutoPersistent request)
          ''deregister_persistent_instance'') s)"

definition batch_register_instance_async ::
    "naming_env \<Rightarrow> string \<Rightarrow> string option \<Rightarrow> ServiceInstance list \<Rightarrow> 'l naming_service \<Rightarrow> unit result \<times> 'l naming_service" where
  "batch_register_instance_async v service_name grp insts s =
    (let request = BatchInstanceRequest_new (env_rid v) insts (Some (nam_namespace s)) (Some service_name)
           (Some (normalize_group_name grp))
     in with_redo (execute_by_register_with_redo (\<lambda>_. env_batch v request) (AutoBatch request)
          ''batch_register_instance'') s)"

definition register_instance ::
    "naming_env \<Rightarrow> string \<Rightarrow> string option \<Rightarrow> ServiceInstance \<Rightarrow> 'l naming_service \<Rightarrow> unit result \<times> 'l naming_service" where
  "register_instance v service_name grp inst s =
    (if ephemeral inst then register_ephemeral_instance_async v service_name grp inst s
     else register_persistent_instance_async v service_name grp inst s)"

definition deregister_instance ::
    "naming_env \<Rightarrow> string \<Rightarrow> string option \<Rightarrow> ServiceInstance \<Rightarrow> 'l naming_service \<Rightarrow> unit result \<times> 'l naming_service" where
  "deregister_instance v service_name grp inst s =
    (if ephemeral inst then deregister_ephemeral_instance_async v service_name grp inst s
     else deregister_persistent_instance_async v service_name grp inst s)"

section \<open>Subscription\<close>

text \<open>
  \<^verbatim>\<open>subscribe_async\<close>. When the service is cached it returns at once and leaves the request to a
  spawned task: the third component, the request and the redo task to set to rest.
\<close>

type_synonym spawned = "(SubscribeServiceRequest \<times> nat) option"

definition subscribe_async ::
    "naming_env \<Rightarrow> string \<Rightarrow> string option \<Rightarrow> string list \<Rightarrow> 'l option \<Rightarrow> 'l naming_service \<Rightarrow>
      ServiceInfo result \<times> 'l naming_service \<times> spawned" where
  "subscribe_async v service_name grp cls event_listener s =
    (let cluster = join '','' cls;
         grp_name = normalize_group_name grp;
         key = get_key_without_clusters service_name grp_name;
         s1 = s\<lparr>nam_updater := schedule_update (nam_namespace s) service_name grp_name cluster (nam_updater s)\<rparr>;
         s2 = (case event_listener of None \<Rightarrow> s1
               | Some l \<Rightarrow> s1\<lparr>nam_observers := subscribe key l (nam_observers s1)\<rparr>);
         request = SubscribeServiceRequest_new (env_rid v) True cluster (Some service_name)
           (Some (nam_namespace s)) (Some grp_name);
         (i, d) = register_begin (AutoSubscribe request) (nam_redo s2);
         s3 = s2\<lparr>nam_redo := d\<rparr>
     in case cache_get (e_cache (nam_emitter s3)) key of
          Some cached_info \<Rightarrow> (Ok cached_info, s3, Some (request, i))
        | None \<Rightarrow>
            (case env_subscribe v request of
               Inl e \<Rightarrow> (Err e, s3, None)
             | Inr response \<Rightarrow>
                 (case handle_response response ''subscribe'' of
                    Inl e \<Rightarrow> (Err e, s3, None)
                  | Inr _ \<Rightarrow> (Ok (ssr_service_info response), s3\<lparr>nam_redo := set_active i False (nam_redo s3)\<rparr>, None))))"

text \<open>The spawned task, when its answer is there.\<close>

definition subscribe_spawned :: "naming_env \<Rightarrow> SubscribeServiceRequest \<Rightarrow> nat \<Rightarrow> 'l naming_service \<Rightarrow> 'l naming_service" where
  "subscribe_spawned v request i s =
    (case env_subscribe v request of
       Inl e \<Rightarrow> s
     | Inr response \<Rightarrow>
         if is_ok (handle_response response ''subscribe'') then s\<lparr>nam_redo := set_active i False (nam_redo s)\<rparr> else s)"

definition unsubscribe_async ::
    "naming_env \<Rightarrow> string \<Rightarrow> string option \<Rightarrow> string list \<Rightarrow> 'l option \<Rightarrow> 'l naming_service \<Rightarrow> unit result \<times> 'l naming_service" where
  "unsubscribe_async v service_name grp cls event_listener s =
    (let cluster = join '','' cls;
         grp_name = normalize_group_name grp;
         s1 = s\<lparr>nam_updater := stop_update service_name grp_name cluster (nam_updater s)\<rparr>;
         s2 = (case event_listener of None \<Rightarrow> s1
               | Some l \<Rightarrow> s1\<lparr>nam_observers := unsubscribe (get_key_without_clusters service_name grp_name) l (nam_observers s1)\<rparr>);
         request = SubscribeServiceRequest_new (env_rid v) False cluster (Some service_name)
           (Some (nam_namespace s)) (Some grp_name)
     in case env_subscribe v request of
          Inl e \<Rightarrow> (Err e, s2)
        | Inr response \<Rightarrow>
            (case handle_response response ''unsubscribe'' of
               Inl e \<Rightarrow> (Err e, s2)
             | Inr _ \<Rightarrow> (Ok (), s2\<lparr>nam_redo := remove_task (auto_name (AutoSubscribe request)) (nam_redo s2)\<rparr>)))"

definition naming_subscribe ::
    "naming_env \<Rightarrow> string \<Rightarrow> string option \<Rightarrow> string list \<Rightarrow> 'l \<Rightarrow> 'l naming_service \<Rightarrow> unit result \<times> 'l naming_service \<times> spawned" where
  "naming_subscribe v service_name grp cls l s =
    (let (_, s', sp) = subscribe_async v service_name grp cls (Some l) s in (Ok (), s', sp))"

section \<open>Queries\<close>

definition get_all_instances_async ::
    "naming_env \<Rightarrow> string \<Rightarrow> string option \<Rightarrow> string list \<Rightarrow> bool \<Rightarrow> 'l naming_service \<Rightarrow>
      ServiceInstance list result \<times> 'l naming_service \<times> spawned" where
  "get_all_instances_async v service_name grp cls sub s =
    (let cluster_str = join '','' cls;
         grp_name = normalize_group_name grp;
         hosts_of = (\<lambda>info. case info of None \<Rightarrow> [] | Some i \<Rightarrow> (case hosts i of None \<Rightarrow> [] | Some hs \<Rightarrow> hs))
     in if sub then
          (let key = get_key (get_grouped_service_name service_name grp_name) cluster_str
           in case cache_get (e_cache (nam_emitter s)) key of
                Some cached_info \<Rightarrow> (Ok (hosts_of (Some cached_info)), s, None)
              | None \<Rightarrow>
                  (let (r, s', sp) = subscribe_async v service_name (Some grp_name) cls None s
                   in (Ok (hosts_of (case r of Inl e \<Rightarrow> None | Inr info \<Rightarrow> Some info)), s', sp)))
        else
          (let request = \<lparr>req_headers = Map.empty, request_id = None, nr_namespace = Some (nam_namespace s),
                 nr_service_name = Some service_name, nr_group_name = Some grp_name,
                 sq_cluster = cluster_str, sq_healthy_only = False, sq_udp_port = 0\<rparr>
           in case env_service v request of
                Inl e \<Rightarrow> (Err e, s, None)
              | Inr response \<Rightarrow>
                  (case handle_response response ''get_all_instances'' of
                     Inl e \<Rightarrow> (Err e, s, None)
                   | Inr _ \<Rightarrow> (Ok (hosts_of (Some (qs_service_info response))), s, None))))"

definition select_instances_async ::
    "naming_env \<Rightarrow> string \<Rightarrow> string option \<Rightarrow> string list \<Rightarrow> bool \<Rightarrow> bool \<Rightarrow> 'l naming_service \<Rightarrow>
      ServiceInstance list result \<times> 'l naming_service \<times> spawned" where
  "select_instances_async v service_name grp cls sub want_healthy s =
    (let grp_name = normalize_group_name grp;
         (r, s', sp) = get_all_instances_async v service_name (Some grp_name) cls sub s
     in (and_then r (\<lambda>all_instance. Ok (filter (\<lambda>h. want_healthy = healthy h \<and> enabled h \<and> Fin 0 < weight h) all_instance)),
         s', sp))"

definition select_one_healthy_instance_async ::
    "naming_env \<Rightarrow> string \<Rightarrow> string option \<Rightarrow> string list \<Rightarrow> bool \<Rightarrow> 'l naming_service \<Rightarrow>
      ServiceInstance result \<times> 'l naming_service \<times> spawned" where
  "select_one_healthy_instance_async v service_name grp cls sub s =
    (let grp_name = normalize_group_name grp;
         (r, s', sp) = select_instances_async v service_name (Some grp_name) cls sub True s
     in (and_then r (\<lambda>ret. and_then (RandomWeightChooser_new service_name ret)
           (\<lambda>chooser. case chooser_choose chooser (env_random v) of
              None \<Rightarrow> Err (no_service_error service_name) | Some h \<Rightarrow> Ok h)), s', sp))"

definition get_service_list_async ::
    "naming_env \<Rightarrow> 32 word \<Rightarrow> 32 word \<Rightarrow> string option \<Rightarrow> 'l naming_service \<Rightarrow> (string list \<times> 32 word) result" where
  "get_service_list_async v page_no page_size grp s =
    (let request = \<lparr>req_headers = Map.empty, request_id = None, nr_namespace = Some (nam_namespace s),
           nr_service_name = None, nr_group_name = Some (normalize_group_name grp),
           sl_page_no = page_no, sl_page_size = page_size, sl_selector = None\<rparr>
     in and_then (env_list v request) (\<lambda>response. and_then (handle_response response ''get_service_list'')
          (\<lambda>_. Ok (slr_service_names response, slr_count response))))"

section \<open>The public calls\<close>

datatype 'l naming_call =
    RegisterInstance string "string option" ServiceInstance
  | DeregisterInstance string "string option" ServiceInstance
  | BatchRegisterInstance string "string option" "ServiceInstance list"
  | GetAllInstances string "string option" "string list" bool
  | SelectInstances string "string option" "string list" bool bool
  | SelectOneHealthyInstance string "string option" "string list" bool
  | GetServiceList "32 word" "32 word" "string option"
  | Subscribe string "string option" "string list" 'l
  | Unsubscribe string "string option" "string list" 'l

datatype naming_outcome =
    NFailed error
  | NDone
  | NInstances "ServiceInstance list"
  | NInstance ServiceInstance
  | NServices "string list" "32 word"

fun outcome :: "('a \<Rightarrow> naming_outcome) \<Rightarrow> 'a result \<Rightarrow> naming_outcome" where
  "outcome f (Inl e) = NFailed e"
| "outcome f (Inr x) = f x"

fun nacos_naming_call ::
    "naming_env \<Rightarrow> 'l naming_call \<Rightarrow> 'l naming_service \<Rightarrow> naming_outcome \<times> 'l naming_service \<times> spawned" where
  "nacos_naming_call v (RegisterInstance n g h) s =
    (let (r, s') = register_instance v n g h s in (outcome (\<lambda>_. NDone) r, s', None))"
| "nacos_naming_call v (DeregisterInstance n g h) s =
    (let (r, s') = deregister_instance v n g h s in (outcome (\<lambda>_. NDone) r, s', None))"
| "nacos_naming_call v (BatchRegisterInstance n g hs) s =
    (let (r, s') = batch_register_instance_async v n g hs s in (outcome (\<lambda>_. NDone) r, s', None))"
| "nacos_naming_call v (GetAllInstances n g c b) s =
    (let (r, s', sp) = get_all_instances_async v n g c b s in (outcome NInstances r, s', sp))"
| "nacos_naming_call v (SelectInstances n g c b w) s =
    (let (r, s', sp) = select_instances_async v n g c b w s in (outcome NInstances r, s', sp))"
| "nacos_naming_call v (SelectOneHealthyInstance n g c b) s =
    (let (r, s', sp) = select_one_healthy_instance_async v n g c b s in (outcome NInstance r, s', sp))"
| "nacos_naming_call v (GetServiceList p z g) s =
    (outcome (\<lambda>(ns, c). NServices ns c) (get_service_list_async v p z g s), s, None)"
| "nacos_naming_call v (Subscribe n g c l) s =
    (let (r, s', sp) = naming_subscribe v n g c l s in (outcome (\<lambda>_. NDone) r, s', sp))"
| "nacos_naming_call v (Unsubscribe n g c l) s =
    (let (r, s') = unsubscribe_async v n g c (Some l) s in (outcome (\<lambda>_. NDone) r, s', None))"

text \<open>The name a call of \<^verbatim>\<open>NamingService\<close> checks.\<close>

fun checked_name :: "'l naming_call \<Rightarrow> string option" where
  "checked_name (RegisterInstance n g h) = Some n"
| "checked_name (DeregisterInstance n g h) = Some n"
| "checked_name (BatchRegisterInstance n g hs) = Some n"
| "checked_name (GetAllInstances n g c b) = Some n"
| "checked_name (SelectInstances n g c b w) = Some n"
| "checked_name (SelectOneHealthyInstance n g c b) = Some n"
| "checked_name (GetServiceList p z g) = None"
| "checked_name (Subscribe n g c l) = Some n"
| "checked_name (Unsubscribe n g c l) = Some n"

definition naming_service_call ::
    "naming_env \<Rightarrow> 'l naming_call \<Rightarrow> 'l naming_service \<Rightarrow> naming_outcome \<times> 'l naming_service \<times> spawned" where
  "naming_service_call v c s =
    (case checked_name c of
       None \<Rightarrow> nacos_naming_call v c s
     | Some n \<Rightarrow>
         (case check_not_blank n ''service_name'' of
            Inl e \<Rightarrow> (NFailed e, s, None)
          | Inr _ \<Rightarrow> nacos_naming_call v c s))"

end
