(* ===== verification/NamingProps.thy ===== *)
theory NamingProps
  imports NamingService
begin

text \<open>
  Properties of the naming service: what every public call keeps, the guards, what a subscription
  leaves behind, what a selection returns, and where calls for one service get in each other's way.
\<close>

section \<open>The invariant\<close>

definition naming_ok :: "'l naming_service \<Rightarrow> bool" where
  "naming_ok s = (redo_ok (nam_redo s) \<and> updater_ok (nam_updater s) \<and> emitter_ok (nam_emitter s) \<and>
     (\<forall>k. distinct (observers_of k (nam_observers s))))"

lemma observers_distinct [wf_preserve]:
  assumes "\<forall>k. distinct (observers_of k m)"
  shows "distinct (observers_of k (subscribe key l m))" "distinct (observers_of k (unsubscribe key l m))"
  using assms other_key_untouched[of k key l m] subscribe_members[of key m l] unsubscribe_members[of key m l]
  by (cases "k = key"; simp)+

text \<open>The part of the state a call may change.\<close>

definition naming_kept :: "'l naming_service \<Rightarrow> 'l naming_service \<Rightarrow> bool" where
  "naming_kept s s' = (nam_namespace s' = nam_namespace s \<and> nam_emitter s' = nam_emitter s \<and> (naming_ok s \<longrightarrow> naming_ok s'))"

lemma naming_kept_refl [simp]: "naming_kept s s"
  by (simp add: naming_kept_def)

lemma register_redo_ok [wf_preserve]:
  "redo_ok d \<Longrightarrow> redo_ok (snd (execute_by_register_with_redo send req oper d))"
  by (auto simp: execute_by_register_with_redo_def register_finish_def case_prod_unfold split: sum.splits
      intro: wf_preserve)

lemma deregister_redo_ok [wf_preserve]:
  "redo_ok d \<Longrightarrow> redo_ok (snd (execute_by_deregister_with_redo send req oper d))"
  by (auto simp: execute_by_deregister_with_redo_def split: sum.splits intro: wf_preserve)

lemma with_redo_kept:
  "(\<And>d. redo_ok d \<Longrightarrow> redo_ok (snd (f d))) \<Longrightarrow> naming_kept s (snd (with_redo f s))"
  by (simp add: with_redo_def naming_kept_def naming_ok_def case_prod_unfold)

lemma register_instance_kept: "naming_kept s (snd (register_instance v n g h s))"
  unfolding register_instance_def register_ephemeral_instance_async_def register_persistent_instance_async_def Let_def
  by (simp add: with_redo_kept wf_preserve)

lemma deregister_instance_kept: "naming_kept s (snd (deregister_instance v n g h s))"
  unfolding deregister_instance_def deregister_ephemeral_instance_async_def deregister_persistent_instance_async_def Let_def
  by (simp add: with_redo_kept wf_preserve)

lemma batch_register_kept: "naming_kept s (snd (batch_register_instance_async v n g hs s))"
  unfolding batch_register_instance_async_def Let_def by (simp add: with_redo_kept wf_preserve)

lemma subscribe_kept: "naming_kept s (fst (snd (subscribe_async v n g cls l s)))"
  by (auto simp: subscribe_async_def naming_kept_def naming_ok_def case_prod_unfold
      split: option.splits sum.splits intro: wf_preserve)

lemma unsubscribe_kept: "naming_kept s (snd (unsubscribe_async v n g cls l s))"
  by (auto simp: unsubscribe_async_def naming_kept_def naming_ok_def
      split: option.splits sum.splits intro: wf_preserve)

lemma get_all_kept: "naming_kept s (fst (snd (get_all_instances_async v n g cls b s)))"
  using subscribe_kept
  by (auto simp: get_all_instances_async_def case_prod_unfold split: option.splits sum.splits)

lemma select_kept:
  "naming_kept s (fst (snd (select_instances_async v n g cls b w s)))"
  "naming_kept s (fst (snd (select_one_healthy_instance_async v n g cls b s)))"
  using get_all_kept
  by (simp_all add: select_instances_async_def select_one_healthy_instance_async_def case_prod_unfold)

lemmas naming_calls_kept = register_instance_kept deregister_instance_kept batch_register_kept subscribe_kept
  unsubscribe_kept get_all_kept select_kept

lemma nacos_naming_call_kept: "naming_kept s (fst (snd (nacos_naming_call v c s)))"
  by (cases c) (simp_all add: case_prod_unfold naming_subscribe_def naming_calls_kept)

text \<open>
  every call of the naming API, with any answers of the server, keeps the tasks, loops and cached
  services well formed and leaves the namespace and the cache alone (only pushes and the updater
  write it); a blank service name is refused before anything happens.
\<close>

lemma naming_call_safe:
  assumes "naming_ok s" "naming_service_call v c s = (out, s', sp)"
  shows "naming_ok s' \<and> nam_namespace s' = nam_namespace s \<and> nam_emitter s' = nam_emitter s \<and>
    (\<forall>n. checked_name c = Some n \<longrightarrow> trim n = [] \<longrightarrow>
      out = NFailed (InvalidParam ''service_name'' ''param must not blank!'') \<and> s' = s \<and> sp = None)"
proof -
  have "naming_kept s s'" using assms(2) nacos_naming_call_kept[of s v c]
    by (auto simp: naming_service_call_def split: option.splits sum.splits)
  moreover have "out = NFailed (InvalidParam ''service_name'' ''param must not blank!'') \<and> s' = s \<and> sp = None"
    if "checked_name c = Some n" "trim n = []" for n
    using assms(2) that by (simp add: naming_service_call_def check_not_blank_def)
  ultimately show ?thesis using assms(1) by (simp add: naming_kept_def)
qed

definition demo_naming :: "nat naming_service" where
  "demo_naming = \<lparr>nam_namespace = ''ns'', nam_redo = redo_new, nam_updater = updater_new,
     nam_emitter = demo_emitter, nam_observers = Map.empty\<rparr>"

definition demo_failing :: naming_env where
  "demo_failing = \<lparr>env_instance = \<lambda>_. Err (ErrResult []), env_persistent = \<lambda>_. Err (ErrResult []),
     env_batch = \<lambda>_. Err (ErrResult []), env_service = \<lambda>_. Err (ErrResult []), env_list = \<lambda>_. Err (ErrResult []),
     env_subscribe = \<lambda>_. Err (ErrResult []), env_rid = ''1'', env_random = Fin 0\<rparr>"

definition demo_working :: "ServiceInfo \<Rightarrow> naming_env" where
  "demo_working info = \<lparr>env_instance = \<lambda>_. Ok (grpc_response.extend response_ok \<lparr>irp_type = None\<rparr>),
     env_persistent = \<lambda>_. Ok (grpc_response.extend response_ok \<lparr>irp_type = None\<rparr>),
     env_batch = \<lambda>_. Ok (grpc_response.extend response_ok \<lparr>irp_type = None\<rparr>),
     env_service = \<lambda>_. Ok (grpc_response.extend response_ok \<lparr>qs_service_info = info\<rparr>),
     env_list = \<lambda>_. Ok (grpc_response.extend response_ok \<lparr>slr_count = 0, slr_service_names = []\<rparr>),
     env_subscribe = \<lambda>_. Ok (grpc_response.extend response_ok \<lparr>ssr_service_info = info\<rparr>),
     env_rid = ''1'', env_random = Fin 0\<rparr>"

lemma demo_naming_ok: "naming_ok demo_naming"
  by (simp add: naming_ok_def demo_naming_def redo_new_ok updater_new_ok demo_emitter_ok observers_of_def)

lemma naming_call_safe_witness:
  "\<exists>out s' sp. naming_service_call demo_failing (Subscribe ''svc'' None [] 7) demo_naming = (out, s', sp) \<and> naming_ok s'"
  using naming_call_safe[OF demo_naming_ok] by (metis prod_cases3)

section \<open>Subscriptions\<close>

definition subscribe_key :: "'l naming_service \<Rightarrow> string \<Rightarrow> string option \<Rightarrow> string" where
  "subscribe_key s n g = nam_namespace s @ ''@@'' @ normalize_group_name g @ ''@@'' @ n @ ''@@SubscribeServiceRequest''"

lemma subscribe_auto_name:
  "auto_name (AutoSubscribe (SubscribeServiceRequest_new rid b cls (Some n) (Some ns) (Some g))) =
    ns @ ''@@'' @ g @ ''@@'' @ n @ ''@@SubscribeServiceRequest''"
  by (simp add: auto_name_def SubscribeServiceRequest_new_def unwrap_or_empty_def naming_request.truncate_def)

definition subscribe_task :: "naming_env \<Rightarrow> string \<Rightarrow> string option \<Rightarrow> string list \<Rightarrow> 'l naming_service \<Rightarrow> automatic_request" where
  "subscribe_task v n g cls s = AutoSubscribe (SubscribeServiceRequest_new (env_rid v) True (join '','' cls) (Some n)
     (Some (nam_namespace s)) (Some (normalize_group_name g)))"

lemma subscribe_redo_map:
  assumes "redo_ok d"
  shows "redo_map (snd (register_begin req d)) = (redo_map d)(auto_name req \<mapsto> \<lparr>rt_id = redo_next d, rt_request = req, rt_active = True\<rparr>)"
    "redo_map (set_active (redo_next d) False (snd (register_begin req d))) =
      (redo_map d)(auto_name req \<mapsto> \<lparr>rt_id = redo_next d, rt_request = req, rt_active = False\<rparr>)"
proof -
  show 1: "redo_map (snd (register_begin req d)) = (redo_map d)(auto_name req \<mapsto> \<lparr>rt_id = redo_next d, rt_request = req, rt_active = True\<rparr>)"
    by (simp add: register_begin_def add_task_def task_key_def)
  have "map_option (\<lambda>t. if rt_id t = redo_next d then t\<lparr>rt_active := False\<rparr> else t) (redo_map d k) = redo_map d k" for k
    by (cases "redo_map d k") (auto dest: redo_okD(2)[OF assms])
  then show "redo_map (set_active (redo_next d) False (snd (register_begin req d))) =
      (redo_map d)(auto_name req \<mapsto> \<lparr>rt_id = redo_next d, rt_request = req, rt_active = False\<rparr>)"
    by (auto simp: redo_map_set_active 1 fun_eq_iff)
qed

lemma register_begin_id: "fst (register_begin req d) = redo_next d"
  by (simp add: register_begin_def)



text \<open>
  unsubscribing one listener of a service takes the service away from the others: the other
  listener stays registered, but the server has been told to push no more, the polling loop is
  stopped, and the subscription is not restored after a reconnect.
\<close>

lemma unsubscribe_one_stops_all:
  assumes "naming_ok s" "l2 \<in> set (observers_of (get_key_without_clusters n (normalize_group_name g)) (nam_observers s))"
    "l1 \<noteq> l2" "unsubscribe_async v n g cls (Some l1) s = (Ok (), s')"
  shows "l2 \<in> set (observers_of (get_key_without_clusters n (normalize_group_name g)) (nam_observers s')) \<and>
    up_map (nam_updater s') (update_task_key n (normalize_group_name g) (join '','' cls)) = None \<and>
    redo_map (nam_redo s') (auto_name (subscribe_task v n g cls s)) = None \<and>
    (\<exists>resp. env_subscribe v (SubscribeServiceRequest_new (env_rid v) False (join '','' cls) (Some n) (Some (nam_namespace s))
      (Some (normalize_group_name g))) = Ok resp \<and> is_success resp)"
proof -
  let ?k = "get_key_without_clusters n (normalize_group_name g)"
  have obs: "distinct (observers_of ?k (nam_observers s))" using assms(1) by (simp add: naming_ok_def)
  have "nam_observers s' = unsubscribe ?k l1 (nam_observers s)"
    "nam_updater s' = stop_update n (normalize_group_name g) (join '','' cls) (nam_updater s)"
    "redo_map (nam_redo s') (auto_name (subscribe_task v n g cls s)) = None"
    "\<exists>resp. env_subscribe v (SubscribeServiceRequest_new (env_rid v) False (join '','' cls) (Some n) (Some (nam_namespace s))
      (Some (normalize_group_name g))) = Ok resp \<and> is_success resp"
    using assms(4)
    by (auto simp: unsubscribe_async_def subscribe_task_def subscribe_auto_name remove_task_def split: sum.splits)
  moreover have "up_map (stop_update n g' c u) (update_task_key n g' c) = None" for g' c u
    by (simp add: stop_update_def split: option.split)
  ultimately show ?thesis using unsubscribe_members[OF obs, of l1] assms(2,3) by simp
qed

lemma unsubscribe_one_stops_all_witness:
  "\<exists>s'. unsubscribe_async (demo_working (demo_service 1 ''a'')) ''svc'' None [] (Some 1)
      (demo_naming\<lparr>nam_observers := [''DEFAULT_GROUP@@svc'' \<mapsto> [1, 2]]\<rparr>) = (Ok (), s') \<and>
    up_map (nam_updater s') (update_task_key ''svc'' ''DEFAULT_GROUP'' []) = None"
proof -
  let ?s = "demo_naming\<lparr>nam_observers := [''DEFAULT_GROUP@@svc'' \<mapsto> [1, 2 :: nat]]\<rparr>"
  let ?v = "demo_working (demo_service 1 ''a'')"
  have key: "get_key_without_clusters ''svc'' (normalize_group_name None) = ''DEFAULT_GROUP@@svc''" by code_simp
  have g: "normalize_group_name None = ''DEFAULT_GROUP''" by code_simp
  have ok: "naming_ok ?s" using demo_naming_ok by (simp add: naming_ok_def observers_of_def)
  have mem: "2 \<in> set (observers_of (get_key_without_clusters ''svc'' (normalize_group_name None)) (nam_observers ?s))"
    unfolding key by (simp add: observers_of_def)
  have "is_success (grpc_response.extend response_ok \<lparr>ssr_service_info = info\<rparr>)" for info
    by (simp add: is_success_def grpc_response.defs response_ok_def response_default_def)
  then have "fst (unsubscribe_async ?v ''svc'' None [] (Some 1) ?s) = Ok ()"
    by (simp add: unsubscribe_async_def demo_working_def handle_response_def)
  then obtain s' where s': "unsubscribe_async ?v ''svc'' None [] (Some 1) ?s = (Ok (), s')" by (metis prod.collapse)
  from unsubscribe_one_stops_all[OF ok mem _ s'] s' show ?thesis by (simp add: g)
qed

section \<open>Queries\<close>

lemma normalize_idem [simp]: "normalize_group_name (Some (normalize_group_name g)) = normalize_group_name g"
  by (simp add: normalize_group_name_def DEFAULT_GROUP_def split: option.split)

lemma normalize_nonempty [simp]: "normalize_group_name g \<noteq> []"
  by (simp add: normalize_group_name_def DEFAULT_GROUP_def split: option.split)

lemma subscribe_async_normalized: "subscribe_async v n (Some (normalize_group_name g)) cls l s = subscribe_async v n g cls l s"
  unfolding subscribe_async_def normalize_idem ..

lemma get_all_normalized:
  "get_all_instances_async v n (Some (normalize_group_name g)) cls b s = get_all_instances_async v n g cls b s"
  unfolding get_all_instances_async_def normalize_idem ..

text \<open>
  C31: a selected instance is one the query for the service returned, and it is healthy, enabled and
  has a positive weight; when the query returned none such, the call fails saying so.
\<close>

theorem select_one_sound:
  assumes "select_one_healthy_instance_async v n g cls sub s = (res, s', sp)"
  shows "(\<forall>h. res = Ok h \<longrightarrow> (\<exists>insts. fst (get_all_instances_async v n g cls sub s) = Ok insts \<and> h \<in> set insts \<and>
      healthy h \<and> enabled h \<and> Fin 0 < weight h)) \<and>
    (\<forall>insts. fst (get_all_instances_async v n g cls sub s) = Ok insts \<longrightarrow>
      (\<forall>h\<in>set insts. \<not> (healthy h \<and> enabled h \<and> Fin 0 < weight h)) \<longrightarrow> res = Err (no_service_error n))"
proof -
  let ?all = "fst (get_all_instances_async v n g cls sub s)"
  let ?good = "\<lambda>h. True = healthy h \<and> enabled h \<and> Fin 0 < weight h"
  have res: "res = and_then (and_then ?all (\<lambda>all. Ok (filter ?good all))) (\<lambda>ret. and_then (RandomWeightChooser_new n ret)
      (\<lambda>c. case chooser_choose c (env_random v) of None \<Rightarrow> Err (no_service_error n) | Some h \<Rightarrow> Ok h))"
    using assms by (auto simp: select_one_healthy_instance_async_def select_instances_async_def case_prod_unfold get_all_normalized)
  show ?thesis
  proof (intro conjI allI impI)
    fix h assume ok: "res = Ok h"
    obtain insts where all: "?all = Ok insts" using res ok by (cases ?all) auto
    then obtain c where c: "RandomWeightChooser_new n (filter ?good insts) = Ok c"
      using res ok by (cases "RandomWeightChooser_new n (filter ?good insts)") auto
    then have "chooser_choose c (env_random v) = Some h" using res ok all by (auto split: option.splits)
    then have "h \<in> set (filter ?good insts)" using chooser_choose_in new_items[OF c] by (fastforce simp: init_items_def)
    then show "\<exists>insts. ?all = Ok insts \<and> h \<in> set insts \<and> healthy h \<and> enabled h \<and> Fin 0 < weight h"
      using all by auto
  next
    fix insts assume all: "?all = Ok insts" and none: "\<forall>h\<in>set insts. \<not> (healthy h \<and> enabled h \<and> Fin 0 < weight h)"
    have "filter ?good insts = []" using none by (auto simp: filter_empty_conv)
    then show "res = Err (no_service_error n)" using res all by (simp add: RandomWeightChooser_new_def)
  qed
qed

lemma select_one_sound_witness:
  "fst (select_one_healthy_instance_async (demo_working (demo_service 1 ''a'')\<lparr>env_service := \<lambda>_. Ok (grpc_response.extend response_ok
      \<lparr>qs_service_info = ServiceInfo_default\<rparr>)\<rparr>) ''svc'' None [] False demo_naming) = Err (no_service_error ''svc'')"
proof -
  let ?v = "demo_working (demo_service 1 ''a'')\<lparr>env_service := \<lambda>_. Ok (grpc_response.extend response_ok
      \<lparr>qs_service_info = ServiceInfo_default\<rparr>)\<rparr>"
  have "fst (get_all_instances_async ?v ''svc'' None [] False demo_naming) = Ok []"
    by (simp add: get_all_instances_async_def handle_response_def is_success_def grpc_response.defs response_ok_def
        response_default_def ServiceInfo_default_def)
  moreover obtain res s' sp where e: "select_one_healthy_instance_async ?v ''svc'' None [] False demo_naming = (res, s', sp)"
    by (metis prod_cases3)
  ultimately show ?thesis using select_one_sound[OF e] by simp
qed

text \<open>
  once a service is cached, asking with a subscription for the instances of given clusters
  returns the cached instances whatever clusters are asked for, and whatever the server would say.
\<close>

lemma cached_lookup_ignores_clusters:
  assumes "naming_ok s" "\<forall>k i. cache_get (e_cache (nam_emitter s)) k = Some i \<longrightarrow> plain_names i"
    "CHR ''@'' \<notin> set n" "cache_get (e_cache (nam_emitter s)) (get_key_without_clusters n (normalize_group_name g)) = Some info"
    "hosts info = Some hs"
  shows "fst (get_all_instances_async v n g cls True s) = Ok hs"
proof (cases "join '','' cls = []")
  case True
  then have "get_key (get_grouped_service_name n (normalize_group_name g)) (join '','' cls) =
      get_key_without_clusters n (normalize_group_name g)"
    by (simp add: get_key_def get_key_without_clusters_def)
  then show ?thesis using assms(4,5) by (simp add: get_all_instances_async_def)
next
  case False
  let ?t = "update_task_new n (nam_namespace s) (normalize_group_name g) (join '','' cls)"
  have "cached_of (nam_emitter s) ?t = None"
    by (rule cluster_loop_never_cached_lemma)
      (use assms(1-3) False in \<open>simp_all add: naming_ok_def update_task_new_def\<close>)
  then have "cache_get (e_cache (nam_emitter s)) (get_key (get_grouped_service_name n (normalize_group_name g)) (join '','' cls)) = None"
    by (simp add: cached_of_def update_task_new_def update_task_key_def)
  moreover have "fst (subscribe_async v n g cls None s) = Ok info"
    using assms(4) by (simp add: subscribe_async_def case_prod_unfold)
  ultimately show ?thesis using assms(5)
    by (simp add: get_all_instances_async_def case_prod_unfold subscribe_async_normalized)
qed

lemma cached_lookup_ignores_clusters_witness:
  "fst (get_all_instances_async demo_failing ''svc'' None [''other''] True
    (demo_naming\<lparr>nam_emitter := demo_emitter\<lparr>e_cache := cache_put (\<lambda>_. Inl []) ''DEFAULT_GROUP@@svc''
      ((demo_service 1 ''a'')\<lparr>group_name := ''DEFAULT_GROUP''\<rparr>) (e_cache demo_emitter)\<rparr>\<rparr>)) =
    Ok [ServiceInstance_default\<lparr>ip := ''a''\<rparr>]"
proof (rule cached_lookup_ignores_clusters)
  let ?i = "(demo_service 1 ''a'')\<lparr>group_name := ''DEFAULT_GROUP''\<rparr>"
  let ?e = "demo_emitter\<lparr>e_cache := cache_put (\<lambda>_. Inl []) ''DEFAULT_GROUP@@svc'' ?i (e_cache demo_emitter)\<rparr>"
  have get: "cache_get (cache_put (\<lambda>_. Inl []) ''DEFAULT_GROUP@@svc'' ?i (e_cache demo_emitter)) k =
      (if k = ''DEFAULT_GROUP@@svc'' then Some ?i else None)" for k
    by (simp add: cache.lookup_put demo_emitter_def cache_get_def)
  have i: "service_key ?i = ''DEFAULT_GROUP@@svc''" "hosts ?i \<noteq> None" "validate ?i" by code_simp+
  have plain: "plain_names ?i" by (simp add: plain_names_def demo_service_def)
  have key: "get_key_without_clusters ''svc'' (normalize_group_name None) = ''DEFAULT_GROUP@@svc''" by code_simp
  have "emitter_ok ?e" using i by (simp add: emitter_ok_def get split: if_splits)
  then show "naming_ok (demo_naming\<lparr>nam_emitter := ?e\<rparr>)" using demo_naming_ok by (simp add: naming_ok_def)
  show "\<forall>k i. cache_get (e_cache (nam_emitter (demo_naming\<lparr>nam_emitter := ?e\<rparr>))) k = Some i \<longrightarrow> plain_names i"
    using plain by (simp add: get split: if_splits)
  show "cache_get (e_cache (nam_emitter (demo_naming\<lparr>nam_emitter := ?e\<rparr>))) (get_key_without_clusters ''svc'' (normalize_group_name None)) = Some ?i"
    unfolding key by (simp add: get)
qed (simp_all add: demo_service_def)

section \<open>Several instances of one service\<close>

lemma instance_auto_name:
  "auto_name (AutoInstance (InstanceRequest_register rid h (Some n) (Some ns) (Some g))) =
    ns @ ''@@'' @ g @ ''@@'' @ n @ ''@@InstanceRequest''"
  "auto_name (AutoInstance (InstanceRequest_deregister rid h (Some n) (Some ns) (Some g))) =
    ns @ ''@@'' @ g @ ''@@'' @ n @ ''@@InstanceRequest''"
  by (simp_all add: auto_name_def InstanceRequest_register_def InstanceRequest_deregister_def InstanceRequest_new_def
      unwrap_or_empty_def naming_request.truncate_def)

lemma filter_one: "distinct (map f xs) \<Longrightarrow> x \<in> set xs \<Longrightarrow> f x = k \<Longrightarrow> filter (\<lambda>y. f y = k) xs = [x]"
proof (induction xs)
  case (Cons y ys)
  show ?case
  proof (cases "f y = k")
    case True
    then have "filter (\<lambda>z. f z = k) ys = []" "x \<notin> set ys"
      using Cons.prems by (auto simp: filter_empty_conv image_iff)
    then show ?thesis using Cons.prems True by auto
  next
    case False
    then show ?thesis using Cons by auto
  qed
qed simp

text \<open>
  of several instances a client registers with one service, only the last is remembered: after a
  reconnect the tick sends one registration of the service, that of \<open>b\<close>, and \<open>a\<close> is not registered
  again; and deregistering \<open>a\<close> makes the client forget \<open>b\<close> too.
\<close>

lemma second_instance_replaces_first:
  assumes "naming_ok s" "ephemeral a" "ephemeral b"
    "register_instance v n g a s = (Ok (), s1)" "register_instance v' n g b s1 = (Ok (), s2)"
    "distinct ks" "set ks = dom (redo_map (nam_redo s2))"
    "key = auto_name (AutoInstance (InstanceRequest_register (env_rid v) a (Some n) (Some (nam_namespace s)) (Some (normalize_group_name g))))"
    "deregister_instance v'' n g a s2 = (Ok (), s3)"
  shows "(\<exists>t. filter (\<lambda>t. task_key t = key) (active_tasks ks (on_grpc_client_reconnect (nam_redo s2))) = [t] \<and>
      rt_request t = AutoInstance (InstanceRequest_register (env_rid v') b (Some n) (Some (nam_namespace s)) (Some (normalize_group_name g)))) \<and>
    redo_map (nam_redo s3) key = None"
proof -
  let ?g = "normalize_group_name g"
  let ?rb = "AutoInstance (InstanceRequest_register (env_rid v') b (Some n) (Some (nam_namespace s)) (Some ?g))"
  have k: "naming_kept s s1" "naming_kept s1 s2"
    using register_instance_kept[of s v n g a] register_instance_kept[of s1 v' n g b] assms(4,5) by simp_all
  then have ns: "nam_namespace s1 = nam_namespace s" "nam_namespace s2 = nam_namespace s" and ok: "naming_ok s1" "naming_ok s2"
    using assms(1) by (simp_all add: naming_kept_def)
  have key: "key = auto_name ?rb" unfolding assms(8) instance_auto_name ..
  obtain t where t: "redo_map (nam_redo s2) key = Some t" "rt_request t = ?rb"
  proof -
    let ?r = "InstanceRequest_register (env_rid v') b (Some n) (Some (nam_namespace s)) (Some ?g)"
    obtain d where d: "execute_by_register_with_redo (\<lambda>_. env_instance v' ?r) ?rb ''register_ephemeral_instance'' (nam_redo s1) = (Ok (), d)"
      "nam_redo s2 = d"
      using assms(3,5) ns by (auto simp: register_instance_def register_ephemeral_instance_async_def with_redo_def case_prod_unfold prod_eq_iff)
    have "d = set_active (redo_next (nam_redo s1)) False (snd (register_begin ?rb (nam_redo s1)))"
      using d(1) by (auto simp: execute_by_register_with_redo_def register_finish_def case_prod_unfold register_begin_id split: sum.splits)
    then show thesis using that subscribe_redo_map(2)[of "nam_redo s1" ?rb] ok(1) d(2) key by (simp add: naming_ok_def)
  qed
  let ?s = "on_grpc_client_reconnect (nam_redo s2)"
  have rok: "redo_ok (nam_redo s2)" using ok by (simp add: naming_ok_def)
  have map: "redo_map ?s k = map_option (rt_active_update (\<lambda>_. True)) (redo_map (nam_redo s2) k)" for k
    by (simp add: on_grpc_client_reconnect_def)
  have all: "map task_key (active_tasks ks ?s) = ks"
    by (rule active_tasks_all[OF reconnect_ok(1)[OF rok]]) (use assms(7) map in auto)
  have "key \<in> set ks" using assms(7) t by auto
  then have "t\<lparr>rt_active := True\<rparr> \<in> set (active_tasks ks ?s)"
    using t map by (auto simp: active_tasks_in)
  moreover have "task_key (t\<lparr>rt_active := True\<rparr>) = key" using t key by (simp add: task_key_def)
  ultimately have "filter (\<lambda>t. task_key t = key) (active_tasks ks ?s) = [t\<lparr>rt_active := True\<rparr>]"
    using filter_one[of task_key "active_tasks ks ?s"] all assms(6) by simp
  moreover have "redo_map (nam_redo s3) key = None"
    using assms(2,9) ns unfolding key instance_auto_name
    by (auto simp: deregister_instance_def deregister_ephemeral_instance_async_def with_redo_def case_prod_unfold
        execute_by_deregister_with_redo_def remove_task_def instance_auto_name prod_eq_iff split: sum.splits)
  ultimately show ?thesis using t(2) by (intro conjI exI[of _ "t\<lparr>rt_active := True\<rparr>"]) simp_all
qed

lemma register_working:
  assumes "naming_ok s" "ephemeral h"
  shows "\<exists>s'. register_instance (demo_working i) n g h s = (Ok (), s') \<and> naming_ok s' \<and> nam_namespace s' = nam_namespace s \<and>
    dom (redo_map (nam_redo s')) = insert (nam_namespace s @ ''@@'' @ normalize_group_name g @ ''@@'' @ n @ ''@@InstanceRequest'')
      (dom (redo_map (nam_redo s)))"
proof -
  have ok: "is_success (grpc_response.extend response_ok \<lparr>irp_type = None\<rparr>)"
    by (simp add: is_success_def grpc_response.defs response_ok_def response_default_def)
  obtain r s' where r: "register_instance (demo_working i) n g h s = (r, s')" by (metis prod.collapse)
  have redo: "redo_ok (nam_redo s)" using assms(1) by (simp add: naming_ok_def)
  have "r = Ok ()" "dom (redo_map (nam_redo s')) = insert (nam_namespace s @ ''@@'' @ normalize_group_name g @ ''@@'' @ n @ ''@@InstanceRequest'')
      (dom (redo_map (nam_redo s)))"
    using r ok assms(2)
    by (auto simp: register_instance_def register_ephemeral_instance_async_def with_redo_def execute_by_register_with_redo_def
        case_prod_unfold register_finish_def demo_working_def handle_response_def register_begin_id subscribe_redo_map[OF redo] instance_auto_name)
  moreover have "naming_kept s s'" using register_instance_kept[of s "demo_working i" n g h] r by simp
  ultimately show ?thesis using r assms(1) by (simp add: naming_kept_def)
qed

lemma second_instance_replaces_first_witness:
  "\<exists>s1 s2. register_instance (demo_working ServiceInfo_default) ''svc'' None (ServiceInstance_default\<lparr>ip := ''a''\<rparr>) demo_naming = (Ok (), s1) \<and>
    register_instance (demo_working ServiceInfo_default) ''svc'' None (ServiceInstance_default\<lparr>ip := ''b''\<rparr>) s1 = (Ok (), s2) \<and>
    (\<exists>t. filter (\<lambda>t. task_key t = ''ns@@DEFAULT_GROUP@@svc@@InstanceRequest'')
       (active_tasks [''ns@@DEFAULT_GROUP@@svc@@InstanceRequest''] (on_grpc_client_reconnect (nam_redo s2))) = [t])"
proof -
  let ?v = "demo_working ServiceInfo_default" and ?a = "ServiceInstance_default\<lparr>ip := ''a''\<rparr>" and ?b = "ServiceInstance_default\<lparr>ip := ''b''\<rparr>"
  let ?k = "''ns@@DEFAULT_GROUP@@svc@@InstanceRequest''"
  have e: "ephemeral ?a" "ephemeral ?b" by (simp_all add: ServiceInstance_default_def)
  have g: "normalize_group_name None = ''DEFAULT_GROUP''" by code_simp
  have n0: "nam_namespace demo_naming = ''ns''" "redo_map (nam_redo demo_naming) = Map.empty"
    by (simp_all add: demo_naming_def redo_new_def)
  obtain s1 where s1: "register_instance ?v ''svc'' None ?a demo_naming = (Ok (), s1)" "naming_ok s1" "nam_namespace s1 = ''ns''"
    "dom (redo_map (nam_redo s1)) = {?k}"
    using register_working[OF demo_naming_ok e(1), of ServiceInfo_default "''svc''" None] g n0 by auto
  obtain s2 where s2: "register_instance ?v ''svc'' None ?b s1 = (Ok (), s2)" "dom (redo_map (nam_redo s2)) = {?k}"
    using register_working[OF s1(2) e(2), of ServiceInfo_default "''svc''" None] g s1(3,4) by auto
  have "is_success (grpc_response.extend response_ok \<lparr>irp_type = None\<rparr>)"
    by (simp add: is_success_def grpc_response.defs response_ok_def response_default_def)
  then have "fst (deregister_instance ?v ''svc'' None ?a s2) = Ok ()" using e(1)
    by (simp add: deregister_instance_def deregister_ephemeral_instance_async_def with_redo_def execute_by_deregister_with_redo_def
        case_prod_unfold demo_working_def handle_response_def)
  then obtain s3 where s3: "deregister_instance ?v ''svc'' None ?a s2 = (Ok (), s3)" by (metis prod.collapse)
  have "?k = auto_name (AutoInstance (InstanceRequest_register (env_rid ?v) ?a (Some ''svc'') (Some (nam_namespace demo_naming))
      (Some (normalize_group_name None))))"
    unfolding instance_auto_name g n0 by simp
  from second_instance_replaces_first[OF demo_naming_ok e s1(1) s2(1) _ _ this s3, of "[?k]"] s1(1) s2
  show ?thesis by auto
qed

end
