(* ===== verification/ConfigKey.thy ===== *)
theory ConfigKey
  imports Common
begin

text \<open>
  The cache key of a configuration (src/config/util.rs): data id, group and namespace joined by a
  separator, and the inverse. The round trip needs that no separator starts inside a component.
\<close>

definition GROUP_KEY_SPLIT :: string where "GROUP_KEY_SPLIT = ''+_+''"

definition group_key :: "string \<Rightarrow> string \<Rightarrow> string \<Rightarrow> string" where
  "group_key data_id grp namespace =
    [] @ data_id @ GROUP_KEY_SPLIT @ grp @ GROUP_KEY_SPLIT @ namespace"

text \<open>None is the panic of the \<^verbatim>\<open>expect\<close> calls.\<close>

definition parse_key :: "string \<Rightarrow> (string \<times> string \<times> string) option" where
  "parse_key key =
    (let v = split_str GROUP_KEY_SPLIT key
     in if length v < 3 then None else Some (v ! 0, v ! 1, v ! 2))"

text \<open>No separator starts in \<open>s\<close> when \<open>s\<close> is followed by one.\<close>

definition key_part :: "string \<Rightarrow> bool" where
  "key_part s = (\<not> contains (s @ ''+_'') GROUP_KEY_SPLIT)"

lemma key_part_Cons: "key_part (c # s) \<longleftrightarrow> \<not> prefix GROUP_KEY_SPLIT (c # s @ ''+_'') \<and> key_part s"
  by (simp add: key_part_def)

lemma prefix_sep_extend: "prefix GROUP_KEY_SPLIT (c # s @ ''+_+'' @ r) \<longleftrightarrow> prefix GROUP_KEY_SPLIT (c # s @ ''+_'')"
  by (cases s; cases "tl s") (auto simp: GROUP_KEY_SPLIT_def)

lemma split_str_aux_part:
  "key_part s \<Longrightarrow> split_str_aux GROUP_KEY_SPLIT acc (s @ GROUP_KEY_SPLIT @ r)
    = (rev acc @ s) # split_str_aux GROUP_KEY_SPLIT [] r"
proof (induction s arbitrary: acc)
  case Nil
  have "strip_prefix GROUP_KEY_SPLIT (CHR ''+'' # ''_+'' @ r) = Some r"
    by (simp add: GROUP_KEY_SPLIT_def)
  then show ?case by (simp add: GROUP_KEY_SPLIT_def)
next
  case (Cons c s)
  have "strip_prefix GROUP_KEY_SPLIT (c # s @ GROUP_KEY_SPLIT @ r) = None"
    using Cons.prems prefix_sep_extend[of c s r]
    by (simp add: strip_prefix_None key_part_Cons) (simp add: GROUP_KEY_SPLIT_def)
  then show ?case using Cons by (simp add: key_part_Cons GROUP_KEY_SPLIT_def)
qed

lemma split_str_aux_last:
  "\<not> contains s GROUP_KEY_SPLIT \<Longrightarrow> split_str_aux GROUP_KEY_SPLIT acc s = [rev acc @ s]"
proof (induction s arbitrary: acc)
  case (Cons c s)
  then have "strip_prefix GROUP_KEY_SPLIT (c # s) = None" by (simp add: strip_prefix_None)
  then show ?case using Cons by (simp add: GROUP_KEY_SPLIT_def)
qed simp

lemma split_group_key:
  "key_part d \<Longrightarrow> key_part g \<Longrightarrow>
    split_str GROUP_KEY_SPLIT (group_key d g n) = d # g # split_str GROUP_KEY_SPLIT n"
  using split_str_aux_part[of d "[]" "g @ GROUP_KEY_SPLIT @ n"] split_str_aux_part[of g "[]" n]
  by (simp add: group_key_def split_str_def)


lemma no_plus_key_part: "CHR ''+'' \<notin> set s \<Longrightarrow> key_part s"
  by (induction s) (auto simp: key_part_def GROUP_KEY_SPLIT_def prefix_Cons)


text \<open>Without it two configurations collide, and parsing is not the inverse.\<close>

lemma group_key_collision: "group_key ''a+_'' ''g'' n = group_key ''a'' ''_+g'' n"
  by (simp add: group_key_def GROUP_KEY_SPLIT_def)

end
