(* ===== verification/ConfigWorker.thy ===== *)
theory ConfigWorker
  imports ConfigData ConfigKey Cache
begin

text \<open>
  The configuration client: the messages of src/config/message, \<^verbatim>\<open>ConfigWorker\<close> of
  src/config/worker.rs with its two background loops, and the push handler of src/config/handler.rs.
  The server is a parameter: functions from a request to the result of sending it. What an operation
  starts in the background is returned as a list of effects.
\<close>

section \<open>Messages\<close>

record ConfigListenContext =
  lc_data_id :: string
  lc_group :: string
  lc_tenant :: string
  lc_md5 :: string

record ConfigBatchListenRequest = config_request +
  listen :: bool
  config_listen_contexts :: "ConfigListenContext list"

record ConfigPublishRequest = config_request +
  pub_content :: string
  cas_md5 :: "string option"
  addition_map :: "string \<rightharpoonup> string"

record ConfigRemoveRequest = config_request +
  rm_tag :: "string option"

record ConfigQueryResponse = grpc_response +
  qr_content_type :: "string option"
  qr_content :: "string option"
  qr_md5 :: "string option"
  qr_encrypted_data_key :: "string option"
  qr_tag :: "string option"
  qr_last_modified :: "64 word"
  qr_beta :: bool

record ConfigContext =
  cc_data_id :: string
  cc_group :: string
  cc_namespace :: string

record ConfigChangeBatchListenResponse = grpc_response +
  changed_configs :: "ConfigContext list option"

definition CONFIG_NOT_FOUND :: "32 word" where "CONFIG_NOT_FOUND = 300"
definition CONFIG_QUERY_CONFLICT :: "32 word" where "CONFIG_QUERY_CONFLICT = 400"

definition is_not_found :: "ConfigQueryResponse \<Rightarrow> bool" where
  "is_not_found r = (error_code r = CONFIG_NOT_FOUND)"

definition is_query_conflict :: "ConfigQueryResponse \<Rightarrow> bool" where
  "is_query_conflict r = (error_code r = CONFIG_QUERY_CONFLICT)"

text \<open>\<open>rid\<close> is the id that \<open>generate_request_id\<close> yields for the request.\<close>

definition ConfigQueryRequest_new :: "string \<Rightarrow> string \<Rightarrow> string \<Rightarrow> string \<Rightarrow> config_request" where
  "ConfigQueryRequest_new rid d g n =
    \<lparr>req_headers = Map.empty, request_id = Some rid, cr_namespace = Some n, cr_data_id = Some d, cr_group = Some g\<rparr>"

definition ConfigRemoveRequest_new :: "string \<Rightarrow> string \<Rightarrow> string \<Rightarrow> string \<Rightarrow> ConfigRemoveRequest" where
  "ConfigRemoveRequest_new rid d g n =
    \<lparr>req_headers = Map.empty, request_id = Some rid, cr_namespace = Some n, cr_data_id = Some d, cr_group = Some g,
     rm_tag = None\<rparr>"

definition ConfigPublishRequest_new :: "string \<Rightarrow> string \<Rightarrow> string \<Rightarrow> string \<Rightarrow> string \<Rightarrow> ConfigPublishRequest" where
  "ConfigPublishRequest_new rid d g n c =
    \<lparr>req_headers = Map.empty, request_id = Some rid, cr_namespace = Some n, cr_data_id = Some d, cr_group = Some g,
     pub_content = c, cas_md5 = None, addition_map = Map.empty\<rparr>"

definition set_cas_md5 :: "string option \<Rightarrow> ConfigPublishRequest \<Rightarrow> ConfigPublishRequest" where
  "set_cas_md5 m r = r\<lparr>cas_md5 := m\<rparr>"

definition add_addition_param :: "string \<Rightarrow> string \<Rightarrow> ConfigPublishRequest \<Rightarrow> ConfigPublishRequest" where
  "add_addition_param k v r = r\<lparr>addition_map := (addition_map r)(k \<mapsto> v)\<rparr>"

definition add_addition_params :: "(string \<rightharpoonup> string) \<Rightarrow> ConfigPublishRequest \<Rightarrow> ConfigPublishRequest" where
  "add_addition_params m r = r\<lparr>addition_map := addition_map r ++ m\<rparr>"

definition ConfigListenContext_new :: "string \<Rightarrow> string \<Rightarrow> string \<Rightarrow> string \<Rightarrow> ConfigListenContext" where
  "ConfigListenContext_new d g t m = \<lparr>lc_data_id = d, lc_group = g, lc_tenant = t, lc_md5 = m\<rparr>"

definition ConfigBatchListenRequest_new :: "string \<Rightarrow> bool \<Rightarrow> ConfigBatchListenRequest" where
  "ConfigBatchListenRequest_new rid b =
    \<lparr>req_headers = Map.empty, request_id = Some rid, cr_namespace = None, cr_data_id = None, cr_group = None,
     listen = b, config_listen_contexts = []\<rparr>"

definition set_config_listen_context :: "ConfigListenContext list \<Rightarrow> ConfigBatchListenRequest \<Rightarrow> ConfigBatchListenRequest" where
  "set_config_listen_context cs r = r\<lparr>config_listen_contexts := cs\<rparr>"

definition add_config_listen_context :: "ConfigListenContext \<Rightarrow> ConfigBatchListenRequest \<Rightarrow> ConfigBatchListenRequest" where
  "add_config_listen_context c r = r\<lparr>config_listen_contexts := config_listen_contexts r @ [c]\<rparr>"

section \<open>Requests to the server\<close>

type_synonym query_server = "config_request \<Rightarrow> ConfigQueryResponse result"

definition get_config_inner_async :: "query_server \<Rightarrow> string \<Rightarrow> string \<Rightarrow> string \<Rightarrow> string \<Rightarrow> ConfigQueryResponse result" where
  "get_config_inner_async send rid d g n =
    and_then (send (ConfigQueryRequest_new rid d g n)) (\<lambda>resp.
      if is_success resp then Ok resp
      else
        (let err_str = to_err_msg resp ''get_config''
         in if is_not_found resp then Err (ConfigNotFound err_str)
            else if is_query_conflict resp then Err (ConfigQueryConflict err_str)
            else Err (ErrResult err_str)))"

definition KEY_PARAM_CONTENT_TYPE :: string where "KEY_PARAM_CONTENT_TYPE = ''type''"
definition KEY_PARAM_BETA_IPS :: string where "KEY_PARAM_BETA_IPS = ''betaIps''"
definition KEY_PARAM_ENCRYPTED_DATA_KEY :: string where "KEY_PARAM_ENCRYPTED_DATA_KEY = ''encryptedDataKey''"

text \<open>The request that \<^verbatim>\<open>publish_config_inner_async\<close> builds.\<close>

definition publish_request ::
    "string \<Rightarrow> string \<Rightarrow> string \<Rightarrow> string \<Rightarrow> string \<Rightarrow> string option \<Rightarrow> string \<Rightarrow> string option \<Rightarrow>
      string option \<Rightarrow> (string \<rightharpoonup> string) option \<Rightarrow> ConfigPublishRequest" where
  "publish_request rid d g n content content_type encrypted_data_key cas beta_ips params =
    (let req = set_cas_md5 cas (ConfigPublishRequest_new rid d g n content);
         req = (case params of None \<Rightarrow> req | Some m \<Rightarrow> add_addition_params m req);
         req = (case content_type of None \<Rightarrow> req | Some t \<Rightarrow> add_addition_param KEY_PARAM_CONTENT_TYPE t req);
         req = (case beta_ips of None \<Rightarrow> req | Some b \<Rightarrow> add_addition_param KEY_PARAM_BETA_IPS b req)
     in add_addition_param KEY_PARAM_ENCRYPTED_DATA_KEY encrypted_data_key req)"

definition publish_config_inner_async ::
    "(ConfigPublishRequest \<Rightarrow> grpc_response result) \<Rightarrow> string \<Rightarrow> string \<Rightarrow> string \<Rightarrow> string \<Rightarrow> string \<Rightarrow>
      string option \<Rightarrow> string \<Rightarrow> string option \<Rightarrow> string option \<Rightarrow> (string \<rightharpoonup> string) option \<Rightarrow> bool result" where
  "publish_config_inner_async send rid d g n content content_type encrypted_data_key cas beta_ips params =
    and_then (send (publish_request rid d g n content content_type encrypted_data_key cas beta_ips params)) (\<lambda>resp.
      and_then (handle_response resp ''publish_config'') (\<lambda>_. Ok True))"

definition remove_config_inner_async ::
    "(ConfigRemoveRequest \<Rightarrow> grpc_response result) \<Rightarrow> string \<Rightarrow> string \<Rightarrow> string \<Rightarrow> string \<Rightarrow> bool result" where
  "remove_config_inner_async send rid d g n =
    and_then (send (ConfigRemoveRequest_new rid d g n)) (\<lambda>resp.
      and_then (handle_response resp ''remove_config'') (\<lambda>_. Ok True))"

section \<open>The worker\<close>

record 'l config_worker =
  w_namespace :: string
  w_cache :: "'l CacheData cache"
  w_filters :: "ConfigFilter list"

datatype 'l config_effect =
    StoreCmd store_cmd
  | SendListen ConfigBatchListenRequest
  | Notify 'l ConfigResponse

text \<open>None is the panic of an \<^verbatim>\<open>expect\<close>: the server said success and left a field out.\<close>

definition get_config :: "query_server \<Rightarrow> string \<Rightarrow> 'l config_worker \<Rightarrow> string \<Rightarrow> string \<Rightarrow> ConfigResponse result option" where
  "get_config send rid w d g =
    (let n = w_namespace w;
         key = group_key d g n;
         cached = Option.bind (cache_get (w_cache w) key) (\<lambda>r.
           if cd_content r \<noteq> [] \<and> cd_md5 r \<noteq> [] then Some (resp_snapshot r) else None)
     in case cached of
          Some snapshot \<Rightarrow> Some (Ok (filtered_response snapshot))
        | None \<Rightarrow>
            (case get_config_inner_async send rid d g n of
               Inl e \<Rightarrow> Some (Err e)
             | Inr resp \<Rightarrow>
                 Option.bind (qr_content resp) (\<lambda>content.
                   let r = apply_resp_filters (w_filters w)
                             (ConfigResp_new d g n content
                               (case qr_encrypted_data_key resp of None \<Rightarrow> [] | Some k \<Rightarrow> k))
                   in Option.bind (qr_content_type resp) (\<lambda>t.
                      Option.bind (qr_md5 resp) (\<lambda>m.
                        Some (Ok (ConfigResponse_new (rp_data_id r) (rp_group r) (rp_namespace r)
                          (rp_content r) t m)))))))"

definition publish_config_inner ::
    "(ConfigPublishRequest \<Rightarrow> grpc_response result) \<Rightarrow> string \<Rightarrow> 'l config_worker \<Rightarrow> string \<Rightarrow> string \<Rightarrow> string \<Rightarrow>
      string option \<Rightarrow> string option \<Rightarrow> string option \<Rightarrow> (string \<rightharpoonup> string) option \<Rightarrow> bool result" where
  "publish_config_inner send rid w d g content content_type cas beta_ips params =
    (let r = apply_req_filters (w_filters w) (ConfigReq_new d g (w_namespace w) content [])
     in publish_config_inner_async send rid (rq_data_id r) (rq_group r) (rq_namespace r) (rq_content r)
          content_type (rq_encrypted_data_key r) cas beta_ips params)"

definition publish_config where
  "publish_config send rid w d g content content_type =
    publish_config_inner send rid w d g content content_type None None None"

definition publish_config_cas where
  "publish_config_cas send rid w d g content content_type cas =
    publish_config_inner send rid w d g content content_type (Some cas) None None"

definition publish_config_beta where
  "publish_config_beta send rid w d g content content_type beta_ips =
    publish_config_inner send rid w d g content content_type None (Some beta_ips) None"

definition publish_config_param where
  "publish_config_param send rid w d g content content_type cas params =
    publish_config_inner send rid w d g content content_type cas None (Some params)"

definition remove_config where
  "remove_config send rid w d g = remove_config_inner_async send rid d g (w_namespace w)"

text \<open>\<open>fill_data\<close>: None is a panic; the flag says whether listeners are to be notified.\<close>

definition fill_data :: "ConfigQueryResponse \<Rightarrow> 'l CacheData \<Rightarrow> (bool \<times> 'l CacheData) option" where
  "fill_data resp c =
    Option.bind (qr_content_type resp) (\<lambda>t.
    Option.bind (qr_content resp) (\<lambda>content.
    Option.bind (qr_md5 resp) (\<lambda>m.
      let c = c\<lparr>cd_content_type := t, cd_content := content, cd_md5 := m,
                cd_encrypted_data_key := (case qr_encrypted_data_key resp of None \<Rightarrow> [] | Some k \<Rightarrow> k),
                cd_last_modified := qr_last_modified resp\<rparr>
      in if cd_initializing c then Some (False, c\<lparr>cd_initializing := False\<rparr>) else Some (True, c))))"

definition fill_data_and_notify ::
    "ConfigQueryResponse \<Rightarrow> 'l CacheData \<Rightarrow> (('l \<times> ConfigResponse) list \<times> 'l CacheData) option" where
  "fill_data_and_notify resp c =
    (case fill_data resp c of
       None \<Rightarrow> None
     | Some (b, c') \<Rightarrow> Some (if b then notify_listener c' else ([], c')))"

text \<open>
  \<^verbatim>\<open>add_listener\<close> in the three parts between which other tasks can run: the check, the query with the
  insertion when the key was absent, and the registration.
\<close>

definition al_absent :: "'l config_worker \<Rightarrow> string \<Rightarrow> string \<Rightarrow> bool" where
  "al_absent w d g = (\<not> cache_contains_key (group_key d g (w_namespace w)) (w_cache w))"

definition al_insert ::
    "'l CacheData to_vec \<Rightarrow> query_server \<Rightarrow> string \<Rightarrow> string \<Rightarrow> string \<Rightarrow> string \<Rightarrow>
      'l config_worker \<Rightarrow> ('l config_worker \<times> 'l config_effect list) option" where
  "al_insert to_vec send rid rid2 d g w =
    (let n = w_namespace w;
         cd0 = CacheData_new (w_filters w) d g n
     in Option.bind
          (case get_config_inner_async send rid (cd_data_id cd0) (cd_group cd0) (cd_namespace cd0) of
             Inr resp \<Rightarrow> fill_data_and_notify resp cd0
           | Inl e \<Rightarrow> Some ([], cd0))
          (\<lambda>(notes, cd).
             let req = add_config_listen_context
                         (ConfigListenContext_new (cd_data_id cd) (cd_group cd) (cd_namespace cd) (cd_md5 cd))
                         (ConfigBatchListenRequest_new rid2 True);
                 (_, cache', cmds) = cache_insert to_vec (group_key d g n) cd (w_cache w)
             in Some (w\<lparr>w_cache := cache'\<rparr>,
                      map (\<lambda>(l, r). Notify l r) notes @ [SendListen req] @ map StoreCmd cmds)))"

definition al_register :: "string \<Rightarrow> string \<Rightarrow> 'l \<Rightarrow> 'l config_worker \<Rightarrow> 'l config_worker \<times> 'l config_effect list" where
  "al_register d g l w =
    (let (_, cache', cmds) = cache_get_mut (\<lambda>c. ((), add_listener l c)) (group_key d g (w_namespace w)) (w_cache w)
     in (w\<lparr>w_cache := cache'\<rparr>, map StoreCmd cmds))"

definition worker_add_listener ::
    "'l CacheData to_vec \<Rightarrow> query_server \<Rightarrow> string \<Rightarrow> string \<Rightarrow> string \<Rightarrow> string \<Rightarrow> 'l \<Rightarrow>
      'l config_worker \<Rightarrow> ('l config_worker \<times> 'l config_effect list) option" where
  "worker_add_listener to_vec send rid rid2 d g l w =
    Option.bind (if al_absent w d g then al_insert to_vec send rid rid2 d g w else Some (w, []))
      (\<lambda>(w1, e1). let (w2, e2) = al_register d g l w1 in Some (w2, e1 @ e2))"

definition worker_remove_listener :: "string \<Rightarrow> string \<Rightarrow> 'l \<Rightarrow> 'l config_worker \<Rightarrow> 'l config_worker \<times> 'l config_effect list" where
  "worker_remove_listener d g l w =
    (let (_, cache', cmds) = cache_get_mut (\<lambda>c. ((), remove_listener l c)) (group_key d g (w_namespace w)) (w_cache w)
     in (w\<lparr>w_cache := cache'\<rparr>, map StoreCmd cmds))"

section \<open>Background loops\<close>

text \<open>
  One round of \<^verbatim>\<open>list_ensure_cache_data_newest\<close>: the request it sends, if any, for the visit order
  \<open>ks\<close> of the cache, and the keys it puts on the channel for the server's answer.
\<close>

definition listen_contexts :: "string list \<Rightarrow> 'l CacheData cache \<Rightarrow> ConfigListenContext list" where
  "listen_contexts ks c =
    cache_for_each (\<lambda>k v acc. acc @ [ConfigListenContext_new (cd_data_id v) (cd_group v) (cd_namespace v) (cd_md5 v)]) ks c []"

definition list_ensure_round ::
    "(ConfigBatchListenRequest \<Rightarrow> ConfigChangeBatchListenResponse result) \<Rightarrow> string \<Rightarrow> string list \<Rightarrow>
      'l CacheData cache \<Rightarrow> string list" where
  "list_ensure_round send rid ks c =
    (let ctxs = listen_contexts ks c
     in if ctxs = [] then []
        else
          (case send (set_config_listen_context ctxs (ConfigBatchListenRequest_new rid True)) of
             Inl e \<Rightarrow> []
           | Inr resp \<Rightarrow>
               if is_success resp then
                 (case changed_configs resp of
                    None \<Rightarrow> []
                  | Some cs \<Rightarrow> map (\<lambda>x. group_key (cc_data_id x) (cc_group x) (cc_namespace x)) cs)
               else []))"

text \<open>
  One iteration of \<^verbatim>\<open>notify_change_to_cache_data\<close> for a received group key, in the parts between
  which it awaits: the lookup before the query, the fill with the answer, whose flag says whether to
  notify (None is a panic), and the notification after the filters. The notification changes the
  listeners through a shared reference, so the entry is not saved.
\<close>

definition nc_lookup :: "string \<Rightarrow> 'l config_worker \<Rightarrow> (string \<times> string \<times> string) option" where
  "nc_lookup key w = map_option (\<lambda>r. (cd_data_id r, cd_group r, cd_namespace r)) (cache_get (w_cache w) key)"

definition nc_fill ::
    "ConfigQueryResponse \<Rightarrow> string \<Rightarrow> 'l config_worker \<Rightarrow> (bool \<times> 'l config_worker \<times> 'l config_effect list) option" where
  "nc_fill resp key w =
    (case cache_get (w_cache w) key of
       None \<Rightarrow> Some (False, w, [])
     | Some r \<Rightarrow>
         Option.bind (fill_data resp r) (\<lambda>(should_notify, filled).
           let (_, cache', cmds) = cache_get_mut (\<lambda>_. ((), filled)) key (w_cache w)
           in Some (should_notify, w\<lparr>w_cache := cache'\<rparr>, map StoreCmd cmds)))"

definition nc_snapshot :: "string \<Rightarrow> 'l config_worker \<Rightarrow> RespSnapshot option" where
  "nc_snapshot key w = map_option resp_snapshot (cache_get (w_cache w) key)"

definition nc_dispatch :: "ConfigResponse \<Rightarrow> string \<Rightarrow> 'l config_worker \<Rightarrow> 'l config_worker \<times> 'l config_effect list" where
  "nc_dispatch resp key w =
    (case cache_get (w_cache w) key of
       None \<Rightarrow> (w, [])
     | Some r \<Rightarrow>
         (let (notes, r') = dispatch_notify resp r
          in (w\<lparr>w_cache := (w_cache w)\<lparr>inner := (inner (w_cache w))(key \<mapsto> r')\<rparr>\<rparr>, map (\<lambda>(l, x). Notify l x) notes)))"

text \<open>The iteration when nothing else happens meanwhile.\<close>

definition notify_change_step ::
    "query_server \<Rightarrow> string \<Rightarrow> string \<Rightarrow> 'l config_worker \<Rightarrow> ('l config_worker \<times> 'l config_effect list) option" where
  "notify_change_step send rid key w =
    (case nc_lookup key w of
       None \<Rightarrow> Some (w, [])
     | Some (d, g, n) \<Rightarrow>
         (case get_config_inner_async send rid d g n of
            Inl e \<Rightarrow> Some (w, [])
          | Inr resp \<Rightarrow>
              Option.bind (nc_fill resp key w) (\<lambda>(should_notify, w1, e1).
                if should_notify then
                  (case nc_snapshot key w1 of
                     None \<Rightarrow> Some (w1, e1)
                   | Some snapshot \<Rightarrow>
                       (let (w2, e2) = nc_dispatch (filtered_response snapshot) key w1 in Some (w2, e1 @ e2)))
                else Some (w1, e1))))"

text \<open>The push handler: the reply, and the key it puts on the channel.\<close>

definition ConfigChangeNotify_reply ::
    "config_request from_slice \<Rightarrow> grpc_response from_slice \<Rightarrow> grpc_response to_vec \<Rightarrow> string \<Rightarrow>
      payload \<Rightarrow> payload option \<times> string list" where
  "ConfigChangeNotify_reply from_slice err_slice to_vec local_ip request =
    (case from_payload ''ConfigChangeNotifyRequest'' from_slice err_slice request of
       Inl e \<Rightarrow> (None, [])
     | Inr m \<Rightarrow>
         (let server_req = gm_body m;
              server_req_id = (case request_id server_req of None \<Rightarrow> [] | Some i \<Rightarrow> i);
              req_namespace = (case cr_namespace server_req of None \<Rightarrow> [] | Some n \<Rightarrow> n)
          in case (cr_data_id server_req, cr_group server_req) of
               (Some d, Some g) \<Rightarrow>
                 (let key = group_key d g req_namespace;
                      response = response_ok\<lparr>response_id := Some server_req_id\<rparr>
                  in (case into_payload ''ConfigChangeNotifyResponse'' to_vec (builder_build (builder_new local_ip response)) of
                        Inl e \<Rightarrow> None
                      | Inr p \<Rightarrow> Some p, [key]))
             | _ \<Rightarrow> (None, [])))"

end
