(* ===== verification/ConfigProps.thy ===== *)
theory ConfigProps
  imports ConfigWorker
begin

text \<open>
  What the configuration client guarantees: freshness of reads after a change notification, one
  notification per change and listener, precedence of publish parameters, the push handler; and three
  behaviours that lose notifications or skip the filters.
\<close>

section \<open>Helpers\<close>

text \<open>A successful answer with all the fields the worker expects.\<close>

definition complete :: "ConfigQueryResponse \<Rightarrow> bool" where
  "complete r = (is_success r \<and> qr_content_type r \<noteq> None \<and> qr_content r \<noteq> None \<and> qr_md5 r \<noteq> None)"

definition filled :: "ConfigQueryResponse \<Rightarrow> 'l CacheData \<Rightarrow> 'l CacheData" where
  "filled r c = c\<lparr>cd_content_type := the (qr_content_type r), cd_content := the (qr_content r),
     cd_md5 := the (qr_md5 r),
     cd_encrypted_data_key := (case qr_encrypted_data_key r of None \<Rightarrow> [] | Some k \<Rightarrow> k),
     cd_last_modified := qr_last_modified r, cd_initializing := False\<rparr>"

lemma fill_data_complete:
  "complete r \<Longrightarrow> fill_data r c = Some (\<not> cd_initializing c, filled r c)"
  by (cases "cd_initializing c") (auto simp: complete_def fill_data_def filled_def)

lemma filled_simps [simp]:
  "cd_listeners (filled r c) = cd_listeners c" "cd_data_id (filled r c) = cd_data_id c"
  "cd_group (filled r c) = cd_group c" "cd_namespace (filled r c) = cd_namespace c"
  "cd_config_filters (filled r c) = cd_config_filters c" "cd_md5 (filled r c) = the (qr_md5 r)"
  "cd_content (filled r c) = the (qr_content r)" "\<not> cd_initializing (filled r c)"
  by (simp_all add: filled_def)

lemma get_config_inner_complete:
  "send (ConfigQueryRequest_new rid d g n) = Inr r \<Longrightarrow> is_success r \<Longrightarrow> get_config_inner_async send rid d g n = Inr r"
  by (simp add: get_config_inner_async_def)

lemma dispatch_keeps:
  "cd_content (snd (dispatch_notify x c)) = cd_content c" "cd_md5 (snd (dispatch_notify x c)) = cd_md5 c"
  "resp_snapshot (snd (dispatch_notify x c)) = resp_snapshot c"
  "cd_initializing (snd (dispatch_notify x c)) = cd_initializing c"
  by (simp_all add: dispatch_notify_def resp_snapshot_def)

lemma filtered_response_md5: "cresp_md5 (filtered_response (resp_snapshot c)) = cd_md5 c"
  by (simp add: resp_snapshot_def ConfigResponse_new_def)

text \<open>The notifications among the effects of an operation.\<close>

fun effect_notes :: "'l config_effect list \<Rightarrow> ('l \<times> ConfigResponse) list" where
  "effect_notes [] = []"
| "effect_notes (Notify l x # es) = (l, x) # effect_notes es"
| "effect_notes (StoreCmd c # es) = effect_notes es"
| "effect_notes (SendListen r # es) = effect_notes es"

lemma effect_notes_append [simp]: "effect_notes (a @ b) = effect_notes a @ effect_notes b"
  by (induction a rule: effect_notes.induct) auto

lemma effect_notes_store [simp]: "effect_notes (map StoreCmd cs) = []"
  by (induction cs) auto

lemma effect_notes_notify [simp]: "effect_notes (map (\<lambda>(l, x). Notify l x) ns) = ns"
  by (induction ns) auto

lemma effect_notes_notify_pairs [simp]: "effect_notes (map (\<lambda>p. Notify (fst p) (snd p)) ns) = ns"
  by (induction ns) auto

lemmas nc_defs = notify_change_step_def nc_lookup_def nc_fill_def nc_snapshot_def nc_dispatch_def

text \<open>One change notification for a cached key whose query succeeds.\<close>

definition after_change :: "ConfigQueryResponse \<Rightarrow> 'l CacheData \<Rightarrow> ('l \<times> ConfigResponse) list \<times> 'l CacheData" where
  "after_change r c =
    (if cd_initializing c then ([], filled r c)
     else dispatch_notify (filtered_response (resp_snapshot (filled r c))) (filled r c))"

lemma notify_change_step_lookup:
  assumes c: "cache_get (w_cache w) key = Some c" and r: "complete r"
    and q: "get_config_inner_async send rid (cd_data_id c) (cd_group c) (cd_namespace c) = Inr r"
  shows "\<exists>w' effs. notify_change_step send rid key w = Some (w', effs) \<and>
    cache_get (w_cache w') = (cache_get (w_cache w))(key \<mapsto> snd (after_change r c)) \<and>
    w_namespace w' = w_namespace w \<and> w_filters w' = w_filters w \<and> effect_notes effs = fst (after_change r c)"
proof -
  let ?c1 = "cache_upd (\<lambda>_. filled r c) key (w_cache w)"
  let ?cmds = "snd (snd (cache_get_mut (\<lambda>_. ((), filled r c)) key (w_cache w)))"
  have l: "cache_get ?c1 = (cache_get (w_cache w))(key \<mapsto> filled r c)"
    by (simp only: cache.lookup_upd c option.map)
  then have l1: "cache_get ?c1 key = Some (filled r c)" by simp
  show ?thesis
  proof (cases "cd_initializing c")
    case True
    then have "notify_change_step send rid key w = Some (w\<lparr>w_cache := ?c1\<rparr>, map StoreCmd ?cmds)"
      using c q fill_data_complete[OF r, of c] by (simp add: nc_defs case_prod_unfold)
    then show ?thesis using True l by (intro exI conjI) (assumption, simp_all add: after_change_def)
  next
    case False
    let ?d = "dispatch_notify (filtered_response (resp_snapshot (filled r c))) (filled r c)"
    let ?w' = "w\<lparr>w_cache := ?c1\<lparr>inner := (inner ?c1)(key \<mapsto> snd ?d)\<rparr>\<rparr>"
    have "notify_change_step send rid key w = Some (?w', map StoreCmd ?cmds @ map (\<lambda>(l, x). Notify l x) (fst ?d))"
      using c q fill_data_complete[OF r, of c] l1 False
      by (simp add: nc_defs case_prod_unfold)
    moreover have "cache_get (w_cache ?w') = (cache_get ?c1)(key \<mapsto> snd ?d)"
      by (simp add: cache_get_def fun_eq_iff)
    ultimately show ?thesis using False l by (intro exI conjI) (assumption, simp_all add: after_change_def)
  qed
qed

lemma notify_change_step_complete:
  assumes "cache_get (w_cache w) key = Some c" "complete r"
    "get_config_inner_async send rid (cd_data_id c) (cd_group c) (cd_namespace c) = Inr r"
  shows "\<exists>w' effs. notify_change_step send rid key w = Some (w', effs) \<and>
    cache_get (w_cache w') key = Some (snd (after_change r c)) \<and>
    w_namespace w' = w_namespace w \<and> w_filters w' = w_filters w \<and> effect_notes effs = fst (after_change r c)"
  using notify_change_step_lookup[OF assms] by force

lemma after_change_keeps:
  "resp_snapshot (snd (after_change r c)) = resp_snapshot (filled r c)"
  "cd_content (snd (after_change r c)) = the (qr_content r)" "cd_md5 (snd (after_change r c)) = the (qr_md5 r)"
  "\<not> cd_initializing (snd (after_change r c))"
  by (simp_all add: after_change_def dispatch_keeps)

section \<open>Freshness\<close>

text \<open>
  once a change notification for a cached configuration has been handled, \<open>get_config\<close> returns
  the content and md5 the server then answered, through the filters, without asking the server again.
\<close>

lemma get_after_change:
  assumes "cache_get (w_cache w) (group_key d g (w_namespace w)) = Some c" "complete r"
    "send (ConfigQueryRequest_new rid (cd_data_id c) (cd_group c) (cd_namespace c)) = Inr r"
    "the (qr_content r) \<noteq> []" "the (qr_md5 r) \<noteq> []"
  shows "\<exists>w' effs. notify_change_step send rid (group_key d g (w_namespace w)) w = Some (w', effs) \<and>
    (\<forall>send' rid'. get_config send' rid' w' d g = Some (Inr (filtered_response (resp_snapshot (filled r c)))))"
proof -
  have q: "get_config_inner_async send rid (cd_data_id c) (cd_group c) (cd_namespace c) = Inr r"
    by (rule get_config_inner_complete[where send = send, OF assms(3)]) (use assms(2) in \<open>simp add: complete_def\<close>)
  from notify_change_step_complete[where send = send, OF assms(1,2) q] obtain w' effs where
    "notify_change_step send rid (group_key d g (w_namespace w)) w = Some (w', effs)" "w_namespace w' = w_namespace w"
    "cache_get (w_cache w') (group_key d g (w_namespace w)) = Some (snd (after_change r c))" by blast
  then show ?thesis using assms(4,5) by (intro exI conjI) (assumption, simp add: get_config_def after_change_keeps)
qed

text \<open>A worker and an answer for the witnesses.\<close>

definition demo_data :: "nat CacheData" where
  "demo_data = \<lparr>cd_data_id = ''d'', cd_group = ''g'', cd_namespace = ''n'', cd_content_type = ''text'',
     cd_content = ''old'', cd_md5 = ''m0'', cd_encrypted_data_key = [], cd_last_modified = 0,
     cd_initializing = False, cd_listeners = [\<lparr>last_md5 = ''m0'', lw_listener = 1\<rparr>], cd_config_filters = []\<rparr>"

definition demo_worker :: "nat config_worker" where
  "demo_worker = \<lparr>w_namespace = ''n'',
     w_cache = \<lparr>inner = [group_key ''d'' ''g'' ''n'' \<mapsto> demo_data], has_store = False\<rparr>, w_filters = []\<rparr>"

definition demo_answer :: "string \<Rightarrow> string \<Rightarrow> ConfigQueryResponse" where
  "demo_answer content m = \<lparr>result_code = 200, error_code = 0, message = None, response_id = None,
     qr_content_type = Some ''text'', qr_content = Some content, qr_md5 = Some m, qr_encrypted_data_key = None,
     qr_tag = None, qr_last_modified = 5, qr_beta = False\<rparr>"

lemma demo_complete: "complete (demo_answer c m)"
  by (simp add: complete_def demo_answer_def is_success_def SUCCESS_CODE_def)

lemma demo_cached: "cache_get (w_cache demo_worker) (group_key ''d'' ''g'' ''n'') = Some demo_data"
  by (simp add: demo_worker_def cache_get_def)

lemma get_after_change_witness:
  "\<exists>w' effs. notify_change_step (\<lambda>_. Inr (demo_answer ''new'' ''m1'')) ''1'' (group_key ''d'' ''g'' ''n'') demo_worker = Some (w', effs) \<and>
    (\<forall>send' rid'. get_config send' rid' w' ''d'' ''g'' =
      Some (Inr (filtered_response (resp_snapshot (filled (demo_answer ''new'' ''m1'') demo_data)))))"
  using get_after_change[of demo_worker "''d''" "''g''" demo_data "demo_answer ''new'' ''m1''" "\<lambda>_. Inr (demo_answer ''new'' ''m1'')" "''1''"]
    demo_cached demo_complete
  by (simp add: demo_worker_def demo_answer_def)

section \<open>One notification per change\<close>

fun notify_changes ::
    "ConfigQueryResponse list \<Rightarrow> string \<Rightarrow> 'l config_worker \<Rightarrow> ('l config_worker \<times> 'l config_effect list) option" where
  "notify_changes [] key w = Some (w, [])"
| "notify_changes (r # rs) key w =
    Option.bind (notify_change_step (\<lambda>_. Inr r) [] key w) (\<lambda>(w1, e1).
    Option.bind (notify_changes rs key w1) (\<lambda>(w2, e2). Some (w2, e1 @ e2)))"

text \<open>The md5 sums a listener is notified of, and the changes in a sequence of md5 sums.\<close>

definition notified :: "'l \<Rightarrow> 'l config_effect list \<Rightarrow> string list" where
  "notified l effs = map (\<lambda>(l, x). cresp_md5 x) (filter (\<lambda>(l', x). l' = l) (effect_notes effs))"

fun changes :: "string \<Rightarrow> string list \<Rightarrow> string list" where
  "changes m [] = []"
| "changes m (x # xs) = (if x = m then changes m xs else x # changes x xs)"

lemma notified_append: "notified l (a @ b) = notified l a @ notified l b"
  by (simp add: notified_def)

lemma dispatch_one_listener:
  assumes "distinct (listeners_of c)" "v \<in> set (cd_listeners c)"
  shows "filter (\<lambda>(l', x). l' = lw_listener v) (fst (dispatch_notify resp c)) =
    (if last_md5 v = cd_md5 c then [] else [(lw_listener v, resp)])"
proof -
  have "filter (\<lambda>(l', x). l' = lw_listener v) (map (\<lambda>u. (lw_listener u, resp)) (filter (\<lambda>u. last_md5 u \<noteq> m) us)) =
      (if last_md5 v = m then [] else [(lw_listener v, resp)])"
    if "distinct (map lw_listener us)" "v \<in> set us" for m us
    using that
  proof (induction us)
    case (Cons u us)
    show ?case
    proof (cases "u = v")
      case True
      then have "lw_listener v \<notin> lw_listener ` set us" using Cons.prems by simp
      then have "\<forall>x\<in>set us. lw_listener x \<noteq> lw_listener v" by (metis imageI)
      then have "filter (\<lambda>(l', x). l' = lw_listener v) (map (\<lambda>u. (lw_listener u, resp)) (filter (\<lambda>u. last_md5 u \<noteq> m) us)) = []"
        by (simp add: filter_empty_conv)
      then show ?thesis using True by simp
    next
      case False
      then have "lw_listener u \<noteq> lw_listener v" using Cons.prems by force
      then show ?thesis using Cons False by simp
    qed
  qed simp
  from this[OF assms] show ?thesis by (simp add: dispatch_notify_def)
qed

lemma dispatch_wrapper:
  "v \<in> set (cd_listeners c) \<Longrightarrow>
    \<exists>v'\<in>set (cd_listeners (snd (dispatch_notify resp c))). lw_listener v' = lw_listener v \<and> last_md5 v' = cd_md5 c"
proof -
  assume v: "v \<in> set (cd_listeners c)"
  let ?f = "\<lambda>w. if last_md5 w = cd_md5 c then w else w\<lparr>last_md5 := cd_md5 c\<rparr>"
  have "?f v \<in> set (cd_listeners (snd (dispatch_notify resp c)))" using v by (auto simp: dispatch_notify_def)
  then show ?thesis by (rule bexI[rotated]) simp
qed



section \<open>Publishing\<close>

text \<open>
  precedence of the additional parameters of a publish: the data key of the encryption filter
  always wins, then the explicit beta addresses and content type, then the caller's own parameters.
\<close>

lemma publish_param_precedence:
  "addition_map (publish_request rid d g n content content_type ek cas beta_ips params) k =
    (if k = ''encryptedDataKey'' then Some ek
     else if k = ''betaIps'' \<and> beta_ips \<noteq> None then beta_ips
     else if k = ''type'' \<and> content_type \<noteq> None then content_type
     else Option.bind params (\<lambda>m. m k)) \<and>
   cas_md5 (publish_request rid d g n content content_type ek cas beta_ips params) = cas"
  by (simp add: publish_request_def add_addition_param_def add_addition_params_def set_cas_md5_def
      ConfigPublishRequest_new_def KEY_PARAM_CONTENT_TYPE_def KEY_PARAM_BETA_IPS_def
      KEY_PARAM_ENCRYPTED_DATA_KEY_def map_add_def split: option.splits)

section \<open>The push handler\<close>

text \<open>
  the handler queues exactly the key of the pushed configuration, and answers a well-formed push
  with a success response that carries the request's id.
\<close>

lemma push_handler_queues_key:
  assumes "from_payload ''ConfigChangeNotifyRequest'' from_slice err_slice p = Inr m"
    "cr_data_id (gm_body m) = Some d" "cr_group (gm_body m) = Some g"
    "\<forall>resp. \<exists>bs. to_vec resp = Inr bs"
  shows "\<exists>bs. ConfigChangeNotify_reply from_slice err_slice to_vec ip p =
    (Some \<lparr>p_metadata = Some \<lparr>m_type = ''ConfigChangeNotifyResponse'', m_client_ip = ip, m_headers = Map.empty\<rparr>,
       p_body = Some \<lparr>type_url = ''ConfigChangeNotifyResponse'', any_value = bs\<rparr>\<rparr>,
     [group_key d g (case cr_namespace (gm_body m) of None \<Rightarrow> [] | Some n \<Rightarrow> n)]) \<and>
    to_vec (response_ok\<lparr>response_id := Some (case request_id (gm_body m) of None \<Rightarrow> [] | Some i \<Rightarrow> i)\<rparr>) = Inr bs"
proof -
  let ?r = "response_ok\<lparr>response_id := Some (case request_id (gm_body m) of None \<Rightarrow> [] | Some i \<Rightarrow> i)\<rparr>"
  obtain bs where "to_vec ?r = Inr bs" using assms(4) by blast
  then show ?thesis using assms(1-3)
    by (simp add: ConfigChangeNotify_reply_def into_payload_def to_proto_any_def builder_new_def)
qed

definition demo_push :: payload where
  "demo_push = \<lparr>p_metadata = Some \<lparr>m_type = ''ConfigChangeNotifyRequest'', m_client_ip = [], m_headers = Map.empty\<rparr>,
     p_body = Some \<lparr>type_url = [], any_value = ''push''\<rparr>\<rparr>"

definition demo_push_slice :: "bytes \<Rightarrow> string + config_request" where
  "demo_push_slice bs = (if bs = ''push'' then Inr \<lparr>req_headers = Map.empty, request_id = Some ''7'', cr_namespace = None,
     cr_data_id = Some ''d'', cr_group = Some ''g''\<rparr> else Inl ''bad'')"

lemma push_handler_queues_key_witness:
  "snd (ConfigChangeNotify_reply demo_push_slice (\<lambda>_. Inl []) (\<lambda>_. Inr ''ok'') ''ip'' demo_push) = [group_key ''d'' ''g'' []]"
proof -
  let ?m = "\<lparr>gm_headers = Map.empty, gm_body = \<lparr>req_headers = Map.empty, request_id = Some ''7'', cr_namespace = None,
     cr_data_id = Some ''d'', cr_group = Some ''g''\<rparr>, gm_client_ip = []\<rparr>"
  have "from_payload ''ConfigChangeNotifyRequest'' demo_push_slice (\<lambda>_. Inl []) demo_push = Inr ?m"
    by (simp add: from_payload_def from_proto_any_def demo_push_def demo_push_slice_def)
  from push_handler_queues_key[OF this, of "''d''" "''g''" "\<lambda>_. Inr ''ok''" "''ip''"]
  show ?thesis by auto
qed

section \<open>Lost notifications and skipped filters\<close>

lemma al_insert_entry:
  assumes "al_insert to_vec send rid rid2 d g w = Some (w', effs)"
  shows "\<exists>cd. cache_get (w_cache w') (group_key d g (w_namespace w)) = Some cd \<and> cd_listeners cd = [] \<and>
    w_namespace w' = w_namespace w \<and> effect_notes effs = [] \<and>
    (is_ok (get_config_inner_async send rid d g (w_namespace w)) \<or> cd = CacheData_new (w_filters w) d g (w_namespace w))"
proof -
  let ?n = "w_namespace w" let ?c0 = "CacheData_new (w_filters w) d g ?n :: 'a CacheData"
  have ids: "cd_data_id ?c0 = d" "cd_group ?c0 = g" "cd_namespace ?c0 = ?n" by (simp_all add: CacheData_new_def)
  have fill: "ns = [] \<and> cd_listeners cd = []" if "fill_data_and_notify r ?c0 = Some (ns, cd)" for r ns cd
    using that by (auto simp: fill_data_and_notify_def fill_data_def CacheData_new_def bind_eq_Some_conv split: option.splits)
  have put: "cache_get (cache_put to_vec (group_key d g ?n) cd (w_cache w)) (group_key d g ?n) = Some cd" for cd
    by (simp only: cache.lookup_put fun_upd_same)
  show ?thesis
  proof (cases "get_config_inner_async send rid d g ?n")
    case (Inl e)
    then have "w' = w\<lparr>w_cache := cache_put to_vec (group_key d g ?n) ?c0 (w_cache w)\<rparr>" "effect_notes effs = []"
      using assms ids by (auto simp: al_insert_def case_prod_unfold)
    then show ?thesis using put by (intro exI[of _ ?c0]) (simp add: CacheData_new_def)
  next
    case (Inr r)
    then obtain ns cd where f: "fill_data_and_notify r ?c0 = Some (ns, cd)"
      and w': "w' = w\<lparr>w_cache := cache_put to_vec (group_key d g ?n) cd (w_cache w)\<rparr>"
      and e: "effect_notes effs = ns"
      using assms ids by (auto simp: al_insert_def case_prod_unfold bind_eq_Some_conv)
    then show ?thesis using put[of cd] fill[OF f] Inr by (intro exI[of _ cd]) simp
  qed
qed

lemma al_register_entry:
  assumes "cache_get (w_cache w) (group_key d g (w_namespace w)) = Some c" "al_register d g l w = (w', effs)"
  shows "cache_get (w_cache w') (group_key d g (w_namespace w)) = Some (add_listener l c) \<and>
    w_namespace w' = w_namespace w \<and> effect_notes effs = []"
proof -
  have "w' = w\<lparr>w_cache := cache_upd (add_listener l) (group_key d g (w_namespace w)) (w_cache w)\<rparr>" "effect_notes effs = []"
    using assms(2) by (auto simp: al_register_def case_prod_unfold)
  then show ?thesis using assms(1) by (simp add: cache.lookup_upd del: fun_upd_apply) simp
qed

text \<open>
  a listener added before its configuration exists misses the first publish: the query of
  \<open>add_listener\<close> fails, the entry stays marked as initializing, and the change notification of the
  first publish fills the entry without notifying.
\<close>

lemma first_publish_not_notified:
  assumes "al_absent w d g" "get_config_inner_async send rid d g (w_namespace w) = Inl e" "complete r"
  shows "\<exists>w1 e1 w2 e2 c. worker_add_listener to_vec send rid rid2 d g l w = Some (w1, e1) \<and>
    notify_change_step (\<lambda>_. Inr r) rid3 (group_key d g (w_namespace w)) w1 = Some (w2, e2) \<and>
    effect_notes (e1 @ e2) = [] \<and>
    cache_get (w_cache w2) (group_key d g (w_namespace w)) = Some c \<and>
    listeners_of c = [l] \<and> cd_content c = the (qr_content r)"
proof -
  let ?n = "w_namespace w" let ?c0 = "CacheData_new (w_filters w) d g ?n :: 'b CacheData"
  obtain wi ei where i: "al_insert to_vec send rid rid2 d g w = Some (wi, ei)"
    using assms(2) by (auto simp: al_insert_def CacheData_new_def case_prod_unfold)
  from al_insert_entry[OF i] assms(2) have ci: "cache_get (w_cache wi) (group_key d g ?n) = Some ?c0"
    "w_namespace wi = ?n" "effect_notes ei = []" by auto
  obtain w1 er where rg: "al_register d g l wi = (w1, er)" by (cases "al_register d g l wi")
  from al_register_entry[OF _ rg, of ?c0] ci
  have c1: "cache_get (w_cache w1) (group_key d g ?n) = Some (add_listener l ?c0)" "effect_notes er = []" by simp_all
  have a: "worker_add_listener to_vec send rid rid2 d g l w = Some (w1, ei @ er)"
    using assms(1) i rg by (simp add: worker_add_listener_def)
  let ?c1 = "add_listener l ?c0"
  have c1s: "cd_initializing ?c1" "listeners_of ?c1 = [l]"
    by (simp_all add: add_listener_def index_of_listener_def CacheData_new_def ListenerWrapper_new_def)
  have q: "get_config_inner_async (\<lambda>_. Inr r) rid3 (cd_data_id ?c1) (cd_group ?c1) (cd_namespace ?c1) = Inr r"
    using assms(3) by (simp add: get_config_inner_async_def complete_def)
  from notify_change_step_complete[where send = "\<lambda>_. Inr r", OF c1(1) assms(3) q] obtain w2 e2 where
    "notify_change_step (\<lambda>_. Inr r) rid3 (group_key d g ?n) w1 = Some (w2, e2)"
    "cache_get (w_cache w2) (group_key d g ?n) = Some (filled r ?c1)" "effect_notes e2 = []"
    using c1s(1) by (auto simp: after_change_def)
  then show ?thesis using a c1(2) ci(3) c1s(2) by (intro exI conjI) (assumption | simp)+
qed

lemma first_publish_not_notified_witness:
  "\<exists>w1 e1 w2 e2 c. worker_add_listener (\<lambda>_. Inl []) (\<lambda>_. Inl NoAvailableServer) ''1'' ''3'' ''x'' ''g'' (7::nat) demo_worker = Some (w1, e1) \<and>
    notify_change_step (\<lambda>_. Inr (demo_answer ''a'' ''m'')) ''5'' (group_key ''x'' ''g'' ''n'') w1 = Some (w2, e2) \<and>
    effect_notes (e1 @ e2) = [] \<and> cache_get (w_cache w2) (group_key ''x'' ''g'' ''n'') = Some c \<and>
    listeners_of c = [7] \<and> cd_content c = ''a''"
proof -
  have "al_absent demo_worker ''x'' ''g''"
    by (simp add: al_absent_def demo_worker_def cache_contains_key_def group_key_def)
  from first_publish_not_notified[where send = "\<lambda>_. Inl NoAvailableServer", OF this _ demo_complete[of "''a''" "''m''"],
      of "''1''" NoAvailableServer "\<lambda>_. Inl []" "''3''" 7 "''5''"]
  show ?thesis by (simp add: get_config_inner_async_def demo_worker_def) (simp add: demo_answer_def)
qed

text \<open>
  two concurrent \<open>add_listener\<close> calls for a configuration not cached yet lose a listener: both
  find the key absent, and the insertion of the second replaces the entry the first has registered
  its listener with.
\<close>

lemma concurrent_add_loses_listener:
  assumes "al_absent w d g"
    "al_insert to_vec send rid rid2 d g w = Some (w1, e1)" "al_register d g l1 w1 = (w2, e2)"
    "al_insert to_vec send' rid3 rid4 d g w2 = Some (w3, e3)" "al_register d g l2 w3 = (w4, e4)"
  shows "\<exists>c2 c4. cache_get (w_cache w2) (group_key d g (w_namespace w)) = Some c2 \<and> listeners_of c2 = [l1] \<and>
    cache_get (w_cache w4) (group_key d g (w_namespace w)) = Some c4 \<and> listeners_of c4 = [l2]"
proof -
  have one: "listeners_of (add_listener l c) = [l]" if "cd_listeners c = []" for l and c :: "'x CacheData"
    using that by (simp add: add_listener_def index_of_listener_def ListenerWrapper_new_def)
  from al_insert_entry[OF assms(2)] obtain a where a: "cache_get (w_cache w1) (group_key d g (w_namespace w)) = Some a"
    "cd_listeners a = []" "w_namespace w1 = w_namespace w" by blast
  from al_register_entry[OF _ assms(3), of a] a
  have b: "cache_get (w_cache w2) (group_key d g (w_namespace w)) = Some (add_listener l1 a)" "w_namespace w2 = w_namespace w"
    by simp_all
  from al_insert_entry[OF assms(4)] b(2) obtain c where c: "cache_get (w_cache w3) (group_key d g (w_namespace w)) = Some c"
    "cd_listeners c = []" "w_namespace w3 = w_namespace w" by auto
  from al_register_entry[OF _ assms(5), of c] c
  have "cache_get (w_cache w4) (group_key d g (w_namespace w)) = Some (add_listener l2 c)" by simp
  then show ?thesis using b(1) one[OF a(2)] one[OF c(2)] by blast
qed

lemma concurrent_add_loses_listener_witness:
  "\<exists>w1 e1 w2 e2 w3 e3 w4 e4 c2 c4. al_insert (\<lambda>_. Inl []) (\<lambda>_. Inl NoAvailableServer) ''1'' ''3'' ''x'' ''g'' demo_worker = Some (w1, e1) \<and>
    al_register ''x'' ''g'' (7::nat) w1 = (w2, e2) \<and>
    al_insert (\<lambda>_. Inl []) (\<lambda>_. Inl NoAvailableServer) ''5'' ''7'' ''x'' ''g'' w2 = Some (w3, e3) \<and>
    al_register ''x'' ''g'' 8 w3 = (w4, e4) \<and>
    cache_get (w_cache w2) (group_key ''x'' ''g'' ''n'') = Some c2 \<and> listeners_of c2 = [7] \<and>
    cache_get (w_cache w4) (group_key ''x'' ''g'' ''n'') = Some c4 \<and> listeners_of c4 = [8]"
proof -
  have ins: "\<exists>w' e. al_insert (\<lambda>_. Inl []) (\<lambda>_. Inl NoAvailableServer) i j ''x'' ''g'' w = Some (w', e)" for i j and w :: "nat config_worker"
    by (simp add: al_insert_def get_config_inner_async_def case_prod_unfold)
  obtain w1 e1 where i1: "al_insert (\<lambda>_. Inl []) (\<lambda>_. Inl NoAvailableServer) ''1'' ''3'' ''x'' ''g'' demo_worker = Some (w1, e1)" using ins by blast
  obtain w2 e2 where r1: "al_register ''x'' ''g'' 7 w1 = (w2, e2)" by (cases "al_register ''x'' ''g'' 7 w1")
  obtain w3 e3 where i2: "al_insert (\<lambda>_. Inl []) (\<lambda>_. Inl NoAvailableServer) ''5'' ''7'' ''x'' ''g'' w2 = Some (w3, e3)" using ins by blast
  obtain w4 e4 where r2: "al_register ''x'' ''g'' 8 w3 = (w4, e4)" by (cases "al_register ''x'' ''g'' 8 w3")
  have "al_absent demo_worker ''x'' ''g''"
    by (simp add: al_absent_def demo_worker_def cache_contains_key_def group_key_def)
  from concurrent_add_loses_listener[OF this i1 r1 i2 r2] i1 r1 i2 r2 show ?thesis
    by (auto simp: demo_worker_def)
qed

text \<open>
  an entry read back from the disk cache is served without the filters of the worker: they are not
  serialized, and the entry's own list comes back empty. An encrypted configuration is then returned
  as cipher text.
\<close>

lemma loaded_entry_skips_filters:
  assumes "cache_get (w_cache w) (group_key d g (w_namespace w)) = Some (CacheData_persisted c)"
    "cd_content c \<noteq> []" "cd_md5 c \<noteq> []"
  shows "get_config send rid w d g = Some (Inr (ConfigResponse_new (cd_data_id c) (cd_group c) (cd_namespace c)
    (cd_content c) (cd_content_type c) (cd_md5 c)))"
  using assms
  by (simp add: get_config_def CacheData_persisted_def resp_snapshot_def apply_resp_filters_def ConfigResp_new_def)

lemma loaded_entry_skips_filters_witness:
  "\<exists>w :: nat config_worker. w_filters w = [ConfigEncryptionFilter [xor_like_plugin]] \<and>
    get_config (\<lambda>_. Inl NoAvailableServer) ''1'' w ''d'' ''g'' =
      Some (Inr (ConfigResponse_new ''d'' ''g'' ''n'' ''old'' ''text'' ''m0''))"
proof -
  define w where "w = \<lparr>w_namespace = ''n'', w_cache = \<lparr>inner = [group_key ''d'' ''g'' ''n'' \<mapsto> CacheData_persisted demo_data],
    has_store = True\<rparr>, w_filters = [ConfigEncryptionFilter [xor_like_plugin]]\<rparr>"
  have "cache_get (w_cache w) (group_key ''d'' ''g'' (w_namespace w)) = Some (CacheData_persisted demo_data)"
    by (simp add: w_def cache_get_def)
  from loaded_entry_skips_filters[OF this, of "\<lambda>_. Inl NoAvailableServer" "''1''"]
  have "get_config (\<lambda>_. Inl NoAvailableServer) ''1'' w ''d'' ''g'' =
      Some (Inr (ConfigResponse_new ''d'' ''g'' ''n'' ''old'' ''text'' ''m0''))"
    by (simp add: demo_data_def)
  moreover have "w_filters w = [ConfigEncryptionFilter [xor_like_plugin]]" by (simp add: w_def)
  ultimately show ?thesis by blast
qed

end
