(* ===== verification/ConfigApi.thy ===== *)
theory ConfigApi
  imports ConfigProps
begin

text \<open>
  The public configuration API: the guards of \<^verbatim>\<open>ConfigService\<close> (src/api/config.rs) in front of
  \<^verbatim>\<open>NacosConfigService\<close> (src/config/mod.rs), which delegates to the worker, and the service builder.
\<close>

section \<open>Calls\<close>

datatype 'l config_call =
    GetConfig string string
  | PublishConfig string string string "string option"
  | PublishConfigCas string string string "string option" string
  | PublishConfigBeta string string string "string option" string
  | PublishConfigParam string string string "string option" "string option" "string \<rightharpoonup> string"
  | RemoveConfig string string
  | AddConfigListener string string 'l
  | RemoveConfigListener string string 'l

datatype config_outcome =
    Failed error
  | Response ConfigResponse
  | Flag bool
  | Done
  | Panicked

text \<open>The server and the ids of the requests a call makes.\<close>

record 'l config_env =
  env_to_vec :: "'l CacheData to_vec"
  env_query :: query_server
  env_publish :: "ConfigPublishRequest \<Rightarrow> grpc_response result"
  env_remove :: "ConfigRemoveRequest \<Rightarrow> grpc_response result"
  env_rid :: string
  env_rid2 :: string

fun flag_outcome :: "bool result \<Rightarrow> config_outcome" where
  "flag_outcome (Inl e) = Failed e"
| "flag_outcome (Inr b) = Flag b"

text \<open>\<^verbatim>\<open>NacosConfigService\<close>: every operation is the worker's.\<close>

fun nacos_config_call ::
    "'l config_env \<Rightarrow> 'l config_call \<Rightarrow> 'l config_worker \<Rightarrow> config_outcome \<times> 'l config_worker \<times> 'l config_effect list" where
  "nacos_config_call e (GetConfig d g) w =
    ((case get_config (env_query e) (env_rid e) w d g of
        None \<Rightarrow> Panicked | Some (Inl err) \<Rightarrow> Failed err | Some (Inr r) \<Rightarrow> Response r), w, [])"
| "nacos_config_call e (PublishConfig d g c t) w =
    (flag_outcome (publish_config (env_publish e) (env_rid e) w d g c t), w, [])"
| "nacos_config_call e (PublishConfigCas d g c t m) w =
    (flag_outcome (publish_config_cas (env_publish e) (env_rid e) w d g c t m), w, [])"
| "nacos_config_call e (PublishConfigBeta d g c t b) w =
    (flag_outcome (publish_config_beta (env_publish e) (env_rid e) w d g c t b), w, [])"
| "nacos_config_call e (PublishConfigParam d g c t m ps) w =
    (flag_outcome (publish_config_param (env_publish e) (env_rid e) w d g c t m ps), w, [])"
| "nacos_config_call e (RemoveConfig d g) w =
    (flag_outcome (remove_config (env_remove e) (env_rid e) w d g), w, [])"
| "nacos_config_call e (AddConfigListener d g l) w =
    (case worker_add_listener (env_to_vec e) (env_query e) (env_rid e) (env_rid2 e) d g l w of
       None \<Rightarrow> (Panicked, w, []) | Some (w', effs) \<Rightarrow> (Done, w', effs))"
| "nacos_config_call e (RemoveConfigListener d g l) w =
    (let (w', effs) = worker_remove_listener d g l w in (Done, w', effs))"

text \<open>The parameters each call of \<^verbatim>\<open>ConfigService\<close> checks, in order.\<close>

fun required_params :: "'l config_call \<Rightarrow> (string \<times> string) list" where
  "required_params (GetConfig d g) = [(d, ''data_id''), (g, ''group'')]"
| "required_params (PublishConfig d g c t) = [(d, ''data_id''), (g, ''group''), (c, ''content'')]"
| "required_params (PublishConfigCas d g c t m) =
    [(d, ''data_id''), (g, ''group''), (c, ''content''), (m, ''cas_md5'')]"
| "required_params (PublishConfigBeta d g c t b) =
    [(d, ''data_id''), (g, ''group''), (c, ''content''), (b, ''beta_ips'')]"
| "required_params (PublishConfigParam d g c t m ps) = [(d, ''data_id''), (g, ''group''), (c, ''content'')]"
| "required_params (RemoveConfig d g) = [(d, ''data_id''), (g, ''group'')]"
| "required_params (AddConfigListener d g l) = [(d, ''data_id''), (g, ''group'')]"
| "required_params (RemoveConfigListener d g l) = [(d, ''data_id''), (g, ''group'')]"

fun check_params :: "(string \<times> string) list \<Rightarrow> unit result" where
  "check_params [] = Ok ()"
| "check_params ((v, n) # ps) = and_then (check_not_blank v n) (\<lambda>_. check_params ps)"

definition config_service_call ::
    "'l config_env \<Rightarrow> 'l config_call \<Rightarrow> 'l config_worker \<Rightarrow> config_outcome \<times> 'l config_worker \<times> 'l config_effect list" where
  "config_service_call e c w =
    (case check_params (required_params c) of
       Inl err \<Rightarrow> (Failed err, w, [])
     | Inr _ \<Rightarrow> nacos_config_call e c w)"

section \<open>Properties\<close>

lemma check_params_blank:
  "check_params ps = Inl e \<longleftrightarrow>
    (\<exists>as v n bs. ps = as @ (v, n) # bs \<and> (\<forall>(u, m)\<in>set as. trim u \<noteq> []) \<and> trim v = [] \<and>
      e = InvalidParam n ''param must not blank!'')"
proof (induction ps)
  case (Cons p ps)
  obtain v n where p: "p = (v, n)" by (cases p)
  show ?case
  proof (cases "trim v = []")
    case True
    have "(\<exists>as v' n' bs. p # ps = as @ (v', n') # bs \<and> (\<forall>(u, m)\<in>set as. trim u \<noteq> []) \<and> trim v' = [] \<and>
        e = InvalidParam n' ''param must not blank!'') \<longleftrightarrow> e = InvalidParam n ''param must not blank!''"
      (is "?L = ?R")
    proof
      assume ?L
      then obtain as v' n' bs where *: "p # ps = as @ (v', n') # bs" "\<forall>(u, m)\<in>set as. trim u \<noteq> []"
        "e = InvalidParam n' ''param must not blank!''" by blast
      then have "as = []" using p True by (cases as) auto
      then show ?R using * p by simp
    next
      assume ?R
      then show ?L using True p by (intro exI[of _ "[]"] exI[of _ v] exI[of _ n] exI[of _ ps]) simp
    qed
    then show ?thesis using True p by (auto simp: check_not_blank_def)
  next
    case False
    then have "(check_params (p # ps) = Inl e) \<longleftrightarrow> (check_params ps = Inl e)" using p by (simp add: check_not_blank_def)
    also have "\<dots> \<longleftrightarrow> (\<exists>as v n bs. p # ps = as @ (v, n) # bs \<and> (\<forall>(u, m)\<in>set as. trim u \<noteq> []) \<and> trim v = [] \<and>
        e = InvalidParam n ''param must not blank!'')" (is "_ \<longleftrightarrow> ?R")
    proof
      assume "check_params ps = Inl e"
      then obtain as v' n' bs where "ps = as @ (v', n') # bs" "\<forall>(u, m)\<in>set as. trim u \<noteq> []" "trim v' = []"
        "e = InvalidParam n' ''param must not blank!''" using Cons.IH by blast
      then show ?R using False p by (intro exI[of _ "p # as"] exI[of _ v'] exI[of _ n'] exI[of _ bs]) auto
    next
      assume ?R
      then obtain as v' n' bs where *: "p # ps = as @ (v', n') # bs" "\<forall>(u, m)\<in>set as. trim u \<noteq> []" "trim v' = []"
        "e = InvalidParam n' ''param must not blank!''" by blast
      then obtain as' where "as = p # as'" using False p by (cases as) auto
      then show "check_params ps = Inl e" using * Cons.IH by auto
    qed
    finally show ?thesis .
  qed
qed simp

text \<open>
  a call with a blank required parameter fails with the name of the first blank one, leaves the
  client unchanged and starts nothing, whatever the server does: nothing blank ever reaches it.
\<close>

lemma blank_parameter_rejected:
  assumes "required_params c = as @ (v, n) # bs" "\<forall>(u, m)\<in>set as. trim u \<noteq> []" "trim v = []"
  shows "config_service_call e c w = (Failed (InvalidParam n ''param must not blank!''), w, [])"
proof -
  have "check_params (required_params c) = Inl (InvalidParam n ''param must not blank!'')"
    using assms check_params_blank by blast
  then show ?thesis by (simp add: config_service_call_def)
qed

lemma blank_parameter_rejected_witness:
  "\<forall>e w. config_service_call e (PublishConfigCas ''d'' ''g'' ''c'' None '' '' :: nat config_call) w =
    (Failed (InvalidParam ''cas_md5'' ''param must not blank!''), w, [])"
proof (intro allI)
  fix e and w :: "nat config_worker"
  have "trim ''d'' \<noteq> []" "trim ''g'' \<noteq> []" "trim ''c'' \<noteq> []"
    by (rule visible_not_blank, simp_all add: visible_def code_def)+
  then show "config_service_call e (PublishConfigCas ''d'' ''g'' ''c'' None '' '') w =
    (Failed (InvalidParam ''cas_md5'' ''param must not blank!''), w, [])"
    by (intro blank_parameter_rejected[of _ "[(''d'', ''data_id''), (''g'', ''group''), (''c'', ''content'')]"
          "'' ''" "''cas_md5''" "[]"]) (simp_all add: trim_space)
qed

end
