(* ===== verification/Startup.thy ===== *)
theory Startup
  imports GrpcClient Recovery Props Providers NamingProps ConfigApi
begin

text \<open>
  How the two services are put together (\<^verbatim>\<open>new\<close> in src/naming/mod.rs, src/config/mod.rs and
  src/config/worker.rs): the client id, the cache, the server list, the gRPC client with its labels,
  handlers and listeners. On it rest what a server is told of a client, what the client replies to
  the server's requests, and that everything a started naming service does keeps it sound.
\<close>

section \<open>What a service is made of\<close>

definition LABEL_SOURCE :: string where "LABEL_SOURCE = ''source''"
definition LABEL_SOURCE_SDK :: string where "LABEL_SOURCE_SDK = ''sdk''"
definition LABEL_MODULE :: string where "LABEL_MODULE = ''module''"
definition LABEL_MODULE_NAMING :: string where "LABEL_MODULE_NAMING = ''naming''"
definition LABEL_MODULE_CONFIG :: string where "LABEL_MODULE_CONFIG = ''config''"

text \<open>
  The builder calls of the two services; those that only fill a field are written as its update.
  The options of the transport are not set, so their parsers do not matter.
\<close>

definition gb_port :: "16 word option \<Rightarrow> 'l grpc_builder \<Rightarrow> 'l grpc_builder" where
  "gb_port p = gb_set_config (\<lambda>_. None) (\<lambda>_. None) (SetPort p)"

definition naming_grpc_builder :: "props \<Rightarrow> ClientProps \<Rightarrow> (payload \<Rightarrow> payload option) \<Rightarrow> handler grpc_builder" where
  "naming_grpc_builder E p push_handler =
    (let b = gb_port (get_remote_grpc_port p) grpc_builder_new;
         b = gb_with_namespace (get_namespace_default_if_empty E p) b;
         b = gb_with_client_version (get_client_version p) b;
         b = gb_support_remote_connection True b;
         b = gb_support_config_remote_metrics True b;
         b = gb_support_naming_delta_push False b;
         b = gb_support_naming_remote_metric False b;
         b = gb_add_labels (get_labels E p) b;
         b = gb_add_label LABEL_SOURCE LABEL_SOURCE_SDK b;
         b = gb_add_label LABEL_MODULE LABEL_MODULE_NAMING b;
         b = gb_with_app_name (get_app_name E p) b;
         b = register_server_request_handler ''NotifySubscriberRequest'' push_handler b;
         b = gb_with_connected_listener Reconnected b;
         b = gb_with_disconnected_listener Disconnected b;
         b = gb_with_auth_context (get_auth_context E p) b;
         b = gb_with_max_retries (map_option unat (get_max_retries p)) b
     in gb_with_emergency_start (get_naming_load_cache_at_start E p) b)"

definition config_grpc_builder :: "props \<Rightarrow> ClientProps \<Rightarrow> (payload \<Rightarrow> payload option) \<Rightarrow> handler grpc_builder" where
  "config_grpc_builder E p change_handler =
    (let b = gb_port (get_remote_grpc_port p) grpc_builder_new;
         b = gb_with_namespace (get_namespace E p) b;
         b = gb_with_app_name (get_app_name E p) b;
         b = gb_with_client_version (get_client_version p) b;
         b = gb_support_remote_connection True b;
         b = gb_support_config_remote_metrics True b;
         b = gb_support_naming_delta_push False b;
         b = gb_support_naming_remote_metric False b;
         b = gb_add_label LABEL_SOURCE LABEL_SOURCE_SDK b;
         b = gb_add_label LABEL_MODULE LABEL_MODULE_CONFIG b;
         b = gb_add_labels (get_labels E p) b;
         b = register_server_request_handler ''ConfigChangeNotifyRequest'' change_handler b;
         b = gb_with_auth_context (get_auth_context E p) b;
         b = gb_with_max_retries (map_option unat (get_max_retries p)) b
     in gb_with_emergency_start (get_config_load_cache_at_start E p) b)"

text \<open>
  The outside of a start: the environment, the home directory, the components of a path, the endpoint
  URL and HTTP client of the server list, the clock, and the transport a builder's connection gives
  its first request.
\<close>

record outside =
  out_props :: props
  out_home :: "string list"
  out_path :: "string \<Rightarrow> string list"
  out_build_url :: "string \<Rightarrow> string \<Rightarrow> string option"
  out_http :: "string \<Rightarrow> http_result"
  out_now :: nat
  out_health_request :: "payload result"
  out_transport :: "provider \<Rightarrow> handler grpc_builder \<Rightarrow> payload \<Rightarrow> payload result"

definition client_provider :: "outside \<Rightarrow> ClientProps \<Rightarrow> provider result option" where
  "client_provider out p =
    create_server_list_provider (out_props out) (out_build_url out) (out_http out) (out_now out)
      (get_endpoint (out_props out) p) (get_namespace_default_if_empty (out_props out) p) (get_server_addr (out_props out) p)"

definition client_cache :: "outside \<Rightarrow> (string list \<Rightarrow> string \<rightharpoonup> 'v) \<Rightarrow> bool \<Rightarrow> ClientProps \<Rightarrow> cache_builder \<Rightarrow> 'v cache" where
  "client_cache out load load_at_start p b =
    builder_build_cache load (builder_store (out_home out) (get_cache_kind (out_props out) p)
      (map_option (out_path out) (get_cache_dir (out_props out) p)) (builder_load_cache_at_start load_at_start b))"

text \<open>
  \<^verbatim>\<open>NacosNamingService::new\<close>: the service, its client and its id; the sequence number is drawn whether or
  not the rest succeeds. The outer option is the panic of an endpoint that does not parse.
\<close>

definition NacosNamingService_new ::
    "outside \<Rightarrow> (string list \<Rightarrow> string \<rightharpoonup> ServiceInfo) \<Rightarrow> (RequestResource \<Rightarrow> headers) \<Rightarrow> (emitter \<Rightarrow> payload \<Rightarrow> payload option) \<Rightarrow>
      ClientProps \<Rightarrow> 64 word \<Rightarrow> ('l naming_service \<times> grpc_client \<times> string) result option \<times> 64 word" where
  "NacosNamingService_new out load auth push p seq =
    (let E = out_props out;
         namespace = get_namespace_default_if_empty E p;
         (client_id, seq') = generate_client_id ''naming'' (get_address_identifier E p) namespace seq;
         redo = redo_new;
         cache = client_cache out load (get_naming_load_cache_at_start E p) p (builder_naming namespace);
         e = \<lparr>e_cache = cache, push_empty_protection = get_naming_push_empty_protection E p\<rparr>
     in (map_option (\<lambda>created.
           and_then created (\<lambda>provider.
           and_then (let b = naming_grpc_builder E p (push e) in
             grpc_client_build auth (out_health_request out) (out_transport out provider b) b) (\<lambda>client.
           Ok (\<lparr>nam_namespace = namespace, nam_redo = redo, nam_updater = updater_new, nam_emitter = e,
             nam_observers = Map.empty\<rparr>, client, client_id))))
         (client_provider out p), seq'))"

definition ConfigWorker_new ::
    "outside \<Rightarrow> (string list \<Rightarrow> string \<rightharpoonup> 'l CacheData) \<Rightarrow> (RequestResource \<Rightarrow> headers) \<Rightarrow> (payload \<Rightarrow> payload option) \<Rightarrow>
      ClientProps \<Rightarrow> ConfigFilter list \<Rightarrow> ('l config_worker \<times> grpc_client) result option" where
  "ConfigWorker_new out load auth change p filters =
    (let E = out_props out;
         cache = client_cache out load (get_config_load_cache_at_start E p) p (builder_config (get_namespace_default_if_empty E p))
     in map_option (\<lambda>created.
          and_then created (\<lambda>provider.
          and_then (let b = config_grpc_builder E p change in
            grpc_client_build auth (out_health_request out) (out_transport out provider b) b) (\<lambda>client.
          Ok (\<lparr>w_namespace = get_namespace E p, w_cache = cache, w_filters = filters\<rparr>, client))))
        (client_provider out p))"

definition NacosConfigService_new ::
    "outside \<Rightarrow> (string list \<Rightarrow> string \<rightharpoonup> 'l CacheData) \<Rightarrow> (RequestResource \<Rightarrow> headers) \<Rightarrow> (payload \<Rightarrow> payload option) \<Rightarrow>
      ClientProps \<Rightarrow> ConfigFilter list \<Rightarrow> 64 word \<Rightarrow> ('l config_worker \<times> grpc_client \<times> string) result option \<times> 64 word" where
  "NacosConfigService_new out load auth change p filters seq =
    (let E = out_props out;
         (client_id, seq') = generate_client_id ''config'' (get_address_identifier E p) (get_namespace_default_if_empty E p) seq
     in (map_option (\<lambda>made. and_then made (\<lambda>(worker, client). Ok (worker, client, client_id)))
           (ConfigWorker_new out load auth change p filters), seq'))"

lemma client_cache_lookup:
  "cache_get (client_cache out load b p cb) =
    (case cb_store (builder_store (out_home out) (get_cache_kind (out_props out) p)
        (map_option (out_path out) (get_cache_dir (out_props out) p)) (builder_load_cache_at_start b cb)) of
       None \<Rightarrow> Map.empty | Some dir \<Rightarrow> if b then load dir else Map.empty)"
  by (auto simp: client_cache_def builder_build_cache_def cache_new_def cache_get_def builder_store_def
      builder_load_cache_at_start_def Let_def split: option.splits)

text \<open>An outside with one server, for the witnesses.\<close>

definition demo_outside :: outside where
  "demo_outside = \<lparr>out_props = Map.empty, out_home = [], out_path = \<lambda>d. [d], out_build_url = \<lambda>_ _. None,
     out_http = \<lambda>_. SendFailed [], out_now = 0, out_health_request = Ok demo_server_reply,
     out_transport = \<lambda>_ _ _. Ok demo_server_reply\<rparr>"

definition demo_props :: ClientProps where
  "demo_props = (client_props_new ''1'')\<lparr>cp_server_addr := format_host_port ''a'' 1\<rparr>"

lemma demo_provider: "client_provider demo_outside demo_props = Some (Ok (StaticProvider [format_host_port ''a'' 1]))"
  using parse_server_list_formatted[of "[(''a'', 1)]" Map.empty]
  by (simp add: client_provider_def demo_outside_def create_server_list_provider_def get_endpoint_def get_server_addr_def
      get_value_option_def get_value_def demo_props_def client_props_new_def wf_host_def host_char_def visible_def is_separator_def code_def)

section \<open>What the server is told\<close>

lemmas builder_fields = gb_with_defs gb_port_def gb_set_config_def grpc_builder_new_def gb_add_labels_def gb_add_label_def
  gb_support_remote_connection_def gb_support_config_remote_metrics_def gb_support_naming_delta_push_def
  gb_support_naming_remote_metric_def register_server_request_handler_def ability_defs

lemma naming_builder_fields:
  "gb_labels (naming_grpc_builder E p h) = (get_labels E p)(LABEL_SOURCE \<mapsto> LABEL_SOURCE_SDK, LABEL_MODULE \<mapsto> LABEL_MODULE_NAMING)"
  "gb_namespace (naming_grpc_builder E p h) = get_namespace_default_if_empty E p"
  "gb_client_version (naming_grpc_builder E p h) = get_client_version p"
  "gb_abilities (naming_grpc_builder E p h) = \<lparr>remote_ability = \<lparr>ra_support_remote_connection = True\<rparr>,
    config_ability = \<lparr>ca_support_remote_metrics = True\<rparr>,
    naming_ability = \<lparr>na_support_delta_push = False, na_support_remote_metric = False\<rparr>\<rparr>"
  "gb_handlers (naming_grpc_builder E p h) = [''NotifySubscriberRequest'' \<mapsto> h]"
  "gb_connected_listener (naming_grpc_builder E p h) = Some Reconnected"
  "gb_disconnected_listener (naming_grpc_builder E p h) = Some Disconnected"
  by (simp_all add: naming_grpc_builder_def Let_def builder_fields)

lemma config_builder_fields:
  "gb_labels (config_grpc_builder E p h) = [LABEL_SOURCE \<mapsto> LABEL_SOURCE_SDK, LABEL_MODULE \<mapsto> LABEL_MODULE_CONFIG] ++ get_labels E p"
  "gb_namespace (config_grpc_builder E p h) = get_namespace E p"
  "gb_client_version (config_grpc_builder E p h) = get_client_version p"
  "gb_abilities (config_grpc_builder E p h) = \<lparr>remote_ability = \<lparr>ra_support_remote_connection = True\<rparr>,
    config_ability = \<lparr>ca_support_remote_metrics = True\<rparr>,
    naming_ability = \<lparr>na_support_delta_push = False, na_support_remote_metric = False\<rparr>\<rparr>"
  "gb_handlers (config_grpc_builder E p h) = [''ConfigChangeNotifyRequest'' \<mapsto> h]"
  "gb_connected_listener (config_grpc_builder E p h) = None"
  by (simp_all add: config_grpc_builder_def Let_def builder_fields)

definition setup_request :: "'l grpc_builder \<Rightarrow> ConnectionSetupRequest" where
  "setup_request b = \<lparr>req_headers = Map.empty, request_id = None, client_version = gb_client_version b, abilities = gb_abilities b,
     tenant = gb_namespace b, labels = gb_labels b\<rparr>"

lemma built_setup_message_eq:
  "built_setup_message to_vec local_ip b =
    convert (into_payload ''ConnectionSetupRequest'' to_vec \<lparr>gm_headers = Map.empty, gm_body = setup_request b, gm_client_ip = local_ip\<rparr>)
      ''setup message convert to grpc message occur an error''"
  by (simp add: built_setup_message_def setup_payload_def builder_new_def setup_request_def)

lemma setup_message_read:
  assumes "codec_ok to_vec from_slice" "built_setup_message to_vec local_ip b = Ok msg"
  shows "from_payload ''ConnectionSetupRequest'' from_slice err_slice msg =
    Inr \<lparr>gm_headers = Map.empty, gm_body = setup_request b, gm_client_ip = local_ip\<rparr>"
  by (rule payload_read_back[OF assms(1)])
    (use assms(2) in \<open>simp add: built_setup_message_eq convert_def split: sum.splits\<close>)



section \<open>Replies\<close>

text \<open>The handlers of the two clients; the codecs of their messages are arguments.\<close>

definition naming_handlers ::
    "props \<Rightarrow> ClientProps \<Rightarrow> grpc_request from_slice \<Rightarrow> NotifySubscriberRequest from_slice \<Rightarrow> ServiceInfo to_vec \<Rightarrow>
      grpc_response from_slice \<Rightarrow> grpc_response to_vec \<Rightarrow> string \<Rightarrow> emitter \<Rightarrow> handler_map" where
  "naming_handlers E p detect_slice push_slice si_to_vec err_slice resp_to_vec local_ip e =
    built_handlers (ClientDetection_reply detect_slice err_slice resp_to_vec local_ip)
      (naming_grpc_builder E p (\<lambda>q. fst (NamingPush_reply si_to_vec push_slice err_slice resp_to_vec local_ip q e)))"

definition config_handlers ::
    "props \<Rightarrow> ClientProps \<Rightarrow> grpc_request from_slice \<Rightarrow> config_request from_slice \<Rightarrow>
      grpc_response from_slice \<Rightarrow> grpc_response to_vec \<Rightarrow> string \<Rightarrow> handler_map" where
  "config_handlers E p detect_slice change_slice err_slice resp_to_vec local_ip =
    built_handlers (ClientDetection_reply detect_slice err_slice resp_to_vec local_ip)
      (config_grpc_builder E p (\<lambda>q. fst (ConfigChangeNotify_reply change_slice err_slice resp_to_vec local_ip q)))"

text \<open>The reply is a success of the given type for a request with this id.\<close>

definition answers :: "grpc_response from_slice \<Rightarrow> grpc_response from_slice \<Rightarrow> payload \<Rightarrow> string \<Rightarrow> string option \<Rightarrow> bool" where
  "answers resp_slice err_slice reply type_name i =
    (\<exists>m. from_payload type_name resp_slice err_slice reply = Inr m \<and> is_success (gm_body m) \<and> response_id (gm_body m) = i)"

text \<open>
  What the stream relies on in a handler (\<^verbatim>\<open>ServerRequestHandler\<close>): it replies only to requests it can
  decode, with a success that carries the id of the request.
\<close>

locale server_request_handler =
  fixes handle :: "payload \<Rightarrow> payload option"
    and decodes :: "payload \<Rightarrow> 'q \<Rightarrow> bool"
    and reply_id :: "'q \<Rightarrow> string option"
    and reply_type :: string
    and resp_to_vec :: "grpc_response to_vec"
    and local_ip :: string
  assumes replies: "handle msg = Some reply \<Longrightarrow>
    \<exists>q. decodes msg q \<and> into_payload reply_type resp_to_vec (builder_new local_ip (response_ok\<lparr>response_id := reply_id q\<rparr>)) = Inr reply"
begin

lemma undecoded_unanswered: "\<forall>q. \<not> decodes msg q \<Longrightarrow> handle msg = None"
  using replies by (cases "handle msg") blast+

lemma reply_answers:
  assumes "codec_ok resp_to_vec resp_slice" "handle msg = Some reply"
  shows "\<exists>q. decodes msg q \<and> answers resp_slice err_slice reply reply_type (reply_id q)"
proof -
  from replies[OF assms(2)] obtain q where
    q: "decodes msg q" "into_payload reply_type resp_to_vec (builder_new local_ip (response_ok\<lparr>response_id := reply_id q\<rparr>)) = Inr reply" by blast
  have "answers resp_slice err_slice reply reply_type (reply_id q)"
    using payload_read_back[OF assms(1) q(2)] by (simp add: answers_def builder_new_def is_success_def response_ok_def)
  then show ?thesis using q(1) by blast
qed

end

interpretation detection: server_request_handler "ClientDetection_reply detect_slice err_slice resp_to_vec local_ip"
  "\<lambda>msg q. from_payload ''ClientDetectionRequest'' detect_slice err_slice msg = Inr q" "\<lambda>q. request_id (gm_body q)"
  "''ClientDetectionResponse''" resp_to_vec local_ip
  by unfold_locales (auto simp: ClientDetection_reply_def Let_def split: sum.splits)

interpretation naming_push: server_request_handler
  "\<lambda>msg. fst (NamingPush_reply si_to_vec push_slice err_slice resp_to_vec local_ip msg e)"
  "\<lambda>msg q. from_payload ''NotifySubscriberRequest'' push_slice err_slice msg = Inr q" "\<lambda>q. request_id (gm_body q)"
  "''NotifySubscriberResponse''" resp_to_vec local_ip
  by unfold_locales (auto simp: NamingPush_reply_def Let_def split: sum.splits prod.splits)

interpretation config_change: server_request_handler
  "\<lambda>msg. fst (ConfigChangeNotify_reply change_slice err_slice resp_to_vec local_ip msg)"
  "\<lambda>msg q. from_payload ''ConfigChangeNotifyRequest'' change_slice err_slice msg = Inr q"
  "\<lambda>q. Some (case request_id (gm_body q) of None \<Rightarrow> [] | Some i \<Rightarrow> i)" "''ConfigChangeNotifyResponse''" resp_to_vec local_ip
  by unfold_locales (auto simp: ConfigChangeNotify_reply_def Let_def split: sum.splits option.splits)

text \<open>
  C26: every reply a client sends on the stream has the type that belongs to the type of the request,
  decodes, reports success and carries the id of the request (of a configuration change without an
  id, the empty one); a message without a type, of a type without a handler, or that does not decode
  gets no reply.
\<close>

theorem replies_typed:
  assumes "codec_ok resp_to_vec resp_slice"
    "hs = naming_handlers E p detect_slice push_slice si_to_vec err_slice resp_to_vec local_ip e \<or>
     hs = config_handlers E p detect_slice change_slice err_slice resp_to_vec local_ip"
    "stream_reply hs msg = Some reply"
  shows "\<exists>md. p_metadata msg = Some md \<and>
    (m_type md = ''ClientDetectionRequest'' \<and>
       (\<exists>q. from_payload ''ClientDetectionRequest'' detect_slice err_slice msg = Inr q \<and>
         answers resp_slice err_slice reply ''ClientDetectionResponse'' (request_id (gm_body q))) \<or>
     m_type md = ''NotifySubscriberRequest'' \<and>
       (\<exists>q. from_payload ''NotifySubscriberRequest'' push_slice err_slice msg = Inr q \<and>
         answers resp_slice err_slice reply ''NotifySubscriberResponse'' (request_id (gm_body q))) \<or>
     m_type md = ''ConfigChangeNotifyRequest'' \<and>
       (\<exists>q. from_payload ''ConfigChangeNotifyRequest'' change_slice err_slice msg = Inr q \<and>
         answers resp_slice err_slice reply ''ConfigChangeNotifyResponse''
           (Some (case request_id (gm_body q) of None \<Rightarrow> [] | Some i \<Rightarrow> i))))"
proof -
  obtain md where md: "p_metadata msg = Some md" using assms(3) by (auto simp: stream_reply_def split: option.splits)
  then obtain h where h: "hs (m_type md) = Some h" "h msg = Some reply"
    using assms(3) by (auto simp: stream_reply_def DefaultHandler_def split: option.splits)
  from assms(2) show ?thesis
  proof
    assume "hs = naming_handlers E p detect_slice push_slice si_to_vec err_slice resp_to_vec local_ip e"
    then show ?thesis using md h detection.reply_answers[OF assms(1)] naming_push.reply_answers[OF assms(1)]
      by (auto simp: naming_handlers_def built_handlers_def naming_builder_fields split: if_splits)
  next
    assume "hs = config_handlers E p detect_slice change_slice err_slice resp_to_vec local_ip"
    then show ?thesis using md h detection.reply_answers[OF assms(1)] config_change.reply_answers[OF assms(1)]
      by (auto simp: config_handlers_def built_handlers_def config_builder_fields split: if_splits)
  qed
qed

definition demo_reply_encode :: "grpc_response to_vec" where
  "demo_reply_encode r = (case response_id r of None \<Rightarrow> Inl [] | Some i \<Rightarrow> if r = response_ok\<lparr>response_id := Some i\<rparr> then Inr i else Inl [])"

definition demo_reply_decode :: "grpc_response from_slice" where
  "demo_reply_decode d = Inr (response_ok\<lparr>response_id := Some d\<rparr>)"

lemma demo_reply_codec: "codec_ok demo_reply_encode demo_reply_decode"
  by (auto simp: codec_ok_def demo_reply_encode_def demo_reply_decode_def split: option.splits if_splits)

definition demo_detection :: payload where
  "demo_detection = \<lparr>p_metadata = Some \<lparr>m_type = ''ClientDetectionRequest'', m_client_ip = [], m_headers = Map.empty\<rparr>,
     p_body = Some \<lparr>type_url = [], any_value = ''7''\<rparr>\<rparr>"

lemma replies_typed_witness:
  "\<exists>reply. stream_reply (naming_handlers Map.empty (client_props_new ''1'') demo_decode (\<lambda>_. Inl []) (\<lambda>_. Inl []) (\<lambda>_. Inl [])
      demo_reply_encode ''ip'' demo_emitter) demo_detection = Some reply \<and>
    answers demo_reply_decode (\<lambda>_. Inl []) reply ''ClientDetectionResponse'' (Some ''7'')"
proof -
  let ?hs = "naming_handlers Map.empty (client_props_new ''1'') demo_decode (\<lambda>_. Inl []) (\<lambda>_. Inl []) (\<lambda>_. Inl [])
    demo_reply_encode ''ip'' demo_emitter"
  have q: "from_payload ''ClientDetectionRequest'' demo_decode (\<lambda>_. Inl []) demo_detection =
      Inr \<lparr>gm_headers = Map.empty, gm_body = \<lparr>req_headers = Map.empty, request_id = Some ''7''\<rparr>, gm_client_ip = []\<rparr>"
    by (simp add: from_payload_def demo_detection_def from_proto_any_def demo_decode_def)
  obtain reply where reply: "stream_reply ?hs demo_detection = Some reply"
    by (simp add: stream_reply_def demo_detection_def naming_handlers_def built_handlers_def)
      (simp add: ClientDetection_reply_def from_payload_def from_proto_any_def demo_decode_def into_payload_def to_proto_any_def
        demo_reply_encode_def response_ok_def builder_new_def)
  from replies_typed[OF demo_reply_codec _ reply] have "\<exists>md. p_metadata demo_detection = Some md \<and>
      m_type md = ''ClientDetectionRequest'' \<and> (\<exists>q. from_payload ''ClientDetectionRequest'' demo_decode (\<lambda>_. Inl []) demo_detection = Inr q \<and>
        answers demo_reply_decode (\<lambda>_. Inl []) reply ''ClientDetectionResponse'' (request_id (gm_body q)))"
    by (fastforce simp: demo_detection_def)
  then show ?thesis using q reply by auto
qed

end
