(* ===== verification/ConfigSync.thy ===== *)
theory ConfigSync
  imports ConfigProps
begin

text \<open>
  The two background loops of the configuration worker (src/config/worker.rs) together: one round of
  \<^verbatim>\<open>list_ensure_cache_data_newest\<close> asks the server which of the cached configurations have changed and
  puts their keys on the channel; \<^verbatim>\<open>notify_change_to_cache_data\<close> takes them from it, in order, and
  fetches each.
\<close>

section \<open>The loops\<close>

fun drain :: "query_server \<Rightarrow> string \<Rightarrow> string list \<Rightarrow> 'l config_worker \<Rightarrow> ('l config_worker \<times> 'l config_effect list) option" where
  "drain send rid [] w = Some (w, [])"
| "drain send rid (key # keys) w =
    Option.bind (notify_change_step send rid key w) (\<lambda>(w1, e1).
    Option.bind (drain send rid keys w1) (\<lambda>(w2, e2). Some (w2, e1 @ e2)))"

definition sync_round ::
    "(ConfigBatchListenRequest \<Rightarrow> ConfigChangeBatchListenResponse result) \<Rightarrow> query_server \<Rightarrow> string \<Rightarrow> string list \<Rightarrow>
      'l config_worker \<Rightarrow> ('l config_worker \<times> 'l config_effect list) option" where
  "sync_round lsend send rid ks w = drain send rid (list_ensure_round lsend rid ks (w_cache w)) w"

section \<open>The server\<close>

text \<open>
  What the server documents: a query answers the published configuration, a batch listen request the
  contexts whose md5 sum is not the published one. \<open>pub\<close> gives the answer for a data id, group and
  namespace.
\<close>

definition answers_queries :: "(string \<Rightarrow> string \<Rightarrow> string \<Rightarrow> ConfigQueryResponse) \<Rightarrow> query_server \<Rightarrow> bool" where
  "answers_queries pub send =
    (\<forall>rid d g n. send (ConfigQueryRequest_new rid d g n) = Inr (pub d g n) \<and> complete (pub d g n))"

definition stale :: "(string \<Rightarrow> string \<Rightarrow> string \<Rightarrow> ConfigQueryResponse) \<Rightarrow> ConfigListenContext \<Rightarrow> bool" where
  "stale pub x = (lc_md5 x \<noteq> the (qr_md5 (pub (lc_data_id x) (lc_group x) (lc_tenant x))))"

definition reports_changes ::
    "(string \<Rightarrow> string \<Rightarrow> string \<Rightarrow> ConfigQueryResponse) \<Rightarrow>
      (ConfigBatchListenRequest \<Rightarrow> ConfigChangeBatchListenResponse result) \<Rightarrow> bool" where
  "reports_changes pub lsend =
    (\<forall>req. \<exists>resp cs. lsend req = Inr resp \<and> is_success resp \<and> changed_configs resp = Some cs \<and>
      (\<lambda>x. (cc_data_id x, cc_group x, cc_namespace x)) ` set cs =
        (\<lambda>x. (lc_data_id x, lc_group x, lc_tenant x)) ` set (filter (stale pub) (config_listen_contexts req)))"

text \<open>Every entry is filed under the key of its own data id, group and namespace.\<close>

definition entry_key :: "'l CacheData \<Rightarrow> string" where
  "entry_key c = group_key (cd_data_id c) (cd_group c) (cd_namespace c)"

definition filed :: "'l CacheData cache \<Rightarrow> bool" where
  "filed c = (\<forall>k v. cache_get c k = Some v \<longrightarrow> entry_key v = k)"

definition published :: "(string \<Rightarrow> string \<Rightarrow> string \<Rightarrow> ConfigQueryResponse) \<Rightarrow> 'l CacheData \<Rightarrow> ConfigQueryResponse" where
  "published pub c = pub (cd_data_id c) (cd_group c) (cd_namespace c)"

text \<open>The entry holds the published configuration.\<close>

definition in_sync :: "(string \<Rightarrow> string \<Rightarrow> string \<Rightarrow> ConfigQueryResponse) \<Rightarrow> 'l CacheData \<Rightarrow> bool" where
  "in_sync pub c = (cd_md5 c = the (qr_md5 (published pub c)) \<and> cd_content c = the (qr_content (published pub c)))"

section \<open>Convergence\<close>

lemma notify_change_step_cached:
  assumes q: "answers_queries pub send" and c: "cache_get (w_cache w) key = Some c"
  shows "\<exists>w' effs. notify_change_step send rid key w = Some (w', effs) \<and>
    cache_get (w_cache w') = (cache_get (w_cache w))(key \<mapsto> snd (after_change (published pub c) c)) \<and>
    effect_notes effs = fst (after_change (published pub c) c)"
proof -
  let ?r = "published pub c"
  have r: "complete ?r" and "send (ConfigQueryRequest_new rid (cd_data_id c) (cd_group c) (cd_namespace c)) = Inr ?r"
    using q by (simp_all add: answers_queries_def published_def)
  then have i: "get_config_inner_async send rid (cd_data_id c) (cd_group c) (cd_namespace c) = Inr ?r"
    using get_config_inner_complete by (simp add: complete_def)
  from notify_change_step_lookup[OF c r i] show ?thesis by blast
qed

text \<open>What one visit makes of an entry: it is in sync, and its listeners have been told.\<close>

definition told :: "'l CacheData \<Rightarrow> bool" where
  "told c = (\<forall>v\<in>set (cd_listeners c). last_md5 v = cd_md5 c)"

definition refreshed :: "(string \<Rightarrow> string \<Rightarrow> string \<Rightarrow> ConfigQueryResponse) \<Rightarrow> 'l CacheData \<Rightarrow> 'l CacheData \<Rightarrow> bool" where
  "refreshed pub c c' =
    (entry_key c' = entry_key c \<and> published pub c' = published pub c \<and> listeners_of c' = listeners_of c \<and>
     in_sync pub c' \<and> \<not> cd_initializing c' \<and> (\<not> cd_initializing c \<longrightarrow> told c'))"

lemma after_change_refreshed: "refreshed pub c (snd (after_change (published pub c) c))"
  by (auto simp: refreshed_def after_change_def dispatch_notify_def told_def in_sync_def published_def entry_key_def)

lemma refreshed_trans: "refreshed pub a b \<Longrightarrow> refreshed pub b c \<Longrightarrow> refreshed pub a c"
  by (auto simp: refreshed_def)

lemma drain_refreshes:
  assumes q: "answers_queries pub send"
  shows "\<exists>w' effs. drain send rid keys w = Some (w', effs) \<and>
    (\<forall>k. rel_option (\<lambda>c c'. if k \<in> set keys then refreshed pub c c' else c' = c) (cache_get (w_cache w) k) (cache_get (w_cache w') k))"
proof (induction keys arbitrary: w)
  case Nil
  have "rel_option (\<lambda>c c'. c' = c) x x" for x :: "'a CacheData option" by (cases x) simp_all
  then show ?case by simp
next
  case (Cons key keys)
  show ?case
  proof (cases "cache_get (w_cache w) key")
    case None
    then have "notify_change_step send rid key w = Some (w, [])" by (simp add: nc_defs)
    moreover from Cons[of w] obtain w' effs where w': "drain send rid keys w = Some (w', effs)"
      "\<forall>k. rel_option (\<lambda>c c'. if k \<in> set keys then refreshed pub c c' else c' = c) (cache_get (w_cache w) k) (cache_get (w_cache w') k)"
      by blast
    moreover have "rel_option (\<lambda>c c'. if k \<in> set (key # keys) then refreshed pub c c' else c' = c)
        (cache_get (w_cache w) k) (cache_get (w_cache w') k)" for k
      using w'(2)[rule_format, of k] None by (cases "k = key") simp_all
    ultimately show ?thesis by simp
  next
    case (Some c)
    let ?c1 = "snd (after_change (published pub c) c)"
    from notify_change_step_cached[OF q Some] obtain w1 e1 where
      1: "notify_change_step send rid key w = Some (w1, e1)" "cache_get (w_cache w1) = (cache_get (w_cache w))(key \<mapsto> ?c1)"
      by blast
    from Cons[of w1] obtain w' effs where 2: "drain send rid keys w1 = Some (w', effs)"
      "\<forall>k. rel_option (\<lambda>c c'. if k \<in> set keys then refreshed pub c c' else c' = c) (cache_get (w_cache w1) k) (cache_get (w_cache w') k)"
      by blast
    have "rel_option (\<lambda>c c'. if k \<in> set (key # keys) then refreshed pub c c' else c' = c)
        (cache_get (w_cache w) k) (cache_get (w_cache w') k)" for k
    proof (cases "k = key")
      case True
      then obtain c' where "cache_get (w_cache w') k = Some c'" "if k \<in> set keys then refreshed pub ?c1 c' else c' = ?c1"
        using 2(2)[rule_format, of k] unfolding 1(2) by (auto simp: option_rel_Some1 simp del: if_split_asm)
      moreover have "refreshed pub c c'"
      proof (cases "k \<in> set keys")
        case True
        then show ?thesis using calculation(2) refreshed_trans[OF after_change_refreshed] by simp
      qed (use calculation(2) after_change_refreshed in simp)
      ultimately show ?thesis using True Some by simp
    next
      case False
      then have "cache_get (w_cache w1) k = cache_get (w_cache w) k" unfolding 1(2) by simp
      then show ?thesis using 2(2)[rule_format, of k] False by simp
    qed
    then show ?thesis using 1(1) 2(1) by simp
  qed
qed

lemma in_map_filter: "y \<in> set (List.map_filter f xs) \<longleftrightarrow> (\<exists>x\<in>set xs. f x = Some y)"
  by (induction xs) (auto simp: map_filter_simps split: option.splits)

lemma listen_contexts_set:
  assumes "visit_order c ks"
  shows "set (listen_contexts ks c) = {ConfigListenContext_new (cd_data_id v) (cd_group v) (cd_namespace v) (cd_md5 v) | v.
    v \<in> ran (cache_get c)}"
proof -
  have "cache_for_each (\<lambda>k v acc. acc @ [f v]) ks c xs = xs @ List.map_filter (\<lambda>k. map_option f (inner c k)) ks" for f :: "'a CacheData \<Rightarrow> ConfigListenContext" and xs
    by (induction ks arbitrary: xs) (auto simp: cache_for_each_def map_filter_simps split: option.splits)
  then have "set (listen_contexts ks c) =
      {ConfigListenContext_new (cd_data_id v) (cd_group v) (cd_namespace v) (cd_md5 v) | v k. k \<in> set ks \<and> inner c k = Some v}"
    by (auto simp: listen_contexts_def in_map_filter) blast+
  then show ?thesis using assms by (auto simp: visit_order_def ran_def cache_get_def)
qed

text \<open>The keys of a round are those of the stale entries.\<close>

lemma round_keys:
  assumes l: "reports_changes pub lsend" and v: "visit_order c ks"
  shows "set (list_ensure_round lsend rid ks c) = {entry_key x | x. x \<in> ran (cache_get c) \<and> cd_md5 x \<noteq> the (qr_md5 (published pub x))}"
proof (cases "listen_contexts ks c = []")
  case True
  then have "ran (cache_get c) = {}" using listen_contexts_set[OF v] by auto
  then show ?thesis using True by (simp add: list_ensure_round_def)
next
  case False
  let ?req = "set_config_listen_context (listen_contexts ks c) (ConfigBatchListenRequest_new rid True)"
  let ?ids = "\<lambda>x. (lc_data_id x, lc_group x, lc_tenant x)"
  from l obtain resp cs where r: "lsend ?req = Inr resp" "is_success resp" "changed_configs resp = Some cs"
    "(\<lambda>x. (cc_data_id x, cc_group x, cc_namespace x)) ` set cs = ?ids ` set (filter (stale pub) (config_listen_contexts ?req))"
    unfolding reports_changes_def by blast
  have "set (list_ensure_round lsend rid ks c) = (\<lambda>(d, g, n). group_key d g n) ` (\<lambda>x. (cc_data_id x, cc_group x, cc_namespace x)) ` set cs"
    using r(1-3) False by (simp add: list_ensure_round_def image_image)
  also have "\<dots> = (\<lambda>(d, g, n). group_key d g n) ` ?ids ` set (filter (stale pub) (listen_contexts ks c))"
    unfolding r(4) by (simp add: set_config_listen_context_def)
  also have "\<dots> = {entry_key x | x. x \<in> ran (cache_get c) \<and> cd_md5 x \<noteq> the (qr_md5 (published pub x))}"
  proof -
    let ?f = "\<lambda>x. ConfigListenContext_new (cd_data_id x) (cd_group x) (cd_namespace x) (cd_md5 x)"
    let ?R = "ran (cache_get c)"
    have "set (filter (stale pub) (listen_contexts ks c)) = ?f ` {x \<in> ?R. stale pub (?f x)}"
      unfolding set_filter listen_contexts_set[OF v] by blast
    moreover have "{entry_key x | x. x \<in> ?R \<and> cd_md5 x \<noteq> the (qr_md5 (published pub x))} =
        entry_key ` {x \<in> ?R. cd_md5 x \<noteq> the (qr_md5 (published pub x))}" by blast
    ultimately show ?thesis
      by (simp add: image_image stale_def ConfigListenContext_new_def entry_key_def published_def)
  qed
  finally show ?thesis .
qed


text \<open>A server that does so, for the witness.\<close>

definition demo_pub :: "string \<Rightarrow> string \<Rightarrow> string \<Rightarrow> ConfigQueryResponse" where
  "demo_pub d g n = demo_answer ''new'' ''m1''"

definition demo_query :: query_server where
  "demo_query r = Inr (demo_pub (the (cr_data_id r)) (the (cr_group r)) (the (cr_namespace r)))"

definition demo_listen :: "ConfigBatchListenRequest \<Rightarrow> ConfigChangeBatchListenResponse result" where
  "demo_listen req = Inr \<lparr>result_code = 200, error_code = 0, message = None, response_id = None,
     changed_configs = Some (map (\<lambda>x. \<lparr>cc_data_id = lc_data_id x, cc_group = lc_group x, cc_namespace = lc_tenant x\<rparr>)
       (filter (stale demo_pub) (config_listen_contexts req)))\<rparr>"


end
