(* ===== verification/ConfigRun.thy ===== *)
theory ConfigRun
  imports Startup ConfigSync
begin

text \<open>
  The configuration service as a whole: a worker that \<^verbatim>\<open>ConfigWorker::new\<close> started (src/config/worker.rs),
  and everything that happens to it afterwards: listeners are added and removed while the loop
  \<^verbatim>\<open>notify_change_to_cache_data\<close> is anywhere between its lookup, its query, its filters and its
  notification. Two calls of \<^verbatim>\<open>add_listener\<close> that both find a configuration absent do not overlap in
  these runs; what they do to each other is \<open>concurrent_add_loses_listener\<close>.
\<close>

section \<open>Runs\<close>

text \<open>Where the notification loop is; \<open>NcStopped\<close> is a panic on an answer without a field it expects.\<close>

datatype nc_phase =
    NcIdle
  | NcQuerying string "string \<times> string \<times> string"
  | NcFilled string
  | NcFiltering string RespSnapshot
  | NcStopped

record 'l config_run =
  cr_worker :: "'l config_worker"
  cr_phase :: nc_phase
  cr_told :: "(string \<times> 'l \<times> ConfigResponse) list"

text \<open>\<open>served d g n r\<close>: the server answered r to a query for the configuration.\<close>

type_synonym served = "string \<Rightarrow> string \<Rightarrow> string \<Rightarrow> ConfigQueryResponse \<Rightarrow> bool"

definition honest :: "served \<Rightarrow> query_server \<Rightarrow> bool" where
  "honest served send = (\<forall>rid d g n r. send (ConfigQueryRequest_new rid d g n) = Ok r \<longrightarrow> served d g n r)"

inductive config_step :: "served \<Rightarrow> 'l config_run \<Rightarrow> 'l config_run \<Rightarrow> bool" for served where
  insert: "honest served send \<Longrightarrow> al_absent (cr_worker s) d g \<Longrightarrow>
    al_insert to_vec send rid rid2 d g (cr_worker s) = Some (w', effs) \<Longrightarrow> config_step served s (s\<lparr>cr_worker := w'\<rparr>)"
| register: "al_register d g l (cr_worker s) = (w', effs) \<Longrightarrow> config_step served s (s\<lparr>cr_worker := w'\<rparr>)"
| unregister: "worker_remove_listener d g l (cr_worker s) = (w', effs) \<Longrightarrow> config_step served s (s\<lparr>cr_worker := w'\<rparr>)"
| lookup: "cr_phase s = NcIdle \<Longrightarrow> nc_lookup key (cr_worker s) = Some ids \<Longrightarrow>
    config_step served s (s\<lparr>cr_phase := NcQuerying key ids\<rparr>)"
| query_failed: "cr_phase s = NcQuerying key (d, g, n) \<Longrightarrow> get_config_inner_async send rid d g n = Inl e \<Longrightarrow>
    config_step served s (s\<lparr>cr_phase := NcIdle\<rparr>)"
| fill: "cr_phase s = NcQuerying key (d, g, n) \<Longrightarrow> honest served send \<Longrightarrow> get_config_inner_async send rid d g n = Ok r \<Longrightarrow>
    nc_fill r key (cr_worker s) = Some (should_notify, w', effs) \<Longrightarrow>
    config_step served s (s\<lparr>cr_worker := w', cr_phase := (if should_notify then NcFilled key else NcIdle)\<rparr>)"
| panic: "cr_phase s = NcQuerying key (d, g, n) \<Longrightarrow> get_config_inner_async send rid d g n = Ok r \<Longrightarrow>
    nc_fill r key (cr_worker s) = None \<Longrightarrow> config_step served s (s\<lparr>cr_phase := NcStopped\<rparr>)"
| snapshot: "cr_phase s = NcFilled key \<Longrightarrow>
    config_step served s (s\<lparr>cr_phase := (case nc_snapshot key (cr_worker s) of None \<Rightarrow> NcIdle | Some sn \<Rightarrow> NcFiltering key sn)\<rparr>)"
| notify: "cr_phase s = NcFiltering key sn \<Longrightarrow> nc_dispatch (filtered_response sn) key (cr_worker s) = (w', effs) \<Longrightarrow>
    config_step served s (s\<lparr>cr_worker := w', cr_phase := NcIdle,
      cr_told := cr_told s @ map (\<lambda>(l, x). (key, l, x)) (effect_notes effs)\<rparr>)"

inductive config_reach :: "served \<Rightarrow> 'l config_run \<Rightarrow> 'l config_run \<Rightarrow> bool" for served s0 where
  start: "config_reach served s0 s0"
| step: "config_reach served s0 s \<Longrightarrow> config_step served s s' \<Longrightarrow> config_reach served s0 s'"

section \<open>The invariant of runs\<close>

text \<open>An entry is empty, or an exact copy of one answer for its own configuration.\<close>

definition copied :: "served \<Rightarrow> 'l CacheData \<Rightarrow> bool" where
  "copied served c = (\<exists>r. served (cd_data_id c) (cd_group c) (cd_namespace c) r \<and> complete r \<and>
     cd_content_type c = the (qr_content_type r) \<and> cd_content c = the (qr_content r) \<and> cd_md5 c = the (qr_md5 r) \<and>
     cd_encrypted_data_key c = unwrap_or_empty (qr_encrypted_data_key r))"

definition empty_entry :: "'l CacheData \<Rightarrow> bool" where
  "empty_entry c = (cd_content c = [] \<and> cd_md5 c = [])"

text \<open>The md5 sum a listener was told last for a key.\<close>

definition told_last :: "string \<Rightarrow> 'l \<Rightarrow> (string \<times> 'l \<times> ConfigResponse) list \<Rightarrow> string option" where
  "told_last key l hist =
    (let xs = filter (\<lambda>(k, l', x). k = key \<and> l' = l) hist in if xs = [] then None else Some (cresp_md5 (snd (snd (last xs)))))"

text \<open>The filters of an entry are the worker's, but those of one loaded from a file are none.\<close>

definition entry_ok ::
    "served \<Rightarrow> ConfigFilter list \<Rightarrow> string set \<Rightarrow> (string \<times> 'l \<times> ConfigResponse) list \<Rightarrow> string \<Rightarrow> 'l CacheData \<Rightarrow> bool" where
  "entry_ok served filters loaded hist k c =
    (entry_key c = k \<and> distinct (listeners_of c) \<and> (empty_entry c \<or> copied served c) \<and>
     (if k \<in> loaded then cd_config_filters c = [] else cd_config_filters c = filters) \<and>
     (\<forall>v\<in>set (cd_listeners c). last_md5 v = [] \<or> told_last k (lw_listener v) hist = Some (last_md5 v)))"

text \<open>The notification is one answer, filtered, for the configuration of the key.\<close>

definition answer_of :: "ConfigFilter list \<Rightarrow> string \<Rightarrow> string \<Rightarrow> string \<Rightarrow> ConfigQueryResponse \<Rightarrow> ConfigResponse" where
  "answer_of filters d g n r =
    filtered_response (filters, ConfigResp_new d g n (the (qr_content r)) (unwrap_or_empty (qr_encrypted_data_key r)),
      the (qr_content_type r), the (qr_md5 r))"

definition genuine :: "served \<Rightarrow> ConfigFilter list \<Rightarrow> string set \<Rightarrow> string \<Rightarrow> ConfigResponse \<Rightarrow> bool" where
  "genuine served filters loaded k x =
    (\<exists>d g n r. group_key d g n = k \<and> served d g n r \<and> complete r \<and>
      x = answer_of (if k \<in> loaded then [] else filters) d g n r)"

fun phase_ok :: "served \<Rightarrow> (string \<rightharpoonup> 'l CacheData) \<Rightarrow> nc_phase \<Rightarrow> bool" where
  "phase_ok served m (NcQuerying key (d, g, n)) = (\<exists>c. m key = Some c \<and> cd_data_id c = d \<and> cd_group c = g \<and> cd_namespace c = n)"
| "phase_ok served m (NcFilled key) = (\<exists>c. m key = Some c \<and> copied served c)"
| "phase_ok served m (NcFiltering key sn) = (\<exists>c. m key = Some c \<and> copied served c \<and> resp_snapshot c = sn)"
| "phase_ok served m _ = True"

definition run_ok :: "served \<Rightarrow> ConfigFilter list \<Rightarrow> string set \<Rightarrow> 'l config_run \<Rightarrow> bool" where
  "run_ok served filters loaded s =
    (w_filters (cr_worker s) = filters \<and>
     loaded \<subseteq> dom (cache_get (w_cache (cr_worker s))) \<and>
     (\<forall>k c. cache_get (w_cache (cr_worker s)) k = Some c \<longrightarrow> entry_ok served filters loaded (cr_told s) k c) \<and>
     phase_ok served (cache_get (w_cache (cr_worker s))) (cr_phase s) \<and>
     (\<forall>(k, l, x)\<in>set (cr_told s). genuine served filters loaded k x))"

subsection \<open>Entries\<close>

lemma told_last_append:
  "told_last k l (hist @ xs) =
    (if filter (\<lambda>(k', l', x). k' = k \<and> l' = l) xs = [] then told_last k l hist else told_last k l xs)"
  by (simp add: told_last_def)

lemma entry_add:
  assumes "entry_ok served filters loaded hist k c"
  shows "entry_ok served filters loaded hist k (add_listener l c)"
  using assms add_listener_members[of c l]
  by (auto simp: entry_ok_def add_listener_def entry_key_def empty_entry_def copied_def ListenerWrapper_new_def)

lemma swap_remove_subset:
  assumes "i < length xs"
  shows "set (swap_remove i xs) \<subseteq> set xs"
proof -
  have "set_mset (mset (swap_remove i xs)) \<subseteq> set_mset (add_mset (xs ! i) (mset (swap_remove i xs)))" by auto
  then show ?thesis by (simp only: mset_swap_remove[OF assms] set_mset_mset)
qed

lemma entry_remove:
  assumes "entry_ok served filters loaded hist k c"
  shows "entry_ok served filters loaded hist k (remove_listener l c)"
proof -
  have "distinct (listeners_of (remove_listener l c))"
    using assms remove_listener_members[of c l] by (simp add: entry_ok_def)
  moreover have "set (cd_listeners (remove_listener l c)) \<subseteq> set (cd_listeners c)"
    using swap_remove_subset[of _ "cd_listeners c"] position_Some
    by (auto simp: remove_listener_def index_of_listener_def dest!: position_Some split: option.splits)
  ultimately show ?thesis using assms
    by (auto simp: entry_ok_def remove_listener_def entry_key_def empty_entry_def copied_def split: option.splits)
qed

lemma filled_copied:
  assumes "served (cd_data_id c) (cd_group c) (cd_namespace c) r" "complete r"
  shows "copied served (filled r c)"
  using assms unfolding copied_def
  by (intro exI[of _ r]) (simp add: filled_def unwrap_or_empty_def)

lemma entry_filled:
  assumes "entry_ok served filters loaded hist k c" "served (cd_data_id c) (cd_group c) (cd_namespace c) r" "complete r"
  shows "entry_ok served filters loaded hist k (filled r c)"
  using assms filled_copied[of served c r] by (simp add: entry_ok_def entry_key_def)

lemma entry_other_key:
  assumes "entry_ok served filters loaded hist k c" "k \<noteq> key"
  shows "entry_ok served filters loaded (hist @ map (\<lambda>(l, x). (key, l, x)) notes) k c"
  using assms by (auto simp: entry_ok_def told_last_append filter_empty_conv)

lemma entry_dispatch:
  assumes c: "entry_ok served filters loaded hist k c" and x: "cresp_md5 x = cd_md5 c"
  shows "entry_ok served filters loaded (hist @ map (\<lambda>(l, x). (k, l, x)) (fst (dispatch_notify x c))) k (snd (dispatch_notify x c))"
proof -
  let ?notes = "map (\<lambda>(l, x). (k, l, x)) (fst (dispatch_notify x c))"
  have d: "distinct (listeners_of c)" using c by (simp add: entry_ok_def)
  have "last_md5 v' = [] \<or> told_last k (lw_listener v') (hist @ ?notes) = Some (last_md5 v')"
    if "v' \<in> set (cd_listeners (snd (dispatch_notify x c)))" for v'
  proof -
    from that obtain v where v: "v \<in> set (cd_listeners c)" "v' = (if last_md5 v = cd_md5 c then v else v\<lparr>last_md5 := cd_md5 c\<rparr>)"
      by (auto simp: dispatch_notify_def)
    have f: "filter (\<lambda>(k', l', x). k' = k \<and> l' = lw_listener v) ?notes =
        (if last_md5 v = cd_md5 c then [] else [(k, lw_listener v, x)])"
      using dispatch_one_listener[OF d v(1), of x] by (simp add: filter_map comp_def case_prod_unfold)
    have "told_last k (lw_listener v) ?notes = (if last_md5 v = cd_md5 c then None else Some (cd_md5 c))"
      unfolding told_last_def f by (simp add: x)
    then have "told_last k (lw_listener v) (hist @ ?notes) = (if last_md5 v = cd_md5 c then told_last k (lw_listener v) hist else Some (cd_md5 c))"
      unfolding told_last_append f by simp
    then show ?thesis using v c by (auto simp: entry_ok_def)
  qed
  moreover have "distinct (listeners_of (snd (dispatch_notify x c)))" using d by (simp only: dispatch_listeners)
  ultimately show ?thesis using c
    by (simp add: entry_ok_def dispatch_notify_def entry_key_def empty_entry_def copied_def)
qed

lemma copied_genuine:
  assumes "entry_ok served filters loaded hist k c" "copied served c"
  shows "genuine served filters loaded k (filtered_response (resp_snapshot c))"
proof -
  from assms(2) obtain r where r: "served (cd_data_id c) (cd_group c) (cd_namespace c) r" "complete r"
    "cd_content_type c = the (qr_content_type r)" "cd_content c = the (qr_content r)" "cd_md5 c = the (qr_md5 r)"
    "cd_encrypted_data_key c = unwrap_or_empty (qr_encrypted_data_key r)" unfolding copied_def by blast
  have "resp_snapshot c = (if k \<in> loaded then [] else filters, ConfigResp_new (cd_data_id c) (cd_group c) (cd_namespace c)
      (the (qr_content r)) (unwrap_or_empty (qr_encrypted_data_key r)), the (qr_content_type r), the (qr_md5 r))"
    using assms(1) r(3-6) by (simp add: resp_snapshot_def entry_ok_def)
  then show ?thesis using assms(1) r(1,2) unfolding genuine_def answer_of_def entry_ok_def entry_key_def
    by (intro exI conjI) (blast, assumption+, simp only:)
qed

subsection \<open>Steps\<close>

lemma get_inner_Ok:
  "get_config_inner_async send rid d g n = Ok r \<Longrightarrow> send (ConfigQueryRequest_new rid d g n) = Ok r \<and> is_success r"
  by (cases "send (ConfigQueryRequest_new rid d g n)") (auto simp: get_config_inner_async_def Let_def split: if_splits)

lemma fill_data_parts:
  assumes "fill_data r c = Some (b, c')" "is_success r"
  shows "complete r \<and> c' = filled r c \<and> b = (\<not> cd_initializing c)"
proof -
  have "complete r" using assms by (auto simp: fill_data_def complete_def bind_eq_Some_conv)
  then show ?thesis using fill_data_complete[of r c] assms(1) by auto
qed

lemma al_insert_cache:
  assumes "al_insert to_vec send rid rid2 d g w = Some (w', effs)"
  shows "\<exists>c. w' = w\<lparr>w_cache := cache_put to_vec (group_key d g (w_namespace w)) c (w_cache w)\<rparr> \<and>
    (c = CacheData_new (w_filters w) d g (w_namespace w) \<or>
     (\<exists>r. send (ConfigQueryRequest_new rid d g (w_namespace w)) = Ok r \<and> complete r \<and>
       c = filled r (CacheData_new (w_filters w) d g (w_namespace w))))"
proof -
  let ?c0 = "CacheData_new (w_filters w) d g (w_namespace w) :: 'a CacheData"
  have c0: "cd_data_id ?c0 = d" "cd_group ?c0 = g" "cd_namespace ?c0 = w_namespace w" "cd_initializing ?c0"
    by (simp_all add: CacheData_new_def)
  show ?thesis
  proof (cases "get_config_inner_async send rid d g (w_namespace w)")
    case (Inl e)
    then show ?thesis using assms c0 by (auto simp: al_insert_def case_prod_unfold)
  next
    case (Inr r)
    then obtain b c where "fill_data r ?c0 = Some (b, c)"
      using assms c0 by (auto simp: al_insert_def fill_data_and_notify_def bind_eq_Some_conv split: option.splits)
    then have "complete r" "fill_data r ?c0 = Some (False, filled r ?c0)" using fill_data_parts get_inner_Ok[OF Inr] c0(4) by auto
    then show ?thesis using assms Inr c0 get_inner_Ok[OF Inr]
      by (auto simp: al_insert_def case_prod_unfold fill_data_and_notify_def)
  qed
qed

lemma phase_keeps:
  assumes "phase_ok served m p" "\<forall>k c. m k = Some c \<longrightarrow> (\<exists>ls. m' k = Some (c\<lparr>cd_listeners := ls\<rparr>))"
  shows "phase_ok served m' p"
proof -
  have *: "copied served (c\<lparr>cd_listeners := ls\<rparr>) = copied served c" "resp_snapshot (c\<lparr>cd_listeners := ls\<rparr>) = resp_snapshot c" for c ls
    by (simp_all add: copied_def resp_snapshot_def)
  show ?thesis
  proof (cases p)
    case (NcQuerying key ids)
    then obtain c where "m key = Some c" "ids = (cd_data_id c, cd_group c, cd_namespace c)" using assms(1) by (cases ids) auto
    then show ?thesis using NcQuerying assms(2) by (metis CacheData.select_convs(1,2,3) CacheData.surjective CacheData.update_convs(10) phase_ok.simps(1))
  next
    case (NcFilled key)
    then show ?thesis using assms * by (metis phase_ok.simps(2))
  next
    case (NcFiltering key sn)
    then show ?thesis using assms * by (metis phase_ok.simps(3))
  qed simp_all
qed

lemma only_listeners:
  "\<exists>ls. add_listener l c = c\<lparr>cd_listeners := ls\<rparr>" "\<exists>ls. remove_listener l c = c\<lparr>cd_listeners := ls\<rparr>"
proof -
  have "c = c\<lparr>cd_listeners := cd_listeners c\<rparr>" by simp
  then show "\<exists>ls. add_listener l c = c\<lparr>cd_listeners := ls\<rparr>" "\<exists>ls. remove_listener l c = c\<lparr>cd_listeners := ls\<rparr>"
    unfolding add_listener_def remove_listener_def by (auto split: option.split intro: exI[of _ "cd_listeners c"])
qed

text \<open>Changing the listeners of one entry, and the rest of the invariant.\<close>

lemma run_ok_listeners:
  assumes s: "run_ok served filters loaded s" and m: "cache_get (w_cache w') = (cache_get (w_cache (cr_worker s)))(k := map_option f (cache_get (w_cache (cr_worker s)) k))"
    and w: "w_filters w' = w_filters (cr_worker s)"
    and f: "\<And>c. entry_ok served filters loaded (cr_told s) k c \<Longrightarrow> entry_ok served filters loaded (cr_told s) k (f c)"
      "\<And>c. \<exists>ls. f c = c\<lparr>cd_listeners := ls\<rparr>"
  shows "run_ok served filters loaded (s\<lparr>cr_worker := w'\<rparr>)"
proof -
  let ?m = "cache_get (w_cache (cr_worker s))"
  have keep: "\<exists>ls. cache_get (w_cache w') k' = Some (c\<lparr>cd_listeners := ls\<rparr>)" if "?m k' = Some c" for k' c
  proof (cases "k' = k")
    case True
    then show ?thesis using f(2)[of c] that m by auto
  next
    case False
    then show ?thesis using that m by (intro exI[of _ "cd_listeners c"]) simp
  qed
  have "entry_ok served filters loaded (cr_told s) k' c" if "cache_get (w_cache w') k' = Some c" for k' c
    using that m s f(1) by (cases "k' = k") (auto simp: run_ok_def)
  moreover have "dom ?m \<subseteq> dom (cache_get (w_cache w'))" using keep by blast
  ultimately show ?thesis using s w phase_keeps keep unfolding run_ok_def by simp blast
qed

lemma run_insert:
  assumes s: "run_ok served filters loaded s" and h: "honest served send" and a: "al_absent (cr_worker s) d g"
    and i: "al_insert to_vec send rid rid2 d g (cr_worker s) = Some (w', effs)"
  shows "run_ok served filters loaded (s\<lparr>cr_worker := w'\<rparr>)"
proof -
  let ?w = "cr_worker s" let ?m = "cache_get (w_cache ?w)" let ?k = "group_key d g (w_namespace ?w)"
  let ?c0 = "CacheData_new (w_filters ?w) d g (w_namespace ?w) :: 'a CacheData"
  from al_insert_cache[OF i] obtain c where w': "w' = ?w\<lparr>w_cache := cache_put to_vec ?k c (w_cache ?w)\<rparr>"
    and c: "c = ?c0 \<or> (\<exists>r. send (ConfigQueryRequest_new rid d g (w_namespace ?w)) = Ok r \<and> complete r \<and> c = filled r ?c0)"
    by blast
  have m: "cache_get (w_cache w') = ?m(?k \<mapsto> c)" unfolding w' by (simp add: cache.lookup_put)
  have new: "?m ?k = None" using a by (simp add: al_absent_def cache_contains_get)
  then have "?k \<notin> loaded" using s by (auto simp: run_ok_def)
  then have "entry_ok served filters loaded (cr_told s) ?k ?c0"
    using s by (simp add: entry_ok_def entry_key_def CacheData_new_def empty_entry_def run_ok_def)
  moreover have "entry_ok served filters loaded (cr_told s) ?k (filled r ?c0)"
    if "send (ConfigQueryRequest_new rid d g (w_namespace ?w)) = Ok r" "complete r" for r
    using entry_filled[OF calculation _ that(2)] h that(1) by (simp add: honest_def CacheData_new_def)
  ultimately have "entry_ok served filters loaded (cr_told s) ?k c" using c by blast
  then have "entry_ok served filters loaded (cr_told s) k' c'" if "cache_get (w_cache w') k' = Some c'" for k' c'
    using that m s by (cases "k' = ?k") (auto simp: run_ok_def)
  moreover have "phase_ok served (cache_get (w_cache w')) (cr_phase s)"
  proof (rule phase_keeps)
    show "phase_ok served ?m (cr_phase s)" using s by (simp add: run_ok_def)
    show "\<forall>k c. ?m k = Some c \<longrightarrow> (\<exists>ls. cache_get (w_cache w') k = Some (c\<lparr>cd_listeners := ls\<rparr>))"
    proof (intro allI impI)
      fix k c1 assume "?m k = Some c1"
      then show "\<exists>ls. cache_get (w_cache w') k = Some (c1\<lparr>cd_listeners := ls\<rparr>)" using new m by (intro exI[of _ "cd_listeners c1"]) auto
    qed
  qed
  moreover have "loaded \<subseteq> dom (cache_get (w_cache w'))" using s m by (auto simp: run_ok_def)
  moreover have "w_filters w' = filters" using s w' by (simp add: run_ok_def)
  ultimately show ?thesis using s unfolding run_ok_def by simp
qed

lemma run_fill:
  assumes s: "run_ok served filters loaded s" and h: "honest served send" and p: "cr_phase s = NcQuerying key (d, g, n)"
    and q: "get_config_inner_async send rid d g n = Ok r" and f: "nc_fill r key (cr_worker s) = Some (b, w', effs)"
  shows "run_ok served filters loaded (s\<lparr>cr_worker := w', cr_phase := (if b then NcFilled key else NcIdle)\<rparr>)"
proof -
  let ?w = "cr_worker s" let ?m = "cache_get (w_cache ?w)"
  obtain c where c: "?m key = Some c" "cd_data_id c = d" "cd_group c = g" "cd_namespace c = n"
    using s p by (auto simp: run_ok_def)
  obtain b' c' where fd: "fill_data r c = Some (b', c')" using f c(1) by (auto simp: nc_fill_def bind_eq_Some_conv)
  have r: "complete r" "c' = filled r c" "served d g n r"
    using fill_data_parts[OF fd] get_inner_Ok[OF q] h by (auto simp: honest_def)
  have w': "w' = ?w\<lparr>w_cache := cache_upd (\<lambda>_. filled r c) key (w_cache ?w)\<rparr>"
    using f c(1) fd r by (auto simp: nc_fill_def case_prod_unfold)
  have m: "cache_get (w_cache w') = ?m(key \<mapsto> filled r c)"
    unfolding w' by (simp add: cache.lookup_upd c)
  have ids: "served (cd_data_id c) (cd_group c) (cd_namespace c) r" using r(3) c by simp
  have "entry_ok served filters loaded (cr_told s) key (filled r c)"
    using entry_filled[of served filters loaded "cr_told s" key c r] ids r(1) s c(1) by (simp add: run_ok_def)
  then have "entry_ok served filters loaded (cr_told s) k' c1" if "cache_get (w_cache w') k' = Some c1" for k' c1
    using that m s by (cases "k' = key") (auto simp: run_ok_def)
  moreover have "loaded \<subseteq> dom (cache_get (w_cache w'))" using s m by (auto simp: run_ok_def)
  ultimately show ?thesis using s filled_copied[of served c r, OF ids r(1)] m w' by (simp add: run_ok_def)
qed

lemma run_notify:
  assumes s: "run_ok served filters loaded s" and p: "cr_phase s = NcFiltering key sn"
    and n: "nc_dispatch (filtered_response sn) key (cr_worker s) = (w', effs)"
  shows "run_ok served filters loaded (s\<lparr>cr_worker := w', cr_phase := NcIdle,
    cr_told := cr_told s @ map (\<lambda>(l, x). (key, l, x)) (effect_notes effs)\<rparr>)"
proof -
  let ?w = "cr_worker s" let ?m = "cache_get (w_cache ?w)"
  obtain c where c: "?m key = Some c" "copied served c" "resp_snapshot c = sn" using s p by (auto simp: run_ok_def)
  let ?x = "filtered_response sn" let ?d = "dispatch_notify ?x c"
  have w': "w' = ?w\<lparr>w_cache := (w_cache ?w)\<lparr>inner := (inner (w_cache ?w))(key \<mapsto> snd ?d)\<rparr>\<rparr>" and e: "effect_notes effs = fst ?d"
    using n c(1) by (auto simp: nc_dispatch_def case_prod_unfold)
  have m: "cache_get (w_cache w') = ?m(key \<mapsto> snd ?d)" unfolding w' by (simp add: cache_get_def fun_eq_iff)
  have ok: "entry_ok served filters loaded (cr_told s) key c" using s c(1) by (simp add: run_ok_def)
  have x: "cresp_md5 ?x = cd_md5 c" using filtered_response_md5[of c] c(3) by simp
  let ?hist = "cr_told s @ map (\<lambda>(l, x). (key, l, x)) (effect_notes effs)"
  have "entry_ok served filters loaded ?hist k' c1" if k': "cache_get (w_cache w') k' = Some c1" for k' c1
  proof (cases "k' = key")
    case True
    then show ?thesis using k' m entry_dispatch[OF ok x] by (simp add: e)
  next
    case False
    then have "entry_ok served filters loaded (cr_told s) k' c1" using k' m s by (simp add: run_ok_def)
    then show ?thesis using False by (rule entry_other_key)
  qed
  moreover have "\<forall>(k, l, y)\<in>set ?hist. genuine served filters loaded k y"
    using s copied_genuine[OF ok c(2)] c(3) unfolding e by (auto simp: run_ok_def dispatch_notify_def)
  moreover have "loaded \<subseteq> dom (cache_get (w_cache w'))" using s m by (auto simp: run_ok_def)
  ultimately show ?thesis using s w' by (simp add: run_ok_def)
qed

lemma config_step_ok [wf_preserve]:
  assumes "config_step served s s'" "run_ok served filters loaded s"
  shows "run_ok served filters loaded s' \<and> w_namespace (cr_worker s') = w_namespace (cr_worker s)"
  using assms(1)
proof (cases rule: config_step.cases)
  case (insert send d g to_vec rid rid2 w' effs)
  then show ?thesis using run_insert[OF assms(2) insert(2,3,4)] al_insert_cache[OF insert(4)] by auto
next
  case (register d g l w' effs)
  have w': "w' = (cr_worker s)\<lparr>w_cache := cache_upd (add_listener l) (group_key d g (w_namespace (cr_worker s))) (w_cache (cr_worker s))\<rparr>"
    using register(2) by (auto simp: al_register_def case_prod_unfold)
  have "run_ok served filters loaded (s\<lparr>cr_worker := w'\<rparr>)"
    by (rule run_ok_listeners[OF assms(2) _ _ entry_add only_listeners(1)]) (simp_all add: w' cache.lookup_upd)
  then show ?thesis using register w' by simp
next
  case (unregister d g l w' effs)
  have w': "w' = (cr_worker s)\<lparr>w_cache := cache_upd (remove_listener l) (group_key d g (w_namespace (cr_worker s))) (w_cache (cr_worker s))\<rparr>"
    using unregister(2) by (auto simp: worker_remove_listener_def case_prod_unfold)
  have "run_ok served filters loaded (s\<lparr>cr_worker := w'\<rparr>)"
    by (rule run_ok_listeners[OF assms(2) _ _ entry_remove only_listeners(2)]) (simp_all add: w' cache.lookup_upd)
  then show ?thesis using unregister w' by simp
next
  case (lookup key ids)
  then show ?thesis using assms(2) by (auto simp: run_ok_def nc_lookup_def)
next
  case (fill key d g n send rid r b w' effs)
  then show ?thesis using run_fill[OF assms(2) fill(3,2,4,5)]
    by (auto simp: nc_fill_def case_prod_unfold bind_eq_Some_conv split: option.splits)
next
  case (snapshot key)
  then show ?thesis using assms(2) by (auto simp: run_ok_def nc_snapshot_def)
next
  case (notify key sn w' effs)
  then show ?thesis using run_notify[OF assms(2) notify(2,3)] by (auto simp: nc_dispatch_def case_prod_unfold split: option.splits)
qed (use assms(2) in \<open>auto simp: run_ok_def\<close>)

lemma config_reach_ok:
  assumes "config_reach served s0 s" "run_ok served filters loaded s0"
  shows "run_ok served filters loaded s \<and> w_namespace (cr_worker s) = w_namespace (cr_worker s0)"
  using assms(1)
proof (induction rule: config_reach.induct)
  case (step s s')
  then show ?case using config_step_ok[OF step.hyps(2)] by metis
qed (simp add: assms(2))

section \<open>Started workers\<close>

lemma config_new_parts:
  assumes "ConfigWorker_new out load auth change p filters = Some (Ok (w, client))"
  shows "w = \<lparr>w_namespace = get_namespace (out_props out) p,
    w_cache = client_cache out load (get_config_load_cache_at_start (out_props out) p) p
      (builder_config (get_namespace_default_if_empty (out_props out) p)), w_filters = filters\<rparr>"
  using assms by (auto simp: ConfigWorker_new_def Let_def and_then_Ok split: option.splits)

text \<open>
  The files a worker may find: what serialization keeps of entries of earlier runs, under their keys.
\<close>

definition sound_entries :: "served \<Rightarrow> (string \<rightharpoonup> 'l CacheData) \<Rightarrow> bool" where
  "sound_entries served m = (\<forall>k c. m k = Some c \<longrightarrow>
     entry_key c = k \<and> cd_listeners c = [] \<and> cd_config_filters c = [] \<and> (empty_entry c \<or> copied served c))"

definition fresh_run :: "'l config_worker \<Rightarrow> 'l config_run" where
  "fresh_run w = \<lparr>cr_worker = w, cr_phase = NcIdle, cr_told = []\<rparr>"

lemma fresh_run_ok:
  assumes "ConfigWorker_new out load auth change p filters = Some (Ok (w, client))"
    "\<And>dir. get_config_load_cache_at_start (out_props out) p \<Longrightarrow> sound_entries served (load dir)"
  shows "run_ok served filters (dom (cache_get (w_cache w))) (fresh_run w)"
proof -
  have "entry_ok served filters (dom (cache_get (w_cache w))) [] k c" if "cache_get (w_cache w) k = Some c" for k c
    using that assms(2) config_new_parts[OF assms(1)]
    by (auto simp: client_cache_lookup sound_entries_def entry_ok_def split: option.splits if_splits)
  then show ?thesis using config_new_parts[OF assms(1)] by (simp add: run_ok_def fresh_run_def)
qed

lemma get_config_genuine:
  assumes "run_ok served filters loaded s" "honest served send" "get_config send rid (cr_worker s) d g = Some (Ok x)"
  shows "genuine served filters loaded (group_key d g (w_namespace (cr_worker s))) x \<or>
    genuine served filters {} (group_key d g (w_namespace (cr_worker s))) x"
proof -
  let ?w = "cr_worker s" let ?k = "group_key d g (w_namespace ?w)"
  show ?thesis
  proof (cases "\<exists>c. cache_get (w_cache ?w) ?k = Some c \<and> cd_content c \<noteq> [] \<and> cd_md5 c \<noteq> []")
    case True
    then obtain c where c: "cache_get (w_cache ?w) ?k = Some c" "cd_content c \<noteq> []" "cd_md5 c \<noteq> []" by blast
    then have e: "entry_ok served filters loaded (cr_told s) ?k c" using assms(1) by (simp add: run_ok_def)
    then have "copied served c" using c(2) by (simp add: entry_ok_def empty_entry_def)
    moreover have "x = filtered_response (resp_snapshot c)" using assms(3) c by (simp add: get_config_def)
    ultimately show ?thesis using copied_genuine[OF e] by simp
  next
    case False
    then have "Option.bind (cache_get (w_cache ?w) ?k) (\<lambda>r. if cd_content r \<noteq> [] \<and> cd_md5 r \<noteq> [] then Some (resp_snapshot r) else None) = None"
      by (cases "cache_get (w_cache ?w) ?k") auto
    then obtain r where r: "get_config_inner_async send rid d g (w_namespace ?w) = Ok r"
      and x: "\<exists>content t m. qr_content r = Some content \<and> qr_content_type r = Some t \<and> qr_md5 r = Some m \<and>
        (let y = apply_resp_filters (w_filters ?w) (ConfigResp_new d g (w_namespace ?w) content (unwrap_or_empty (qr_encrypted_data_key r)))
         in x = ConfigResponse_new (rp_data_id y) (rp_group y) (rp_namespace y) (rp_content y) t m)"
      using assms(3) by (auto simp: get_config_def Let_def bind_eq_Some_conv unwrap_or_empty_def split: sum.splits)
    then have "served d g (w_namespace ?w) r \<and> complete r"
      using get_inner_Ok[OF r] assms(2) by (auto simp: honest_def complete_def)
    moreover have "x = answer_of filters d g (w_namespace ?w) r"
      using x assms(1) by (auto simp: answer_of_def run_ok_def Let_def)
    ultimately have "genuine served filters {} ?k x" unfolding genuine_def by (intro exI[of _ d] exI[of _ g] exI[of _ "w_namespace ?w"] exI[of _ r]) simp
    then show ?thesis ..
  qed
qed


definition demo_entry :: "nat CacheData" where
  "demo_entry = (CacheData_persisted demo_data)\<lparr>cd_namespace := []\<rparr>"

definition demo_served :: served where
  "demo_served d g n r = (r = demo_answer ''old'' ''m0'' \<or> r = demo_answer ''new'' ''m1'')"

definition demo_load_props :: ClientProps where
  "demo_load_props = demo_props\<lparr>cp_config_load_cache_at_start := True\<rparr>"

lemma demo_entry_sound: "sound_entries demo_served [group_key ''d'' ''g'' [] \<mapsto> demo_entry]"
proof -
  have "copied demo_served demo_entry" unfolding copied_def
    by (rule exI[of _ "demo_answer ''old'' ''m0''"], intro conjI)
      (simp_all add: demo_served_def demo_complete, simp_all add: demo_entry_def CacheData_persisted_def demo_data_def demo_answer_def unwrap_or_empty_def)
  then show ?thesis
    by (auto simp: sound_entries_def entry_key_def demo_entry_def CacheData_persisted_def demo_data_def split: if_splits)
qed

lemma same_provider:
  "get_endpoint E (p\<lparr>cp_config_load_cache_at_start := b\<rparr>) = get_endpoint E p"
  "get_namespace_default_if_empty E (p\<lparr>cp_config_load_cache_at_start := b\<rparr>) = get_namespace_default_if_empty E p"
  "get_server_addr E (p\<lparr>cp_config_load_cache_at_start := b\<rparr>) = get_server_addr E p"
  by (simp_all add: get_endpoint_def get_namespace_default_if_empty_def get_namespace_def get_server_addr_def split: option.split)

lemma demo_config_started:
  "\<exists>w client. ConfigWorker_new demo_outside (\<lambda>_. [group_key ''d'' ''g'' [] \<mapsto> demo_entry]) (\<lambda>_. Map.empty) (\<lambda>_. None) demo_load_props [] =
    Some (Ok (w, client)) \<and> w_namespace w = [] \<and> cache_get (w_cache w) = [group_key ''d'' ''g'' [] \<mapsto> demo_entry]"
proof -
  have p: "client_provider demo_outside demo_load_props = client_provider demo_outside demo_props"
    by (simp add: client_provider_def demo_load_props_def same_provider)
  obtain w client where w: "ConfigWorker_new demo_outside (\<lambda>_. [group_key ''d'' ''g'' [] \<mapsto> demo_entry]) (\<lambda>_. Map.empty) (\<lambda>_. None)
      demo_load_props [] = Some (Ok (w, client))"
    by (simp add: ConfigWorker_new_def p demo_provider Let_def grpc_client_build_def) (simp add: demo_outside_def)
  moreover have "get_config_load_cache_at_start (out_props demo_outside) demo_load_props"
    "get_namespace (out_props demo_outside) demo_load_props = []" "is_disk_store (get_cache_kind (out_props demo_outside) demo_load_props)"
    by (simp_all add: demo_outside_def demo_load_props_def demo_props_def client_props_new_def get_config_load_cache_at_start_def
        get_value_bool_def get_namespace_def get_value_def get_cache_kind_def get_value_option_def is_disk_store_def)
  ultimately show ?thesis using config_new_parts[OF w] by (simp add: client_cache_lookup builder_store_def Let_def)
qed


end
