(* ===== verification/NamingSpec.thy ===== *)
theory NamingSpec
  imports NamingProps
begin

text \<open>
  What the naming service promises its user, as an abstract state: the requests it will send again
  after a reconnect, who listens to which service, and which services are polled. Each API call of
  src/naming/mod.rs changes it as the specification below says, whatever the server answers; the
  redo tasks with their ids and flags, the polling loops with their counters and the order of the
  listeners are details of the implementation.
\<close>

section \<open>The abstract state\<close>

record 'l naming_spec =
  sp_intents :: "string \<rightharpoonup> automatic_request"
  sp_listening :: "string \<Rightarrow> 'l set"
  sp_polled :: "string set"

text \<open>The requests of the redo tasks, without their ids and flags.\<close>

definition requests :: "redo \<Rightarrow> string \<rightharpoonup> automatic_request" where
  "requests d = (\<lambda>k. map_option rt_request (redo_map d k))"

definition naming_abs :: "'l naming_service \<Rightarrow> 'l naming_spec" where
  "naming_abs s = \<lparr>sp_intents = requests (nam_redo s),
     sp_listening = (\<lambda>k. set (observers_of k (nam_observers s))), sp_polled = dom (up_map (nam_updater s))\<rparr>"

section \<open>The specification\<close>

definition intend :: "automatic_request \<Rightarrow> 'l naming_spec \<Rightarrow> 'l naming_spec" where
  "intend r a = a\<lparr>sp_intents := (sp_intents a)(auto_name r \<mapsto> r)\<rparr>"

definition give_up :: "automatic_request \<Rightarrow> 'l naming_spec \<Rightarrow> 'l naming_spec" where
  "give_up r a = a\<lparr>sp_intents := (sp_intents a)(auto_name r := None)\<rparr>"

definition listen :: "string \<Rightarrow> 'l \<Rightarrow> 'l naming_spec \<Rightarrow> 'l naming_spec" where
  "listen key l a = a\<lparr>sp_listening := (sp_listening a)(key := insert l (sp_listening a key))\<rparr>"

definition ignore :: "string \<Rightarrow> 'l \<Rightarrow> 'l naming_spec \<Rightarrow> 'l naming_spec" where
  "ignore key l a = a\<lparr>sp_listening := (sp_listening a)(key := sp_listening a key - {l})\<rparr>"

definition poll :: "string \<Rightarrow> 'l naming_spec \<Rightarrow> 'l naming_spec" where
  "poll key a = a\<lparr>sp_polled := insert key (sp_polled a)\<rparr>"

definition stop_polling :: "string \<Rightarrow> 'l naming_spec \<Rightarrow> 'l naming_spec" where
  "stop_polling key a = a\<lparr>sp_polled := sp_polled a - {key}\<rparr>"

text \<open>The requests of the calls.\<close>

definition instance_intent :: "string \<Rightarrow> string \<Rightarrow> bool \<Rightarrow> string \<Rightarrow> string option \<Rightarrow> ServiceInstance \<Rightarrow> automatic_request" where
  "instance_intent rid ns b n g h =
    (if ephemeral h
     then AutoInstance (InstanceRequest_new rid (if b then Register else Deregister) h (Some n) (Some ns) (Some (normalize_group_name g)))
     else AutoPersistent (PersistentInstanceRequest_new rid (if b then PersistentRegister else PersistentDeregister) h
       (Some n) (Some ns) (Some (normalize_group_name g))))"

definition batch_intent :: "string \<Rightarrow> string \<Rightarrow> string \<Rightarrow> string option \<Rightarrow> ServiceInstance list \<Rightarrow> automatic_request" where
  "batch_intent rid ns n g hs = AutoBatch (BatchInstanceRequest_new rid hs (Some ns) (Some n) (Some (normalize_group_name g)))"

definition subscribe_intent :: "string \<Rightarrow> string \<Rightarrow> bool \<Rightarrow> string \<Rightarrow> string option \<Rightarrow> string list \<Rightarrow> automatic_request" where
  "subscribe_intent rid ns b n g cls =
    AutoSubscribe (SubscribeServiceRequest_new rid b (join '','' cls) (Some n) (Some ns) (Some (normalize_group_name g)))"

definition service_id :: "string \<Rightarrow> string option \<Rightarrow> string" where
  "service_id n g = get_key_without_clusters n (normalize_group_name g)"

definition poll_id :: "string \<Rightarrow> string option \<Rightarrow> string list \<Rightarrow> string" where
  "poll_id n g cls = update_task_key n (normalize_group_name g) (join '','' cls)"

text \<open>A query with \<^verbatim>\<open>subscribe\<close> that finds nothing cached under its own key subscribes without a listener.\<close>

definition spec_query ::
    "string \<Rightarrow> string \<Rightarrow> (string \<rightharpoonup> ServiceInfo) \<Rightarrow> string \<Rightarrow> string option \<Rightarrow> string list \<Rightarrow> bool \<Rightarrow> 'l naming_spec \<Rightarrow> 'l naming_spec" where
  "spec_query rid ns cached n g cls sub a =
    (if sub \<and> cached (get_key (get_grouped_service_name n (normalize_group_name g)) (join '','' cls)) = None
     then intend (subscribe_intent rid ns True n g cls) (poll (poll_id n g cls) a) else a)"

fun spec_call ::
    "string \<Rightarrow> string \<Rightarrow> (string \<rightharpoonup> ServiceInfo) \<Rightarrow> 'l naming_call \<Rightarrow> naming_outcome \<Rightarrow> 'l naming_spec \<Rightarrow> 'l naming_spec" where
  "spec_call rid ns cached (RegisterInstance n g h) out a = intend (instance_intent rid ns True n g h) a"
| "spec_call rid ns cached (DeregisterInstance n g h) out a =
    (if out = NDone then give_up (instance_intent rid ns False n g h) a else a)"
| "spec_call rid ns cached (BatchRegisterInstance n g hs) out a = intend (batch_intent rid ns n g hs) a"
| "spec_call rid ns cached (GetAllInstances n g c b) out a = spec_query rid ns cached n g c b a"
| "spec_call rid ns cached (SelectInstances n g c b w) out a = spec_query rid ns cached n g c b a"
| "spec_call rid ns cached (SelectOneHealthyInstance n g c b) out a = spec_query rid ns cached n g c b a"
| "spec_call rid ns cached (GetServiceList p z g) out a = a"
| "spec_call rid ns cached (Subscribe n g c l) out a =
    intend (subscribe_intent rid ns True n g c) (listen (service_id n g) l (poll (poll_id n g c) a))"
| "spec_call rid ns cached (Unsubscribe n g c l) out a =
    (let b = ignore (service_id n g) l (stop_polling (poll_id n g c) a)
     in if out = NDone then give_up (subscribe_intent rid ns False n g c) b else b)"

text \<open>A blank name changes nothing.\<close>

definition spec_service_call ::
    "string \<Rightarrow> string \<Rightarrow> (string \<rightharpoonup> ServiceInfo) \<Rightarrow> 'l naming_call \<Rightarrow> naming_outcome \<Rightarrow> 'l naming_spec \<Rightarrow> 'l naming_spec" where
  "spec_service_call rid ns cached c out a =
    (case checked_name c of
       Some n \<Rightarrow> if trim n = [] then a else spec_call rid ns cached c out a
     | None \<Rightarrow> spec_call rid ns cached c out a)"

section \<open>Refinement\<close>

lemma requests_set_active [simp]: "requests (set_active i b d) = requests d"
  unfolding requests_def
  by (simp add: redo_map_set_active option.map_comp comp_def) (intro ext option.map_cong0, simp)

lemma requests_begin [simp]: "requests (snd (register_begin r d)) = (requests d)(auto_name r \<mapsto> r)"
  by (auto simp: requests_def register_begin_def add_task_def task_key_def)

lemma requests_finish [simp]: "requests (snd (register_finish answer oper i d)) = requests d"
  by (simp add: register_finish_def split: sum.split)

lemma requests_remove [simp]: "requests (remove_task k d) = (requests d)(k := None)"
  by (auto simp: requests_def remove_task_def)

lemma requests_register: "requests (snd (execute_by_register_with_redo send r oper d)) = (requests d)(auto_name r \<mapsto> r)"
  by (simp add: execute_by_register_with_redo_def case_prod_unfold)

lemma abs_register:
  "naming_abs (snd (with_redo (execute_by_register_with_redo send r oper) s)) = intend r (naming_abs s)"
  by (simp add: naming_abs_def with_redo_def intend_def case_prod_unfold requests_register)

lemma abs_deregister:
  "naming_abs (snd (with_redo (execute_by_deregister_with_redo send r oper) s)) =
    (if is_ok (fst (with_redo (execute_by_deregister_with_redo send r oper) s)) then give_up r (naming_abs s) else naming_abs s)"
  by (simp add: naming_abs_def with_redo_def give_up_def execute_by_deregister_with_redo_def case_prod_unfold split: sum.split)

lemma schedule_update_dom: "dom (up_map (schedule_update ns n g c u)) = insert (update_task_key n g c) (dom (up_map u))"
  by (auto simp: schedule_update_def Let_def)

lemma stop_update_dom: "dom (up_map (stop_update n g c u)) = dom (up_map u) - {update_task_key n g c}"
  by (auto simp: stop_update_def Let_def split: option.split)

lemma listening_subscribe:
  assumes "\<forall>k. distinct (observers_of k m)"
  shows "(\<lambda>k. set (observers_of k (subscribe key l m))) = (\<lambda>k. set (observers_of k m))(key := insert l (set (observers_of key m)))"
    "(\<lambda>k. set (observers_of k (unsubscribe key l m))) = (\<lambda>k. set (observers_of k m))(key := set (observers_of key m) - {l})"
  using assms subscribe_members[of key m l] unsubscribe_members[of key m l] other_key_untouched[of _ key l m] by (auto simp: fun_eq_iff)

lemma abs_subscribe:
  assumes "\<forall>k. distinct (observers_of k (nam_observers s))"
  shows "naming_abs (fst (snd (subscribe_async v n g cls lo s))) =
    intend (subscribe_intent (env_rid v) (nam_namespace s) True n g cls)
      ((case lo of None \<Rightarrow> \<lambda>a. a | Some l \<Rightarrow> listen (service_id n g) l) (poll (poll_id n g cls) (naming_abs s)))"
proof -
  let ?s' = "fst (snd (subscribe_async v n g cls lo s))"
  let ?r = "subscribe_intent (env_rid v) (nam_namespace s) True n g cls"
  have "requests (nam_redo ?s') = (requests (nam_redo s))(auto_name ?r \<mapsto> ?r)"
    by (cases lo) (simp_all add: subscribe_async_def subscribe_intent_def case_prod_unfold split: option.split sum.split)
  moreover have "nam_observers ?s' = (case lo of None \<Rightarrow> nam_observers s | Some l \<Rightarrow> subscribe (service_id n g) l (nam_observers s))"
    "nam_updater ?s' = schedule_update (nam_namespace s) n (normalize_group_name g) (join '','' cls) (nam_updater s)"
    by (simp_all add: subscribe_async_def service_id_def case_prod_unfold Let_def split: option.split sum.split)
  ultimately show ?thesis using listening_subscribe(1)[OF assms]
    by (cases lo) (simp_all add: naming_abs_def intend_def listen_def poll_def poll_id_def schedule_update_dom)
qed

lemma abs_unsubscribe:
  assumes "\<forall>k. distinct (observers_of k (nam_observers s))" "unsubscribe_async v n g cls (Some l) s = (r, s')"
  shows "naming_abs s' = (let b = ignore (service_id n g) l (stop_polling (poll_id n g cls) (naming_abs s))
     in if is_ok r then give_up (subscribe_intent (env_rid v) (nam_namespace s) False n g cls) b else b)"
  using assms(2) listening_subscribe(2)[OF assms(1), of "service_id n g" l]
  by (cases "env_subscribe v (SubscribeServiceRequest_new (env_rid v) False (join '','' cls) (Some n) (Some (nam_namespace s))
      (Some (normalize_group_name g)))")
    (auto simp: unsubscribe_async_def naming_abs_def ignore_def stop_polling_def give_up_def poll_id_def
      service_id_def subscribe_intent_def is_ok_iff simp flip: stop_update_dom split: sum.splits)

lemma normalize_twice: "normalize_group_name (Some (normalize_group_name g)) = normalize_group_name g"
  by (simp add: normalize_group_name_def DEFAULT_GROUP_def split: option.split)

lemma abs_query:
  assumes "\<forall>k. distinct (observers_of k (nam_observers s))"
  shows "naming_abs (fst (snd (get_all_instances_async v n g cls b s))) =
    spec_query (env_rid v) (nam_namespace s) (cache_get (e_cache (nam_emitter s))) n g cls b (naming_abs s)"
  using abs_subscribe[OF assms, of v n "Some (normalize_group_name g)" cls None]
  by (auto simp: get_all_instances_async_def spec_query_def case_prod_unfold normalize_twice subscribe_intent_def poll_id_def
      split: option.split sum.split)

lemma spec_query_normal: "spec_query rid ns cached n (Some (normalize_group_name g)) = spec_query rid ns cached n g"
  by (intro ext) (simp add: spec_query_def normalize_twice subscribe_intent_def poll_id_def)

lemma query_refines:
  assumes "\<forall>k. distinct (observers_of k (nam_observers s))" "get_all_instances_async v n g cls b s = (r, s', sp)"
  shows "naming_abs s' = spec_query (env_rid v) (nam_namespace s) (cache_get (e_cache (nam_emitter s))) n g cls b (naming_abs s)"
  using abs_query[OF assms(1), of v n g cls b] assms(2) by simp

lemma outcome_done: "outcome (\<lambda>_. NDone) r = NDone \<longleftrightarrow> is_ok r"
  by (cases r) simp_all

lemma abs_nacos_call:
  assumes "\<forall>k. distinct (observers_of k (nam_observers s))" "nacos_naming_call v c s = (out, s', sp)"
  shows "naming_abs s' = spec_call (env_rid v) (nam_namespace s) (cache_get (e_cache (nam_emitter s))) c out (naming_abs s)"
proof (cases c)
  case (RegisterInstance n g h)
  then show ?thesis using assms(2)
    by (auto simp: case_prod_unfold register_instance_def register_ephemeral_instance_async_def
        register_persistent_instance_async_def abs_register instance_intent_def InstanceRequest_register_def PersistentInstanceRequest_register_def Let_def)
next
  case (DeregisterInstance n g h)
  then show ?thesis using assms(2)
    by (auto simp: case_prod_unfold deregister_instance_def deregister_ephemeral_instance_async_def
        deregister_persistent_instance_async_def abs_deregister instance_intent_def InstanceRequest_deregister_def PersistentInstanceRequest_deregister_def Let_def outcome_done)
next
  case (BatchRegisterInstance n g hs)
  then show ?thesis using assms(2)
    by (auto simp: case_prod_unfold batch_register_instance_async_def abs_register batch_intent_def Let_def)
next
  case (Subscribe n g cls l)
  then show ?thesis using assms(2) abs_subscribe[OF assms(1), of v n g cls "Some l"]
    by (auto simp: naming_subscribe_def case_prod_unfold)
next
  case (Unsubscribe n g cls l)
  then show ?thesis using assms(2) abs_unsubscribe[OF assms(1) prod.collapse[symmetric], of v n g cls l]
    by (auto simp: case_prod_unfold outcome_done Let_def)
qed (use assms(2) in \<open>auto simp: select_instances_async_def select_one_healthy_instance_async_def spec_query_normal
    split: prod.splits dest: query_refines[OF assms(1)]\<close>)

text \<open>
  C2: every call of the naming API does to the redo tasks, polling loops and listeners exactly what the
  specification says of what the service will send again, whom it tells and what it polls: a
  registration or subscription is remembered whether or not the server was reached, and forgotten
  only when a deregistration or unsubscription was answered with success.
\<close>

theorem naming_call_refines:
  assumes "naming_ok s" "naming_service_call v c s = (out, s', sp)"
  shows "naming_abs s' = spec_service_call (env_rid v) (nam_namespace s) (cache_get (e_cache (nam_emitter s))) c out (naming_abs s)"
  using assms abs_nacos_call[of s v c out s' sp]
  by (auto simp: naming_service_call_def spec_service_call_def naming_ok_def check_not_blank_def split: option.splits if_splits)

lemma naming_call_refines_witness:
  "\<exists>out s' sp. naming_service_call demo_failing (RegisterInstance ''svc'' None ServiceInstance_default) demo_naming = (out, s', sp) \<and>
    sp_intents (naming_abs s') = [auto_name (instance_intent ''1'' ''ns'' True ''svc'' None ServiceInstance_default) \<mapsto>
      instance_intent ''1'' ''ns'' True ''svc'' None ServiceInstance_default]"
proof -
  let ?c = "RegisterInstance ''svc'' None ServiceInstance_default"
  obtain out s' sp where call: "naming_service_call demo_failing ?c demo_naming = (out, s', sp)" by (metis prod_cases3)
  have trim: "trim ''svc'' \<noteq> []" by code_simp
  have "sp_intents (naming_abs demo_naming) = Map.empty" by (simp add: naming_abs_def demo_naming_def redo_new_def requests_def)
  then show ?thesis using naming_call_refines[OF demo_naming_ok call] call trim
    by (auto simp: spec_service_call_def intend_def demo_failing_def demo_naming_def)
qed

end
