(* ===== verification/DiskStore.thy ===== *)
theory DiskStore
  imports Cache
begin

text \<open>
  The on-disk store of src/common/cache/disk.rs. Each \<^verbatim>\<open>save\<close> is a task of its own that opens and
  truncates a temporary file, writes the value to it, renames it over the target, and retries twice;
  tasks interleave at these system calls and any of them can fail. Files are inodes, so two tasks
  that open one temporary file share its content. Names are the file names inside the cache
  directory: a key is one path component.
\<close>

section \<open>The directory\<close>

record fs =
  names :: "string \<rightharpoonup> nat"
  inodes :: "nat \<Rightarrow> bytes"
  next_ino :: nat

text \<open>
  \<^verbatim>\<open>Path::file_stem\<close> and \<^verbatim>\<open>with_extension("tmp")\<close>: the part after the last dot is replaced, unless
  the only dot is the first character.
\<close>

definition file_stem :: "string \<Rightarrow> string" where
  "file_stem name =
    (let r = dropWhile (\<lambda>c. c \<noteq> CHR ''.'') (rev name)
     in if r = [] \<or> tl r = [] then name else rev (tl r))"

definition tmp_name :: "string \<Rightarrow> string" where
  "tmp_name key = file_stem key @ ''.tmp''"

definition is_tmp :: "string \<Rightarrow> bool" where
  "is_tmp name = suffix ''.tmp'' name"

lemma is_tmp_tmp_name [simp]: "is_tmp (tmp_name k)"
  by (simp add: is_tmp_def tmp_name_def suffix_def)

text \<open>Writing \<open>d\<close> at offset \<open>n\<close> of a file with content \<open>b\<close> (a hole is filled with zero bytes).\<close>

definition write_at :: "nat \<Rightarrow> bytes \<Rightarrow> bytes \<Rightarrow> bytes" where
  "write_at n d b =
    take n (b @ replicate (n - length b) (CHR 0x00)) @ d @ drop (n + length d) b"

definition open_truncate :: "string \<Rightarrow> fs \<Rightarrow> nat \<times> fs" where
  "open_truncate name s =
    (case names s name of
       Some i \<Rightarrow> (i, s\<lparr>inodes := (inodes s)(i := [])\<rparr>)
     | None \<Rightarrow> (next_ino s, s\<lparr>names := (names s)(name \<mapsto> next_ino s),
                           inodes := (inodes s)(next_ino s := []), next_ino := next_ino s + 1\<rparr>))"

text \<open>\<^verbatim>\<open>rename\<close> fails when the source does not exist; onto itself it does nothing.\<close>

definition rename_file :: "string \<Rightarrow> string \<Rightarrow> fs \<Rightarrow> fs option" where
  "rename_file a b s =
    (case names s a of
       None \<Rightarrow> None
     | Some i \<Rightarrow> Some (if a = b then s else s\<lparr>names := (names s)(a := None, b \<mapsto> i)\<rparr>))"

section \<open>Tasks\<close>

definition MAX_RETRIES :: nat where "MAX_RETRIES = 3"
definition RETRY_DELAY_MS :: nat where "RETRY_DELAY_MS = 100"

text \<open>
  Where a save task stands: about to open, with the temporary file open and \<open>n\<close> bytes written,
  or ended.
\<close>

datatype save_pc = Opening | Writing nat nat | Ended

record save_task =
  st_key :: string
  st_value :: bytes
  st_attempt :: nat
  st_pc :: save_pc

text \<open>What the system does with a task's next call: it fails, or it succeeds (a write with \<open>k\<close> bytes).\<close>

datatype io = IoErr | IoOk nat

definition save_start :: "string \<Rightarrow> bytes \<Rightarrow> save_task" where
  "save_start key value = \<lparr>st_key = key, st_value = value, st_attempt = 1, st_pc = Opening\<rparr>"

text \<open>The error branch of the retry loop: give up at the last attempt, else sleep and start over.\<close>

definition save_failed :: "save_task \<Rightarrow> save_task" where
  "save_failed t =
    (if st_attempt t = MAX_RETRIES then t\<lparr>st_pc := Ended\<rparr>
     else t\<lparr>st_attempt := st_attempt t + 1, st_pc := Opening\<rparr>)"

definition retry_delay :: "nat \<Rightarrow> nat" where
  "retry_delay attempt = RETRY_DELAY_MS * attempt"

definition save_step :: "io \<Rightarrow> fs \<times> save_task \<Rightarrow> fs \<times> save_task" where
  "save_step io st =
    (let (s, t) = st in
     case st_pc t of
       Ended \<Rightarrow> (s, t)
     | Opening \<Rightarrow>
         (case io of
            IoErr \<Rightarrow> (s, save_failed t)
          | IoOk _ \<Rightarrow> (let (i, s') = open_truncate (tmp_name (st_key t)) s in (s', t\<lparr>st_pc := Writing i 0\<rparr>)))
     | Writing i n \<Rightarrow>
         (case io of
            IoErr \<Rightarrow> (s, save_failed t)
          | IoOk k \<Rightarrow>
              if n < length (st_value t) then
                (let d = take (max 1 k) (drop n (st_value t))
                 in (s\<lparr>inodes := (inodes s)(i := write_at n d (inodes s i))\<rparr>, t\<lparr>st_pc := Writing i (n + length d)\<rparr>))
              else
                (case rename_file (tmp_name (st_key t)) (st_key t) s of
                   None \<Rightarrow> (s, save_failed t)
                 | Some s' \<Rightarrow> (s', t\<lparr>st_pc := Ended\<rparr>))))"

text \<open>\<^verbatim>\<open>try_remove\<close> and the retry loop of \<^verbatim>\<open>remove\<close>, one outcome per attempt.\<close>

definition try_remove :: "io \<Rightarrow> string \<Rightarrow> fs \<Rightarrow> fs option" where
  "try_remove io name s =
    (if names s name = None then Some s
     else case io of IoErr \<Rightarrow> None | IoOk _ \<Rightarrow> Some (s\<lparr>names := (names s)(name := None)\<rparr>))"

fun store_remove :: "nat \<Rightarrow> io list \<Rightarrow> string \<Rightarrow> fs \<Rightarrow> fs" where
  "store_remove 0 ios key s = s"
| "store_remove (Suc left) ios key s =
    (case try_remove (case ios of [] \<Rightarrow> IoErr | io # _ \<Rightarrow> io) key s of
       Some s' \<Rightarrow> s'
     | None \<Rightarrow> store_remove left (tl ios) key s)"

text \<open>
  \<^verbatim>\<open>load\<close> on an existing directory: temporary files, unreadable files and files that do not
  deserialize are skipped.
\<close>

definition store_load :: "'v from_slice \<Rightarrow> (string \<Rightarrow> bool) \<Rightarrow> fs \<Rightarrow> string \<rightharpoonup> 'v" where
  "store_load from_slice readable s = (\<lambda>name.
    case names s name of
      None \<Rightarrow> None
    | Some i \<Rightarrow>
        if is_tmp name then None
        else if \<not> readable name then None
        else (case from_slice (inodes s i) of Inl _ \<Rightarrow> None | Inr v \<Rightarrow> Some v))"

section \<open>All tasks together\<close>

record disk =
  files :: fs
  tasks :: "save_task list"
  requested :: "(string \<times> bytes) set"

definition active :: "save_task \<Rightarrow> bool" where
  "active t = (st_pc t \<noteq> Ended)"

text \<open>
  One step: a new save is spawned, the next call of one task is made, or a file is removed.
\<close>

inductive disk_step :: "disk \<Rightarrow> disk \<Rightarrow> bool" where
  spawn: "disk_step d (d\<lparr>tasks := save_start k v # tasks d, requested := insert (k, v) (requested d)\<rparr>)"
| run: "j < length (tasks d) \<Longrightarrow> save_step io (files d, tasks d ! j) = (s', t') \<Longrightarrow>
    disk_step d (d\<lparr>files := s', tasks := (tasks d)[j := t']\<rparr>)"
| remove: "try_remove io k (files d) = Some s' \<Longrightarrow> \<not> is_tmp k \<Longrightarrow> disk_step d (d\<lparr>files := s'\<rparr>)"

inductive_simps disk_step_simps: "disk_step d d'"

text \<open>No two active tasks share a temporary file, and no key looks like a temporary file.\<close>

definition exclusive :: "disk \<Rightarrow> bool" where
  "exclusive d =
    (distinct (map (\<lambda>t. tmp_name (st_key t)) (filter active (tasks d))) \<and>
     (\<forall>t\<in>set (tasks d). \<not> is_tmp (st_key t)))"

inductive disk_reach :: "disk \<Rightarrow> disk \<Rightarrow> bool" for d0 where
  start: "disk_reach d0 d0"
| step: "disk_reach d0 d \<Longrightarrow> disk_step d d' \<Longrightarrow> exclusive d' \<Longrightarrow> disk_reach d0 d'"

section \<open>Atomicity\<close>

lemma distinct_filter_nth:
  "distinct (map f (filter P xs)) \<Longrightarrow> i < length xs \<Longrightarrow> j < length xs \<Longrightarrow> i \<noteq> j \<Longrightarrow>
    P (xs ! i) \<Longrightarrow> P (xs ! j) \<Longrightarrow> f (xs ! i) \<noteq> f (xs ! j)"
proof (induction xs arbitrary: i j)
  case (Cons x xs)
  have mem: "f (xs ! k) \<in> f ` set (filter P xs)" if "k < length xs" "P (xs ! k)" for k
    using that by (intro imageI) simp
  show ?case
  proof (cases i)
    case 0
    then obtain j' where "j = Suc j'" using Cons.prems by (cases j) auto
    then show ?thesis using 0 Cons.prems mem[of j'] by (auto simp del: set_filter)
  next
    case (Suc i')
    show ?thesis
    proof (cases j)
      case 0
      then show ?thesis using Suc Cons.prems mem[of i'] by (auto simp del: set_filter)
    next
      case j: (Suc j')
      then show ?thesis using Suc Cons.prems Cons.IH[of i' j'] by (simp split: if_splits)
    qed
  qed
qed simp

definition fs_wf :: "fs \<Rightarrow> bool" where
  "fs_wf s =
    ((\<forall>a b i. names s a = Some i \<longrightarrow> names s b = Some i \<longrightarrow> a = b) \<and>
     (\<forall>name i. names s name = Some i \<longrightarrow> i < next_ino s))"

text \<open>A task that has its temporary file open has written exactly a prefix of its value to it.\<close>

definition task_ok :: "fs \<Rightarrow> save_task \<Rightarrow> bool" where
  "task_ok s t =
    (\<forall>i n. st_pc t = Writing i n \<longrightarrow>
      names s (tmp_name (st_key t)) = Some i \<and> n \<le> length (st_value t) \<and> inodes s i = take n (st_value t))"

definition contents_ok :: "(string \<times> bytes) set \<Rightarrow> fs \<Rightarrow> bool" where
  "contents_ok A s = (\<forall>name i. names s name = Some i \<longrightarrow> \<not> is_tmp name \<longrightarrow> (name, inodes s i) \<in> A)"

definition initial_contents :: "fs \<Rightarrow> (string \<times> bytes) set" where
  "initial_contents s = {(name, b). \<exists>i. names s name = Some i \<and> b = inodes s i}"

definition disk_inv :: "(string \<times> bytes) set \<Rightarrow> disk \<Rightarrow> bool" where
  "disk_inv B d =
    (fs_wf (files d) \<and> contents_ok (B \<union> requested d) (files d) \<and>
     (\<forall>t\<in>set (tasks d). task_ok (files d) t \<and> (st_key t, st_value t) \<in> requested d) \<and> exclusive d)"

lemma names_inj: "fs_wf s \<Longrightarrow> names s a = Some i \<Longrightarrow> names s b = Some i \<Longrightarrow> a = b"
  by (auto simp: fs_wf_def)

lemma write_at_end: "n = length b \<Longrightarrow> write_at n d b = b @ d"
  by (simp add: write_at_def)

text \<open>The effect of one system call on the directory, and on what other tasks and names see.\<close>

lemma open_truncate_facts:
  assumes "fs_wf s" "open_truncate tmp s = (i, s')"
  shows "fs_wf s'" "names s' = (names s)(tmp \<mapsto> i)" "inodes s' = (inodes s)(i := [])"
    "names s x = Some i \<Longrightarrow> x = tmp"
  using assms
  by (auto simp: open_truncate_def fs_wf_def less_Suc_eq split: option.splits if_splits) (blast dest: less_irrefl_nat)+

lemma rename_facts:
  assumes "fs_wf s" "rename_file a b s = Some s'" "a \<noteq> b"
  shows "\<exists>i. names s a = Some i \<and> fs_wf s' \<and> names s' = (names s)(a := None, b \<mapsto> i) \<and> inodes s' = inodes s"
  using assms
  by (auto simp: rename_file_def fs_wf_def split: option.splits if_splits)

definition others_unchanged :: "save_task \<Rightarrow> fs \<Rightarrow> fs \<Rightarrow> bool" where
  "others_unchanged t s s' =
    (\<forall>x i. x \<noteq> tmp_name (st_key t) \<longrightarrow> x \<noteq> st_key t \<longrightarrow> names s x = Some i \<longrightarrow>
      names s' x = Some i \<and> inodes s' i = inodes s i)"

lemma save_step_effect:
  assumes wf: "fs_wf s" and ok: "task_ok s t" and key: "\<not> is_tmp (st_key t)"
    and c: "contents_ok A s" "(st_key t, st_value t) \<in> A"
    and step: "save_step io (s, t) = (s', t')"
  shows "fs_wf s' \<and> task_ok s' t' \<and> contents_ok A s' \<and> others_unchanged t s s' \<and>
    st_key t' = st_key t \<and> st_value t' = st_value t"
proof -
  let ?tmp = "tmp_name (st_key t)"
  have ne: "?tmp \<noteq> st_key t" using key by (metis is_tmp_tmp_name)
  have ended: ?thesis if "s' = s" "t' = t \<or> t' = save_failed t"
    using that wf ok c by (auto simp: task_ok_def save_failed_def others_unchanged_def split: if_splits)
  show ?thesis
  proof (cases "st_pc t")
    case Opening
    show ?thesis
    proof (cases io)
      case IoErr
      then show ?thesis using ended step Opening by (simp add: save_step_def)
    next
      case (IoOk k)
      obtain i s1 where o: "open_truncate ?tmp s = (i, s1)" by (cases "open_truncate ?tmp s")
      note f = open_truncate_facts[OF wf o]
      have "s' = s1" "t' = t\<lparr>st_pc := Writing i 0\<rparr>" using step Opening IoOk o by (simp_all add: save_step_def)
      then show ?thesis using f(1,2,3) f(4) c
        by (fastforce simp: task_ok_def contents_ok_def others_unchanged_def)
    qed
  next
    case (Writing i n)
    then have t: "names s ?tmp = Some i" "n \<le> length (st_value t)" "inodes s i = take n (st_value t)"
      using ok by (auto simp: task_ok_def)
    have other: "x = ?tmp" if "names s x = Some i" for x using names_inj[OF wf that t(1)] .
    consider "io = IoErr" | k where "io = IoOk k" "n < length (st_value t)"
      | k where "io = IoOk k" "n = length (st_value t)"
      using t(2) by (cases io) (auto simp: le_less)
    then show ?thesis
    proof cases
      case 1
      then show ?thesis using ended step Writing by (simp add: save_step_def)
    next
      case 2
      let ?d = "take (max 1 k) (drop n (st_value t))"
      have s': "s' = s\<lparr>inodes := (inodes s)(i := take n (st_value t) @ ?d)\<rparr>" "t' = t\<lparr>st_pc := Writing i (n + length ?d)\<rparr>"
        using step Writing 2 t by (auto simp: save_step_def Let_def write_at_end)
      have "take n (st_value t) @ ?d = take (n + length ?d) (st_value t)"
        by (simp add: take_add min_def)
      moreover have "n + length ?d \<le> length (st_value t)" using 2 by simp
      ultimately have "task_ok s' t'" using s' t(1) by (simp add: task_ok_def del: length_take)
      moreover have "fs_wf s'" using wf s' by (simp add: fs_wf_def)
      moreover have "contents_ok A s'" using s' c by (auto simp: contents_ok_def dest: other)
      moreover have "others_unchanged t s s'" using s' by (auto simp: others_unchanged_def dest: other)
      ultimately show ?thesis using s' by simp
    next
      case 3
      show ?thesis
      proof (cases "rename_file ?tmp (st_key t) s")
        case None
        then show ?thesis using ended step Writing 3 by (simp add: save_step_def)
      next
        case (Some s1)
        then have st: "s' = s1" "t' = t\<lparr>st_pc := Ended\<rparr>" using step Writing 3 by (simp_all add: save_step_def)
        obtain i' where r: "names s ?tmp = Some i'" "fs_wf s1" "names s1 = (names s)(?tmp := None, st_key t \<mapsto> i')"
          "inodes s1 = inodes s" using rename_facts[OF wf Some ne] by blast
        with t have "i' = i" by simp
        then show ?thesis using r st t 3 c
          by (auto simp: task_ok_def contents_ok_def others_unchanged_def)
      qed
    qed
  next
    case Ended
    then show ?thesis using ended step by (simp add: save_step_def)
  qed
qed

lemma task_ok_others:
  assumes "task_ok s u" "others_unchanged t s s'" "tmp_name (st_key u) \<noteq> tmp_name (st_key t)" "\<not> is_tmp (st_key t)"
  shows "task_ok s' u"
proof -
  have "tmp_name (st_key u) \<noteq> st_key t" using assms(4) by (metis is_tmp_tmp_name)
  then show ?thesis using assms(1-3) unfolding task_ok_def others_unchanged_def by metis
qed

lemma task_ok_inactive: "\<not> active t \<Longrightarrow> task_ok s t"
  by (simp add: task_ok_def active_def)

lemma disk_inv_step [wf_preserve]:
  assumes inv: "disk_inv B d" and step: "disk_step d d'" and ex: "exclusive d'"
  shows "disk_inv B d'"
  using step
proof (cases rule: disk_step.cases)
  case (spawn k v)
  then show ?thesis using inv ex
    by (auto simp: disk_inv_def contents_ok_def save_start_def task_ok_def)
next
  case (run j io s' t')
  let ?t = "tasks d ! j"
  have t: "?t \<in> set (tasks d)" using run by simp
  have e: "fs_wf s' \<and> task_ok s' t' \<and> contents_ok (B \<union> requested d) s' \<and> others_unchanged ?t (files d) s' \<and>
      st_key t' = st_key ?t \<and> st_value t' = st_value ?t"
    using inv t run by (intro save_step_effect[of "files d" ?t _ io]) (auto simp: disk_inv_def exclusive_def)
  have "task_ok s' u" if "u \<in> set ((tasks d)[j := t'])" for u
  proof -
    from that obtain l where l: "l < length (tasks d)" "u = (tasks d)[j := t'] ! l"
      by (auto simp: in_set_conv_nth)
    show ?thesis
    proof (cases "l = j \<or> \<not> active u")
      case True
      then show ?thesis using e l run task_ok_inactive by auto
    next
      case False
      then have u: "u = tasks d ! l" "active u" using l by auto
      show ?thesis
      proof (cases "active ?t")
        case True
        then have "tmp_name (st_key u) \<noteq> tmp_name (st_key ?t)"
          using distinct_filter_nth[of "\<lambda>t. tmp_name (st_key t)" active "tasks d" l j] inv u l run False
          by (auto simp: disk_inv_def exclusive_def)
        then show ?thesis using task_ok_others[of "files d" u ?t s'] e inv t u l
          by (auto simp: disk_inv_def exclusive_def)
      next
        case False
        then have "s' = files d" using run by (simp add: save_step_def active_def)
        then show ?thesis using inv u l by (auto simp: disk_inv_def)
      qed
    qed
  qed
  moreover have "(st_key u, st_value u) \<in> requested d" if "u \<in> set ((tasks d)[j := t'])" for u
    using that e inv t set_update_subset_insert[of "tasks d" j t'] by (auto simp: disk_inv_def)
  ultimately show ?thesis using run inv e ex by (auto simp: disk_inv_def)
next
  case (remove io k s')
  have s': "s' = files d \<or> s' = (files d)\<lparr>names := (names (files d))(k := None)\<rparr>"
    using remove by (auto simp: try_remove_def split: if_splits io.splits)
  have tk: "tmp_name x \<noteq> k" for x using remove by (metis is_tmp_tmp_name)
  have "fs_wf s'" using s' inv by (auto simp: disk_inv_def fs_wf_def split: if_splits)
  moreover have "contents_ok (B \<union> requested d) s'" using s' inv by (fastforce simp: disk_inv_def contents_ok_def split: if_splits)
  moreover have "\<forall>t\<in>set (tasks d). task_ok s' t" using s' inv tk by (auto simp: disk_inv_def task_ok_def)
  ultimately show ?thesis using remove inv ex by (auto simp: disk_inv_def)
qed

lemma disk_reach_inv:
  assumes "disk_reach d0 d" "fs_wf (files d0)" "tasks d0 = []"
  shows "disk_inv (initial_contents (files d0)) d"
  using assms(1)
proof induction
  case start
  then show ?case using assms(2,3)
    by (auto simp: disk_inv_def contents_ok_def initial_contents_def exclusive_def)
next
  case (step d d')
  then show ?case using disk_inv_step by blast
qed

text \<open>
  C23: crash safety of the disk store: as long as no two saves use one temporary file at a time,
  whatever the interleaving of the tasks, the failures of their calls and the removals, and at
  whatever point the process dies, loading the directory gives for every key a value that was
  completely saved under that key, or one that was there at the start: never a partial value and
  never another key's.
\<close>

theorem load_never_partial:
  assumes "disk_reach d0 d" "fs_wf (files d0)" "tasks d0 = []"
    "store_load from_slice readable (files d) key = Some v"
  shows "\<exists>b. from_slice b = Inr v \<and> ((key, b) \<in> requested d \<or> (key, b) \<in> initial_contents (files d0))"
proof -
  have "contents_ok (initial_contents (files d0) \<union> requested d) (files d)"
    using disk_reach_inv[OF assms(1-3)] by (simp add: disk_inv_def)
  then show ?thesis using assms(4)
    by (auto simp: store_load_def contents_ok_def split: option.splits sum.splits if_splits)
qed

text \<open>A concrete run for the witness: one save of one byte under the key \<open>k\<close>.\<close>

definition empty_fs :: fs where
  "empty_fs = \<lparr>names = Map.empty, inodes = (\<lambda>_. []), next_ino = 0\<rparr>"

definition empty_disk :: disk where
  "empty_disk = \<lparr>files = empty_fs, tasks = [], requested = {}\<rparr>"

lemma disk_run1:
  "tasks d = [t] \<Longrightarrow> save_step io (files d, t) = (s', t') \<Longrightarrow> disk_step d (d\<lparr>files := s', tasks := [t']\<rparr>)"
  using disk_step.run[of 0 d io s' t'] by simp

lemma exclusive_one: "tasks d = [t] \<Longrightarrow> \<not> is_tmp (st_key t) \<Longrightarrow> exclusive d"
  by (simp add: exclusive_def)

lemma is_tmp_short: "length k < 4 \<Longrightarrow> \<not> is_tmp k"
  by (auto simp: is_tmp_def suffix_def)

lemma load_never_partial_witness:
  "\<exists>d. disk_reach empty_disk d \<and> store_load Inr (\<lambda>_. True) (files d) ''k'' = Some ''x'' \<and>
    (\<exists>b. (Inr b :: string + bytes) = Inr ''x'' \<and> ((''k'', b) \<in> requested d \<or> (''k'', b) \<in> initial_contents empty_fs))"
proof -
  let ?k = "''k''" let ?tmp = "tmp_name ?k"
  let ?t = "\<lambda>pc. \<lparr>st_key = ?k, st_value = ''x'', st_attempt = 1, st_pc = pc\<rparr>"
  let ?d = "\<lambda>s pc. \<lparr>files = s, tasks = [?t pc], requested = {(?k, ''x'')}\<rparr>"
  have ex: "exclusive (?d s pc)" for s pc by (rule exclusive_one[of _ "?t pc"]) (simp_all add: is_tmp_short)
  have tk: "?tmp \<noteq> ?k" by (simp add: tmp_name_def file_stem_def)
  have run: "disk_reach empty_disk (?d s pc) \<Longrightarrow> save_step io (s, ?t pc) = (s', ?t pc') \<Longrightarrow>
      disk_reach empty_disk (?d s' pc')" for s pc io s' pc'
    using disk_reach.step[OF _ disk_run1[of "?d s pc" "?t pc" io s' "?t pc'"] , of empty_disk] ex by simp
  let ?s1 = "\<lparr>names = [?tmp \<mapsto> 0], inodes = (\<lambda>_. [])(0 := []), next_ino = 1\<rparr>"
  let ?s2 = "?s1\<lparr>inodes := (inodes ?s1)(0 := ''x'')\<rparr>"
  let ?s3 = "?s2\<lparr>names := (names ?s2)(?tmp := None, ?k \<mapsto> 0)\<rparr>"
  have "disk_reach empty_disk (?d empty_fs Opening)"
    using disk_reach.step[OF disk_reach.start disk_step.spawn[of empty_disk ?k "''x''"]] ex
    by (simp add: empty_disk_def save_start_def)
  then have "disk_reach empty_disk (?d ?s1 (Writing 0 0))"
    by (rule run[of _ _ "IoOk 0"]) (simp add: save_step_def open_truncate_def empty_fs_def)
  then have "disk_reach empty_disk (?d ?s2 (Writing 0 1))"
    by (rule run[of _ _ "IoOk 0"]) (simp add: save_step_def write_at_def Let_def)
  then have r: "disk_reach empty_disk (?d ?s3 Ended)"
    by (rule run[of _ _ "IoOk 0"]) (simp add: save_step_def rename_file_def tk)
  have l: "store_load Inr (\<lambda>_. True) ?s3 ?k = Some ''x''" by (simp add: store_load_def is_tmp_short)
  have wf: "fs_wf (files empty_disk)" by (simp add: empty_disk_def empty_fs_def fs_wf_def)
  show ?thesis
    using load_never_partial[OF r wf, of "Inr :: bytes \<Rightarrow> string + bytes" "\<lambda>_. True" ?k "''x''"] r l
    by (intro exI[of _ "?d ?s3 Ended"]) (simp add: empty_disk_def)
qed

text \<open>
  the exclusion is needed: \<^verbatim>\<open>with_extension\<close> gives the keys of \<^verbatim>\<open>app.yaml\<close> and \<^verbatim>\<open>app.json\<close> one
  temporary file, and two saves that overlap can leave the value of the one in the file of the other,
  which a later load returns.
\<close>

lemma shared_tmp_swaps_values:
  "\<exists>d. disk_step\<^sup>*\<^sup>* empty_disk d \<and>
    store_load Inr (\<lambda>_. True) (files d) ''app.yaml+_+G+_+N'' = Some ''B'' \<and>
    requested d = {(''app.yaml+_+G+_+N'', ''A''), (''app.json+_+G+_+N'', ''B'')}"
proof -
  let ?a = "''app.yaml+_+G+_+N''" let ?b = "''app.json+_+G+_+N''" let ?tmp = "''app.tmp''"
  have tmp: "tmp_name ?a = ?tmp" "tmp_name ?b = ?tmp" "\<not> is_tmp ?a"
    by (simp_all add: tmp_name_def file_stem_def is_tmp_def suffix_to_prefix)
  let ?ta = "\<lambda>pc. \<lparr>st_key = ?a, st_value = ''A'', st_attempt = 1, st_pc = pc\<rparr>"
  let ?tb = "\<lambda>pc. \<lparr>st_key = ?b, st_value = ''B'', st_attempt = 1, st_pc = pc\<rparr>"
  let ?d = "\<lambda>s pa pb. \<lparr>files = s, tasks = [?tb pb, ?ta pa], requested = {(?b, ''B''), (?a, ''A'')}\<rparr>"
  have ra: "disk_step\<^sup>*\<^sup>* empty_disk (?d s pa pb) \<Longrightarrow> save_step (IoOk 0) (s, ?ta pa) = (s', ?ta pa') \<Longrightarrow>
      disk_step\<^sup>*\<^sup>* empty_disk (?d s' pa' pb)" for s pa pb s' pa'
    using disk_step.run[of 1 "?d s pa pb" "IoOk 0" s' "?ta pa'"] by (auto intro: rtranclp.rtrancl_into_rtrancl)
  have rb: "disk_step\<^sup>*\<^sup>* empty_disk (?d s pa pb) \<Longrightarrow> save_step (IoOk 0) (s, ?tb pb) = (s', ?tb pb') \<Longrightarrow>
      disk_step\<^sup>*\<^sup>* empty_disk (?d s' pa pb')" for s pa pb s' pb'
    using disk_step.run[of 0 "?d s pa pb" "IoOk 0" s' "?tb pb'"] by (auto intro: rtranclp.rtrancl_into_rtrancl)
  have "disk_step\<^sup>*\<^sup>* empty_disk (?d empty_fs Opening Opening)"
    using disk_step.spawn[of empty_disk ?a "''A''"]
      disk_step.spawn[of "empty_disk\<lparr>tasks := [?ta Opening], requested := {(?a, ''A'')}\<rparr>" ?b "''B''"]
    by (auto simp: empty_disk_def save_start_def)
  then have "disk_step\<^sup>*\<^sup>* empty_disk (?d \<lparr>names = [?tmp \<mapsto> 0], inodes = (\<lambda>_. []), next_ino = 1\<rparr> (Writing 0 0) Opening)"
    by (rule ra) (simp add: save_step_def open_truncate_def empty_fs_def tmp fun_eq_iff)
  then have "disk_step\<^sup>*\<^sup>* empty_disk (?d \<lparr>names = [?tmp \<mapsto> 0], inodes = (\<lambda>_. [])(0 := ''A''), next_ino = 1\<rparr> (Writing 0 1) Opening)"
    by (rule ra) (simp add: save_step_def write_at_def Let_def)
  then have "disk_step\<^sup>*\<^sup>* empty_disk (?d \<lparr>names = [?tmp \<mapsto> 0], inodes = (\<lambda>_. []), next_ino = 1\<rparr> (Writing 0 1) (Writing 0 0))"
    by (rule rb) (simp add: save_step_def open_truncate_def tmp fun_eq_iff)
  then have "disk_step\<^sup>*\<^sup>* empty_disk (?d \<lparr>names = [?tmp \<mapsto> 0], inodes = (\<lambda>_. [])(0 := ''B''), next_ino = 1\<rparr> (Writing 0 1) (Writing 0 1))"
    by (rule rb) (simp add: save_step_def write_at_def Let_def)
  then have "disk_step\<^sup>*\<^sup>* empty_disk (?d \<lparr>names = [?tmp \<mapsto> 0](?tmp := None, ?a \<mapsto> 0), inodes = (\<lambda>_. [])(0 := ''B''), next_ino = 1\<rparr> Ended (Writing 0 1))"
    by (rule ra) (simp add: save_step_def rename_file_def tmp)
  then show ?thesis using tmp(3) by (intro exI conjI) (assumption, auto simp: store_load_def)
qed

text \<open>A task on its own, driven by the outcomes of its calls.\<close>

fun run_save :: "io list \<Rightarrow> fs \<times> save_task \<Rightarrow> fs \<times> save_task" where
  "run_save [] st = st"
| "run_save (io # ios) st = run_save ios (save_step io st)"

text \<open>
  Steps a task can still make: the measure behind termination, whatever the outcomes. Each attempt
  is at most one open, one write per byte, and the rename.
\<close>

definition save_budget :: "save_task \<Rightarrow> nat" where
  "save_budget t =
    (MAX_RETRIES - st_attempt t) * (length (st_value t) + 2) +
    (case st_pc t of Opening \<Rightarrow> length (st_value t) + 2
     | Writing i n \<Rightarrow> length (st_value t) - n + 1
     | Ended \<Rightarrow> 0)"

definition save_ok :: "save_task \<Rightarrow> bool" where
  "save_ok t = (st_attempt t \<le> MAX_RETRIES \<and> (\<forall>i n. st_pc t = Writing i n \<longrightarrow> n \<le> length (st_value t)))"

lemma save_failed_budget:
  assumes "save_ok t" "active t"
  shows "save_budget (save_failed t) < save_budget t"
proof (cases "st_attempt t = MAX_RETRIES")
  case False
  then obtain m where m: "MAX_RETRIES - st_attempt t = Suc m"
    using assms(1) by (metis diff_is_0_eq le_antisym not0_implies_Suc save_ok_def)
  then have "MAX_RETRIES - (st_attempt t + 1) = m" by simp
  then show ?thesis using assms(2) False m
    by (auto simp: save_budget_def save_failed_def active_def split: save_pc.splits)
next
  case True
  then show ?thesis using assms(2)
    by (auto simp: save_budget_def save_failed_def active_def split: save_pc.splits)
qed

lemma save_failed_ok: "save_ok t \<Longrightarrow> save_ok (save_failed t)"
  by (auto simp: save_ok_def save_failed_def)

lemma save_step_budget:
  assumes "save_ok t" "active t" "save_step io (s, t) = (s', t')"
  shows "save_budget t' < save_budget t \<and> save_ok t'"
proof -
  note fail = save_failed_budget[OF assms(1,2)] save_failed_ok[OF assms(1)]
  show ?thesis
  proof (cases "st_pc t")
    case Opening
    then show ?thesis using assms fail
      by (auto simp: save_step_def save_budget_def save_ok_def split: io.splits prod.splits)
  next
    case (Writing i n)
    show ?thesis
    proof (cases "io = IoErr \<or> n \<ge> length (st_value t)")
      case True
      then show ?thesis using assms(3) fail Writing assms(1)
        by (auto simp: save_step_def save_budget_def save_ok_def split: io.splits option.splits)
    next
      case False
      then obtain k where io: "io = IoOk k" and n: "n < length (st_value t)" by (cases io) auto
      let ?d = "take (max 1 k) (drop n (st_value t))"
      have "t' = t\<lparr>st_pc := Writing i (n + length ?d)\<rparr>" "0 < length ?d" "n + length ?d \<le> length (st_value t)"
        using assms(3) Writing io n by (auto simp: save_step_def Let_def)
      then obtain r where r: "t' = t\<lparr>st_pc := Writing i (n + r)\<rparr>" "0 < r" "n + r \<le> length (st_value t)"
        by blast
      define X where "X = (MAX_RETRIES - st_attempt t) * (length (st_value t) + 2)"
      have "save_budget t' = X + (length (st_value t) - (n + r) + 1)" "save_budget t = X + (length (st_value t) - n + 1)"
        using r Writing by (simp_all only: save_budget_def X_def) simp_all
      then show ?thesis using assms(1) r by (simp add: save_ok_def)
    qed
  next
    case Ended
    then show ?thesis using assms(2) by (simp add: active_def)
  qed
qed

lemma run_save_ends:
  "save_ok t \<Longrightarrow> save_budget t \<le> length ios \<Longrightarrow> \<not> active (snd (run_save ios (s, t)))"
proof (induction ios arbitrary: s t)
  case Nil
  then show ?case by (auto simp: save_budget_def active_def split: save_pc.splits)
next
  case (Cons io ios)
  obtain s' t' where st: "save_step io (s, t) = (s', t')" by (cases "save_step io (s, t)")
  show ?case
  proof (cases "active t")
    case True
    from save_step_budget[OF Cons.prems(1) this st] show ?thesis using Cons st by simp
  next
    case False
    then have "save_step io' (s, t) = (s, t)" for io' s by (simp add: save_step_def active_def)
    then have "run_save ios' (s, t) = (s, t)" for ios' s by (induction ios') auto
    then show ?thesis using False by simp
  qed
qed

text \<open>
  a save always ends: whatever fails, after at most three attempts of one open, one write per
  byte and one rename each, the task is over.
\<close>

lemma save_terminates:
  assumes "MAX_RETRIES * (length value + 2) \<le> length ios"
  shows "\<not> active (snd (run_save ios (s, save_start key value)))"
  using assms run_save_ends[of "save_start key value" ios s]
  by (simp add: save_ok_def save_start_def save_budget_def MAX_RETRIES_def)

lemma save_terminates_witness:
  "\<not> active (snd (run_save (replicate 9 IoErr) (\<lparr>names = Map.empty, inodes = (\<lambda>_. []), next_ino = 0\<rparr>,
     save_start ''k'' ''x'')))"
  by (rule save_terminates) (simp add: MAX_RETRIES_def)

end
