(* ===== verification/Persistence.thy ===== *)
theory Persistence
  imports DiskStore
begin

text \<open>
  The cache and its disk store together (src/common/cache): the commands an operation of the cache
  spawns, run by the store, and what a client finds that is started again with
  \<^verbatim>\<open>load_cache_at_start\<close>. Here a command is finished before the next operation of the cache; theory
  DiskStore has the runs where saves overlap and fail.
\<close>

section \<open>Running the commands\<close>

fun run_cmd :: "'v to_vec \<Rightarrow> 'v cache \<Rightarrow> io list \<Rightarrow> store_cmd \<Rightarrow> fs \<Rightarrow> fs" where
  "run_cmd to_vec c ios (Save k b) s = fst (run_save ios (s, save_start k b))"
| "run_cmd to_vec c ios (SaveCurrent k) s =
    (case SaveCurrent_task to_vec k c of
       None \<Rightarrow> s
     | Some (k', b) \<Rightarrow> fst (run_save ios (s, save_start k' b)))"
| "run_cmd to_vec c ios (Remove k) s = store_remove MAX_RETRIES ios k s"

datatype 'v cache_op = Insert string 'v | Delete string | Update string "'v \<Rightarrow> 'v"

fun cache_apply :: "'v to_vec \<Rightarrow> 'v cache_op \<Rightarrow> 'v cache \<Rightarrow> 'v cache \<times> store_cmd list" where
  "cache_apply to_vec (Insert k v) c = snd (cache_insert to_vec k v c)"
| "cache_apply to_vec (Delete k) c = snd (cache_remove k c)"
| "cache_apply to_vec (Update k f) c = snd (cache_get_mut (\<lambda>v. ((), f v)) k c)"

text \<open>The abstract store: a map from keys to values.\<close>

fun map_apply :: "'v cache_op \<Rightarrow> (string \<rightharpoonup> 'v) \<Rightarrow> (string \<rightharpoonup> 'v)" where
  "map_apply (Insert k v) m = m(k \<mapsto> v)"
| "map_apply (Delete k) m = m(k := None)"
| "map_apply (Update k f) m = m(k := map_option f (m k))"

fun op_key :: "'v cache_op \<Rightarrow> string" where
  "op_key (Insert k v) = k"
| "op_key (Delete k) = k"
| "op_key (Update k f) = k"

text \<open>One operation with its commands, the system calls of which answer as \<open>ios\<close> says.\<close>

definition stored_apply :: "'v to_vec \<Rightarrow> io list \<Rightarrow> 'v cache_op \<Rightarrow> 'v cache \<times> fs \<Rightarrow> 'v cache \<times> fs" where
  "stored_apply to_vec ios op cs =
    (let (c, s) = cs; (c', cmds) = cache_apply to_vec op c in (c', fold (run_cmd to_vec c' ios) cmds s))"

section \<open>A save without failures\<close>

text \<open>What the directory holds, apart from temporary files.\<close>

definition contents :: "fs \<Rightarrow> string \<rightharpoonup> bytes" where
  "contents s name = (if is_tmp name then None else map_option (inodes s) (names s name))"

lemma contents_load:
  "store_load from_slice readable s name =
    (case contents s name of None \<Rightarrow> None
     | Some b \<Rightarrow> if readable name then (case from_slice b of Inl _ \<Rightarrow> None | Inr v \<Rightarrow> Some v) else None)"
  by (simp add: store_load_def contents_def split: option.splits)

definition successful :: "io list \<Rightarrow> bool" where
  "successful ios = (IoErr \<notin> set ios)"

lemma run_save_ended: "st_pc t = Ended \<Longrightarrow> run_save ios (s, t) = (s, t)"
  by (induction ios) (simp_all add: save_step_def)

text \<open>The writes of one attempt, and the rename.\<close>

lemma writing_succeeds:
  assumes "successful ios" "length v - n < length ios" "n \<le> length v" "t = \<lparr>st_key = k, st_value = v, st_attempt = a, st_pc = Writing i n\<rparr>"
    "names s (tmp_name k) = Some i" "inodes s i = take n v" "\<not> is_tmp k"
  shows "\<exists>t'. run_save ios (s, t) =
    (s\<lparr>inodes := (inodes s)(i := v), names := (names s)(tmp_name k := None, k \<mapsto> i)\<rparr>, t') \<and> st_pc t' = Ended"
  using assms
proof (induction ios arbitrary: s t n)
  case (Cons io ios)
  obtain m where io: "io = IoOk m" using Cons.prems(1) by (cases io) (auto simp: successful_def)
  have ios: "successful ios" using Cons.prems(1) by (simp add: successful_def)
  have ne: "tmp_name k \<noteq> k" using Cons.prems(7) by (metis is_tmp_tmp_name)
  show ?case
  proof (cases "n < length v")
    case True
    let ?d = "take (max 1 m) (drop n v)"
    let ?s = "s\<lparr>inodes := (inodes s)(i := take (n + length ?d) v)\<rparr>"
    have d: "0 < length ?d" "n + length ?d \<le> length v" using True by auto
    have "take n v @ ?d = take (n + length ?d) v"
      by (simp add: take_add) (simp add: min_def)
    then have "write_at n ?d (inodes s i) = take (n + length ?d) v"
      using write_at_end[of n "take n v"] Cons.prems(3,6) by simp
    then have step: "save_step io (s, t) = (?s, t\<lparr>st_pc := Writing i (n + length ?d)\<rparr>)"
      using True Cons.prems(4) io by (simp add: save_step_def)
    have "\<exists>t'. run_save ios (?s, t\<lparr>st_pc := Writing i (n + length ?d)\<rparr>) =
        (?s\<lparr>inodes := (inodes ?s)(i := v), names := (names ?s)(tmp_name k := None, k \<mapsto> i)\<rparr>, t') \<and> st_pc t' = Ended"
      by (rule Cons.IH[OF ios, of "n + length ?d"]) (use Cons.prems d in auto)
    moreover have "?s\<lparr>inodes := (inodes ?s)(i := v), names := (names ?s)(tmp_name k := None, k \<mapsto> i)\<rparr> =
        s\<lparr>inodes := (inodes s)(i := v), names := (names s)(tmp_name k := None, k \<mapsto> i)\<rparr>"
      by simp
    ultimately show ?thesis unfolding run_save.simps step by (simp only:)
  next
    case False
    then have "n = length v" using Cons.prems(3) by simp
    then have step: "save_step io (s, t) = (s\<lparr>names := (names s)(tmp_name k := None, k \<mapsto> i)\<rparr>, t\<lparr>st_pc := Ended\<rparr>)"
      using Cons.prems(4,5) io ne by (simp add: save_step_def rename_file_def)
    have "(inodes s)(i := v) = inodes s" using Cons.prems(6) \<open>n = length v\<close> by (simp add: fun_eq_iff)
    then have eq: "s\<lparr>inodes := (inodes s)(i := v)\<rparr> = s" by (cases s) (simp only: fs.simps)
    show ?thesis unfolding run_save.simps step eq
      by (intro exI[of _ "t\<lparr>st_pc := Ended\<rparr>"]) (simp add: run_save_ended fun_upd_def)
  qed
qed simp

lemma save_succeeds:
  assumes "fs_wf s" "\<not> is_tmp k" "successful ios" "length v + 2 \<le> length ios"
  shows "fs_wf (fst (run_save ios (s, save_start k v))) \<and>
    contents (fst (run_save ios (s, save_start k v))) = (contents s)(k \<mapsto> v)"
proof -
  from assms(4) obtain io rest where ios: "ios = io # rest" "length v < length rest" by (cases ios) auto
  then obtain m where io: "io = IoOk m" using assms(3) by (cases io) (auto simp: successful_def)
  obtain i s1 where o: "open_truncate (tmp_name k) s = (i, s1)" by fastforce
  note facts = open_truncate_facts[OF assms(1) o]
  have step: "save_step io (s, save_start k v) = (s1, (save_start k v)\<lparr>st_pc := Writing i 0\<rparr>)"
    using io o by (simp add: save_step_def save_start_def)
  let ?s2 = "s1\<lparr>inodes := (inodes s1)(i := v), names := (names s1)(tmp_name k := None, k \<mapsto> i)\<rparr>"
  have "\<exists>t'. run_save rest (s1, (save_start k v)\<lparr>st_pc := Writing i 0\<rparr>) = (?s2, t') \<and> st_pc t' = Ended"
  proof (rule writing_succeeds[where n = 0 and a = 1])
    show "successful rest" using ios assms(3) by (simp add: successful_def)
    show "length v - 0 < length rest" "\<not> is_tmp k" "0 \<le> length v" using ios(2) assms(2) by simp_all
    show "names s1 (tmp_name k) = Some i" "inodes s1 i = take 0 v" using facts(2,3) by simp_all
    show "(save_start k v)\<lparr>st_pc := Writing i 0\<rparr> = \<lparr>st_key = k, st_value = v, st_attempt = 1, st_pc = Writing i 0\<rparr>"
      by (simp add: save_start_def)
  qed
  then have run: "fst (run_save ios (s, save_start k v)) = ?s2"
    unfolding ios(1) run_save.simps step by (elim exE conjE) (simp only: fst_conv)
  have ne: "tmp_name k \<noteq> k" using assms(2) by (metis is_tmp_tmp_name)
  have "names s1 (tmp_name k) = Some i" using facts(2) by simp
  then have i: "i < next_ino s1" "\<And>x. names s x = Some i \<Longrightarrow> x = tmp_name k"
    using facts(1) facts(4) unfolding fs_wf_def by blast+
  let ?s3 = "s1\<lparr>inodes := (inodes s1)(i := v)\<rparr>"
  have "rename_file (tmp_name k) k ?s3 = Some ?s2" "fs_wf ?s3"
    using ne facts(2) by (simp add: rename_file_def) (use facts(1) in \<open>simp add: fs_wf_def\<close>)
  then have "fs_wf ?s2" using rename_facts[OF _ _ ne] by blast
  moreover have "contents ?s2 x = ((contents s)(k \<mapsto> v)) x" for x
  proof (cases "x = k \<or> is_tmp x")
    case True
    then show ?thesis using assms(2) by (auto simp: contents_def)
  next
    case False
    then have "x \<noteq> tmp_name k" by auto
    then show ?thesis using False facts(2,3) i(2)[of x] by (cases "names s x") (auto simp: contents_def)
  qed
  ultimately show ?thesis using run by auto
qed

lemma remove_succeeds:
  assumes "fs_wf s" "\<not> is_tmp k" "successful ios" "ios \<noteq> []"
  shows "fs_wf (store_remove MAX_RETRIES ios k s) \<and> contents (store_remove MAX_RETRIES ios k s) = (contents s)(k := None)"
proof -
  obtain io rest where ios: "ios = io # rest" using assms(4) by (cases ios) auto
  then obtain m where "io = IoOk m" using assms(3) by (cases io) (auto simp: successful_def)
  then have "store_remove MAX_RETRIES ios k s = (if names s k = None then s else s\<lparr>names := (names s)(k := None)\<rparr>)"
    using ios by (simp add: MAX_RETRIES_def numeral_3_eq_3 try_remove_def)
  then show ?thesis using assms(1,2) by (auto simp: fs_wf_def contents_def fun_eq_iff)
qed

section \<open>The store implements a map\<close>

text \<open>
  Serialization: every value has an encoding, and decoding gives what of the value is kept
  (\<open>persisted\<close>; fields that are skipped come back with their defaults).
\<close>

definition value_codec :: "'v to_vec \<Rightarrow> 'v from_slice \<Rightarrow> ('v \<Rightarrow> 'v) \<Rightarrow> bool" where
  "value_codec to_vec from_slice persisted = (\<forall>v. \<exists>b. to_vec v = Inr b \<and> from_slice b = Inr (persisted v))"

definition encoded :: "'v to_vec \<Rightarrow> (string \<rightharpoonup> 'v) \<Rightarrow> (string \<rightharpoonup> bytes)" where
  "encoded to_vec m = (\<lambda>k. case m k of None \<Rightarrow> None | Some v \<Rightarrow> (case to_vec v of Inl _ \<Rightarrow> None | Inr b \<Rightarrow> Some b))"

text \<open>The system calls all succeed and there are enough of them for every value the cache holds.\<close>

definition enough :: "'v to_vec \<Rightarrow> io list \<Rightarrow> 'v cache \<Rightarrow> bool" where
  "enough to_vec ios c = (successful ios \<and> ios \<noteq> [] \<and>
     (\<forall>k v b. cache_get c k = Some v \<longrightarrow> to_vec v = Inr b \<longrightarrow> length b + 2 \<le> length ios))"

fun stored_run :: "'v to_vec \<Rightarrow> ('v cache_op \<times> io list) list \<Rightarrow> 'v cache \<times> fs \<Rightarrow> 'v cache \<times> fs" where
  "stored_run to_vec [] cs = cs"
| "stored_run to_vec ((op, ios) # ops) cs = stored_run to_vec ops (stored_apply to_vec ios op cs)"

fun fault_free :: "'v to_vec \<Rightarrow> ('v cache_op \<times> io list) list \<Rightarrow> 'v cache \<times> fs \<Rightarrow> bool" where
  "fault_free to_vec [] cs = True"
| "fault_free to_vec ((op, ios) # ops) cs =
    (\<not> is_tmp (op_key op) \<and> enough to_vec ios (fst (cache_apply to_vec op (fst cs))) \<and>
     fault_free to_vec ops (stored_apply to_vec ios op cs))"

text \<open>The simulation relation: the files are the encoded entries of the cache.\<close>

definition in_step :: "'v to_vec \<Rightarrow> 'v cache \<times> fs \<Rightarrow> bool" where
  "in_step to_vec cs = (has_store (fst cs) \<and> fs_wf (snd cs) \<and> contents (snd cs) = encoded to_vec (cache_get (fst cs)))"

lemma cache_apply_lookup: "cache_get (fst (cache_apply to_vec op c)) = map_apply op (cache_get c)"
  by (cases op) (simp_all add: cache.lookup_put cache.lookup_del cache.lookup_upd)

lemma cache_apply_has_store: "has_store (fst (cache_apply to_vec op c)) = has_store c"
  by (cases op) simp_all

lemma stored_apply_fst: "fst (stored_apply to_vec ios op cs) = fst (cache_apply to_vec op (fst cs))"
  by (simp add: stored_apply_def case_prod_unfold)

lemma encoded_upd:
  "to_vec v = Inr b \<Longrightarrow> encoded to_vec (m(k \<mapsto> v)) = (encoded to_vec m)(k \<mapsto> b)"
  "encoded to_vec (m(k := None)) = (encoded to_vec m)(k := None)"
  by (auto simp: encoded_def)

text \<open>What the commands of one operation do to the files.\<close>

lemma stored_save:
  assumes "fs_wf s" "\<not> is_tmp k" "enough to_vec ios c'" "cache_get c' k = Some v" "to_vec v = Inr b"
  shows "fs_wf (run_cmd to_vec c' ios (Save k b) s)" "contents (run_cmd to_vec c' ios (Save k b) s) = (contents s)(k \<mapsto> b)"
    "run_cmd to_vec c' ios (SaveCurrent k) s = run_cmd to_vec c' ios (Save k b) s"
proof -
  have io: "successful ios" "length b + 2 \<le> length ios" using assms(3-5) by (auto simp: enough_def)
  show "fs_wf (run_cmd to_vec c' ios (Save k b) s)" "contents (run_cmd to_vec c' ios (Save k b) s) = (contents s)(k \<mapsto> b)"
    using save_succeeds[OF assms(1,2) io] by simp_all
  show "run_cmd to_vec c' ios (SaveCurrent k) s = run_cmd to_vec c' ios (Save k b) s"
    using assms(4,5) by (simp add: SaveCurrent_task_def cache_get_def)
qed

lemma stored_apply_in_step [wf_preserve]:
  assumes codec: "value_codec to_vec from_slice persisted" and ok: "in_step to_vec cs"
    and key: "\<not> is_tmp (op_key op)" and io: "enough to_vec ios (fst (cache_apply to_vec op (fst cs)))"
  shows "in_step to_vec (stored_apply to_vec ios op cs)"
proof -
  obtain c s where cs: "cs = (c, s)" by (cases cs)
  have st: "has_store c" "fs_wf s" "contents s = encoded to_vec (cache_get c)" using ok cs by (simp_all add: in_step_def)
  obtain c' cmds where ca: "cache_apply to_vec op c = (c', cmds)" by fastforce
  have look: "cache_get c' = map_apply op (cache_get c)" and hs: "has_store c'"
    using cache_apply_lookup[of to_vec op c] cache_apply_has_store[of to_vec op c] ca st(1) by simp_all
  have io': "enough to_vec ios c'" using io ca cs by simp
  have enc: "\<exists>b. to_vec v = Inr b" for v using codec by (auto simp: value_codec_def)
  have "fs_wf (fold (run_cmd to_vec c' ios) cmds s) \<and>
      contents (fold (run_cmd to_vec c' ios) cmds s) = encoded to_vec (map_apply op (cache_get c))"
  proof (cases op)
    case (Insert k v)
    obtain b where b: "to_vec v = Inr b" using enc by blast
    have "cmds = [Save k b]" using ca Insert b st(1) by (auto simp: cache_insert_def)
    moreover have "cache_get c' k = Some v" using look Insert by simp
    ultimately show ?thesis
      using stored_save(1,2)[OF st(2) _ io' _ b] key Insert st(3) encoded_upd(1)[of to_vec v b, OF b] by simp
  next
    case (Delete k)
    show ?thesis
    proof (cases "cache_get c k")
      case None
      then have "cmds = []" "contents s k = None"
        using ca Delete st(3) by (auto simp: cache_remove_def cache_get_def encoded_def)
      then show ?thesis using st None Delete by (simp add: encoded_upd fun_upd_idem)
    next
      case (Some v)
      then have "cmds = [Remove k]" using ca Delete st(1) by (auto simp: cache_remove_def cache_get_def)
      then show ?thesis
        using remove_succeeds[OF st(2), of k ios] key io' Delete st(3) by (simp add: enough_def encoded_upd)
    qed
  next
    case (Update k f)
    show ?thesis
    proof (cases "cache_get c k")
      case None
      then have "cmds = []" "(cache_get c)(k := None) = cache_get c"
        using ca Update by (auto simp: cache_get_mut_def cache_get_def)
      then show ?thesis using st None Update by simp
    next
      case (Some v)
      obtain b where b: "to_vec (f v) = Inr b" using enc by blast
      have "cmds = [SaveCurrent k]" using ca Update Some st(1) by (auto simp: cache_get_mut_def cache_get_def)
      moreover have "cache_get c' k = Some (f v)" using look Update Some by simp
      ultimately show ?thesis
        using stored_save[OF st(2) _ io' _ b, of k] key Update Some st(3) encoded_upd(1)[of to_vec "f v" b, OF b]
        by (simp del: run_cmd.simps)
    qed
  qed
  then show ?thesis using cs ca hs look by (simp add: in_step_def stored_apply_def)
qed

lemma stored_run_in_step:
  assumes "value_codec to_vec from_slice persisted" "in_step to_vec cs" "fault_free to_vec ops cs"
  shows "in_step to_vec (stored_run to_vec ops cs) \<and>
    cache_get (fst (stored_run to_vec ops cs)) = fold map_apply (map fst ops) (cache_get (fst cs))"
  using assms(2,3)
proof (induction ops arbitrary: cs)
  case (Cons x ops)
  obtain op ios where x: "x = (op, ios)" by (cases x)
  have "in_step to_vec (stored_apply to_vec ios op cs)"
    using stored_apply_in_step[OF assms(1) Cons.prems(1)] Cons.prems(2) x by simp
  then show ?case using Cons.IH Cons.prems(2) x by (simp add: stored_apply_fst cache_apply_lookup)
qed simp



end
