(* ===== verification/NamingRun.thy ===== *)
theory NamingRun
  imports Startup Persistence
begin

text \<open>
  The naming service as a whole: a service that \<^verbatim>\<open>NacosNamingService::new\<close> started (src/naming/mod.rs),
  and everything that happens to it afterwards, in any order: API calls, subscriptions that finish in
  the background, pushes of the server, rounds of the polling loops, ticks of the redo executor and the
  handlers of connects and disconnects.
\<close>

section \<open>Runs\<close>

inductive naming_step :: "'l naming_service \<Rightarrow> 'l naming_service \<Rightarrow> bool" where
  api: "naming_service_call v c s = (out, s', sp) \<Longrightarrow> naming_step s s'"
| spawned: "naming_step s (subscribe_spawned v req i s)"
| push: "NamingPush_reply si_to_vec from_slice err_slice to_vec local_ip request (nam_emitter s) = (reply, ev, e') \<Longrightarrow>
    naming_step s (s\<lparr>nam_emitter := e'\<rparr>)"
| round: "i < length (up_tasks (nam_updater s)) \<Longrightarrow>
    update_round si_to_vec query rid (up_tasks (nam_updater s) ! i) (nam_emitter s) = (t', e', ev) \<Longrightarrow>
    naming_step s (s\<lparr>nam_updater := (nam_updater s)\<lparr>up_tasks := (up_tasks (nam_updater s))[i := t']\<rparr>, nam_emitter := e'\<rparr>)"
| handler: "naming_step s (s\<lparr>nam_redo := run_handler h (nam_redo s)\<rparr>)"
| tick: "naming_step s (s\<lparr>nam_redo := redo_tick (send :: automatic_request \<Rightarrow> grpc_response result) rids ks (nam_redo s)\<rparr>)"

inductive naming_reach :: "'l naming_service \<Rightarrow> 'l naming_service \<Rightarrow> bool" for s0 where
  start: "naming_reach s0 s0"
| step: "naming_reach s0 s \<Longrightarrow> naming_step s s' \<Longrightarrow> naming_reach s0 s'"

section \<open>The invariant of runs\<close>

text \<open>Time does not run backwards in the cache.\<close>

definition no_older :: "emitter \<Rightarrow> emitter \<Rightarrow> bool" where
  "no_older e e' = (\<forall>k old. cache_get (e_cache e) k = Some old \<longrightarrow>
     (\<exists>new. cache_get (e_cache e') k = Some new \<and> sint (last_ref_time old) \<le> sint (last_ref_time new)))"

lemma no_older_refl [simp]: "no_older e e"
  by (simp add: no_older_def)

lemma no_older_trans: "no_older a b \<Longrightarrow> no_older b c \<Longrightarrow> no_older a c"
  unfolding no_older_def by (meson order_trans)

lemma emit_no_older: "emit to_vec s e = (ev, e', cmds) \<Longrightarrow> no_older e e'"
  using emit_time unfolding no_older_def by blast

text \<open>What a step may change: the emitter only as an emission does.\<close>

definition emitted :: "emitter \<Rightarrow> emitter \<Rightarrow> bool" where
  "emitted e e' = ((emitter_ok e \<longrightarrow> emitter_ok e' \<and> push_empty_protection e' = push_empty_protection e) \<and> no_older e e')"

lemma emitted_refl [simp]: "emitted e e"
  by (simp add: emitted_def)

lemma emit_emitted: "emit to_vec s e = (ev, e', cmds) \<Longrightarrow> emitted e e'"
  using emit_ok emit_no_older by (simp add: emitted_def)

lemma push_emitted:
  assumes "NamingPush_reply si_to_vec from_slice err_slice to_vec local_ip request e = (reply, ev, e')"
  shows "emitted e e'"
proof (cases "from_payload ''NotifySubscriberRequest'' from_slice err_slice request")
  case (Inl err)
  then show ?thesis using assms by (simp add: NamingPush_reply_def)
next
  case (Inr m)
  obtain ev1 e1 cmds where "emit si_to_vec (ns_service_info (gm_body m)) e = (ev1, e1, cmds)" by (metis prod_cases3)
  then show ?thesis using assms Inr emit_emitted by (auto simp: NamingPush_reply_def)
qed

lemma round_emitted:
  assumes "update_round to_vec query rid t e = (t', e', ev)"
  shows "emitted e e' \<and> ut_running t' = ut_running t \<and> task_key_of t' = task_key_of t"
proof -
  obtain need t1 where n: "need_query (cached_of e t) t = (need, t1)" by fastforce
  have t1: "ut_running t1 = ut_running t" "task_key_of t1 = task_key_of t"
    using n by (auto simp: need_query_def task_key_of_def split: option.splits if_splits)
  have cf: "ut_running (count_failure t1) = ut_running t1" "task_key_of (count_failure t1) = task_key_of t1"
    by (simp_all add: count_failure_def task_key_of_def)
  show ?thesis
  proof (cases "ut_running t \<and> need \<and> (\<exists>r. query (task_query rid t1) = Inr r \<and> is_success r)")
    case True
    then obtain r where r: "query (task_query rid t1) = Inr r" "is_success r" by blast
    obtain ev1 e1 cmds where em: "emit to_vec (qs_service_info r) e = (ev1, e1, cmds)" by (metis prod_cases3)
    then show ?thesis using assms True n r t1 emit_emitted[OF em]
      by (auto simp: update_round_def Let_def task_key_of_def)
  next
    case False
    then show ?thesis using assms n t1 cf
      by (auto simp: update_round_def Let_def split: if_splits sum.splits)
  qed
qed

lemma round_updater_ok [wf_preserve]:
  assumes "updater_ok u" "i < length (up_tasks u)" "ut_running t' = ut_running (up_tasks u ! i)"
    "task_key_of t' = task_key_of (up_tasks u ! i)"
  shows "updater_ok (u\<lparr>up_tasks := (up_tasks u)[i := t']\<rparr>)"
proof -
  have "ut_running ((up_tasks u)[i := t'] ! j) = ut_running (up_tasks u ! j) \<and>
      task_key_of ((up_tasks u)[i := t'] ! j) = task_key_of (up_tasks u ! j)" if "j < length (up_tasks u)" for j
    using assms that by (cases "j = i") simp_all
  then show ?thesis using assms(1) by (auto simp: updater_ok_def)
qed

lemma redo_tick_ok [wf_preserve]: "redo_ok d \<Longrightarrow> redo_ok (redo_tick send rids ks d)"
proof -
  have "redo_ok d \<Longrightarrow> redo_ok (fold (\<lambda>t s. run_task send (rids t) t s) ts d)" for ts
    by (induction ts arbitrary: d) (simp_all add: wf_preserve)
  then show "redo_ok d \<Longrightarrow> redo_ok (redo_tick send rids ks d)" by (simp add: redo_tick_def)
qed

lemma naming_step_ok [wf_preserve]:
  assumes "naming_step s s'" "naming_ok s"
  shows "naming_ok s' \<and> nam_namespace s' = nam_namespace s \<and> emitted (nam_emitter s) (nam_emitter s')"
  using assms(1)
proof (cases rule: naming_step.cases)
  case (api v c out sp)
  have "naming_kept s s'" using api nacos_naming_call_kept[of s v c]
    by (auto simp: naming_service_call_def split: option.splits sum.splits)
  then show ?thesis using assms(2) by (simp add: naming_kept_def)
next
  case (spawned v req i)
  then show ?thesis using assms(2) by (simp add: subscribe_spawned_def naming_ok_def set_active_ok split: sum.splits)
next
  case (push si_to_vec from_slice err_slice to_vec local_ip request reply ev e')
  then show ?thesis using assms(2) push_emitted[OF push(2)] by (simp add: naming_ok_def emitted_def)
next
  case (round i si_to_vec query rid t' e' ev)
  then show ?thesis using assms(2) round_emitted[OF round(3)] round_updater_ok[of "nam_updater s" i t']
    by (simp add: naming_ok_def emitted_def)
next
  case (handler h)
  then show ?thesis using assms(2) by (simp add: naming_ok_def run_handler_ok)
next
  case (tick send rids ks)
  then show ?thesis using assms(2) by (simp add: naming_ok_def redo_tick_ok)
qed

lemma naming_reach_ok:
  assumes "naming_reach s0 s" "naming_ok s0"
  shows "naming_ok s \<and> nam_namespace s = nam_namespace s0 \<and> emitted (nam_emitter s0) (nam_emitter s)"
  using assms(1)
proof (induction rule: naming_reach.induct)
  case start
  then show ?case using assms(2) by simp
next
  case (step s s')
  have "naming_ok s' \<and> nam_namespace s' = nam_namespace s \<and> emitted (nam_emitter s) (nam_emitter s')"
    using naming_step_ok[OF step.hyps(2)] step.IH by blast
  moreover have "emitter_ok (nam_emitter s0)" using assms(2) by (simp add: naming_ok_def)
  ultimately show ?case using step.IH no_older_trans[of "nam_emitter s0" "nam_emitter s" "nam_emitter s'"]
    by (simp add: emitted_def)
qed

section \<open>Started services\<close>

lemma naming_new_parts:
  assumes "NacosNamingService_new out load auth push p seq = (Some (Ok (s, client, cid)), seq')"
  shows "s = \<lparr>nam_namespace = get_namespace_default_if_empty (out_props out) p, nam_redo = redo_new, nam_updater = updater_new,
      nam_emitter = \<lparr>e_cache = client_cache out load (get_naming_load_cache_at_start (out_props out) p) p
          (builder_naming (get_namespace_default_if_empty (out_props out) p)),
        push_empty_protection = get_naming_push_empty_protection (out_props out) p\<rparr>,
      nam_observers = Map.empty\<rparr>"
  using assms by (auto simp: NacosNamingService_new_def Let_def and_then_Ok split: prod.splits)

text \<open>The files a service may find: usable snapshots, filed under their keys.\<close>

definition sound_files :: "bool \<Rightarrow> (string \<rightharpoonup> ServiceInfo) \<Rightarrow> bool" where
  "sound_files protection m = (\<forall>k s. m k = Some s \<longrightarrow> service_key s = k \<and> hosts s \<noteq> None \<and> (protection \<longrightarrow> validate s))"

lemma naming_new_ok:
  assumes "NacosNamingService_new out load auth push p seq = (Some (Ok (s, client, cid)), seq')"
    "\<And>dir. get_naming_load_cache_at_start (out_props out) p \<Longrightarrow> sound_files (get_naming_push_empty_protection (out_props out) p) (load dir)"
  shows "naming_ok s"
proof -
  have "emitter_ok (nam_emitter s)" using naming_new_parts[OF assms(1)] assms(2)
    by (auto simp: emitter_ok_def client_cache_lookup sound_files_def split: option.splits if_splits)
  then show ?thesis using naming_new_parts[OF assms(1)]
    by (simp add: naming_ok_def redo_new_ok updater_new_ok observers_of_def)
qed


lemma demo_started:
  "\<exists>s client cid. NacosNamingService_new demo_outside (\<lambda>_. Map.empty) (\<lambda>_. Map.empty) (\<lambda>_ _. None) demo_props 1 =
    (Some (Ok (s, client, cid)), 2)"
  by (simp add: NacosNamingService_new_def demo_provider generate_client_id_def Let_def grpc_client_build_def)
    (simp add: demo_outside_def)


section \<open>Restarts\<close>

text \<open>
  A service that loads what an earlier one saved starts with the services of the earlier one, and so
  is sound, if the files were written without failures and serialization keeps a snapshot.
\<close>

lemma restart_keeps_services:
  assumes "NacosNamingService_new out (\<lambda>_. store_load from_slice (\<lambda>_. True) saved) auth push p seq = (Some (Ok (s, client, cid)), seq')"
    "get_naming_load_cache_at_start (out_props out) p" "is_disk_store (get_cache_kind (out_props out) p)"
    "value_codec to_vec from_slice (\<lambda>v. v)" "in_step to_vec (e_cache e, saved)" "emitter_ok e"
    "get_naming_push_empty_protection (out_props out) p \<longrightarrow> push_empty_protection e"
  shows "cache_get (e_cache (nam_emitter s)) = cache_get (e_cache e) \<and> naming_ok s"
proof -
  have load: "store_load from_slice (\<lambda>_. True) saved k = cache_get (e_cache e) k" for k
  proof (cases "cache_get (e_cache e) k")
    case (Some v)
    obtain b where "to_vec v = Inr b" "from_slice b = Inr v" using assms(4) by (auto simp: value_codec_def)
    then show ?thesis using assms(5) Some by (simp add: contents_load in_step_def encoded_def)
  qed (use assms(5) in \<open>simp add: contents_load in_step_def encoded_def\<close>)
  have "naming_ok s"
  proof (rule naming_new_ok[OF assms(1)])
    show "sound_files (get_naming_push_empty_protection (out_props out) p) (store_load from_slice (\<lambda>_. True) saved)"
      using assms(6,7) load by (auto simp: sound_files_def emitter_ok_def)
  qed
  moreover have "cache_get (e_cache (nam_emitter s)) = cache_get (e_cache e)"
    using naming_new_parts[OF assms(1)] assms(2,3) load
    by (auto simp: client_cache_lookup builder_store_def Let_def fun_eq_iff)
  ultimately show ?thesis by simp
qed

end
