(* ===== verification/NamingSync.thy ===== *)
theory NamingSync
  imports Updater
begin

text \<open>
  Polling (src/naming/updater) against a server: what the cache holds after two rounds of a loop.
\<close>

section \<open>Convergence\<close>

lemma emit_converges:
  assumes "emitter_ok e" "\<not> is_empty_or_error_push e s"
    "\<forall>old. cache_get (e_cache e) (service_key s) = Some old \<longrightarrow> \<not> is_outdated_data old s"
    "emit to_vec s e = (ev, e', cmds)"
  shows "\<exists>c. cache_get (e_cache e') (service_key s) = Some c \<and> host_map (the (hosts c)) = host_map (the (hosts s)) \<and>
      last_ref_time c \<in> {last_ref_time s, last_ref_time (case cache_get (e_cache e) (service_key s) of None \<Rightarrow> s | Some old \<Rightarrow> old)}"
    "ev = (if is_changed_service_info (cache_get (e_cache e) (service_key s)) s then Some s else None)"
    "k \<noteq> service_key s \<Longrightarrow> cache_get (e_cache e') k = cache_get (e_cache e) k"
proof -
  let ?old = "cache_get (e_cache e) (service_key s)"
  have hs: "hosts s \<noteq> None" using assms(2) by (simp add: is_empty_or_error_push_def)
  show "ev = (if is_changed_service_info ?old s then Some s else None)"
    using assms(2,4) by (simp add: emit_def process_service_info_def service_key_def case_prod_unfold split: if_splits)
  show "k \<noteq> service_key s \<Longrightarrow> cache_get (e_cache e') k = cache_get (e_cache e) k"
    using assms(4) by (cases rule: emit_cases[of to_vec s e]) (auto simp: cache.lookup_put)
  show "\<exists>c. cache_get (e_cache e') (service_key s) = Some c \<and> host_map (the (hosts c)) = host_map (the (hosts s)) \<and>
      last_ref_time c \<in> {last_ref_time s, last_ref_time (case ?old of None \<Rightarrow> s | Some old \<Rightarrow> old)}"
  proof (cases "is_changed_service_info ?old s")
    case True
    then have "cache_get (e_cache e') (service_key s) = Some s"
      using assms(2,4) by (auto simp: emit_def process_service_info_def service_key_def case_prod_unfold cache.lookup_put)
    then show ?thesis by simp
  next
    case False
    then obtain old where old: "?old = Some old" by (cases ?old) (auto simp: is_changed_service_info_def)
    then have ho: "hosts old \<noteq> None" using assms(1) by (auto simp: emitter_ok_def)
    have "\<not> changed (diff_calculate (the (hosts old)) (the (hosts s)))"
      using False old ho hs assms(3) by (auto simp: is_changed_service_info_def split: if_splits)
    then have "host_map (the (hosts old)) k = host_map (the (hosts s)) k" for k
      unfolding changed_iff_host_map by (cases "host_map (the (hosts old)) k"; cases "host_map (the (hosts s)) k") (auto dest!: spec[of _ k] split: option.splits)
    moreover have "e' = e" using assms(4) False by (cases rule: emit_cases[of to_vec s e]) auto
    ultimately show ?thesis using old by auto
  qed
qed

lemma round_emits:
  assumes "ut_running t" "\<forall>rid. query (task_query rid t) = Ok resp" "is_success resp" "s = qs_service_info resp"
  shows "update_round to_vec query rid t e =
    (if fst (need_query (cached_of e t) t)
     then (t\<lparr>last_refresh_time := last_ref_time s, delay_time := cache_millis s * DEFAULT_UPDATE_CACHE_TIME_MULTIPLE, failed_count := 0\<rparr>,
       fst (snd (emit to_vec s e)), fst (emit to_vec s e))
     else (snd (need_query (cached_of e t) t), e, None))"
proof -
  have "snd (need_query (cached_of e t) t) = t" if "fst (need_query (cached_of e t) t)"
    using that by (auto simp: need_query_def split: option.splits if_splits)
  then show ?thesis using assms by (auto simp: update_round_def case_prod_unfold)
qed

text \<open>A round that does not ask remembers the time of the cached snapshot, so the next one asks.\<close>

lemma skipped_round_asks_next:
  assumes "\<not> fst (need_query c t)"
  shows "fst (need_query c (snd (need_query c t)))" "cached_of e (snd (need_query c t)) = cached_of e t"
    "task_query rid (snd (need_query c t)) = task_query rid t" "ut_running (snd (need_query c t)) = ut_running t"
  using assms by (auto simp: need_query_def cached_of_def task_query_def split: option.splits if_splits)

text \<open>
  C18: polling converges: against a server that answers a loop's query with a usable snapshot, not older
  than the cached one, two rounds are enough for the cache to hold exactly the server's instances;
  listeners are told of the change, only this service is touched, and the back-off is gone.
\<close>

theorem polling_converges:
  assumes "ut_running t" "emitter_ok e" "\<forall>rid. query (task_query rid t) = Ok resp" "is_success resp" "s = qs_service_info resp"
    "\<not> is_empty_or_error_push e s"
    "\<forall>old. cache_get (e_cache e) (service_key s) = Some old \<longrightarrow> sint (last_ref_time old) \<le> sint (last_ref_time s)"
    "update_round to_vec query rid1 t e = (t1, e1, ev1)" "update_round to_vec query rid2 t1 e1 = (t2, e2, ev2)"
  shows "(\<exists>c. cache_get (e_cache e2) (service_key s) = Some c \<and> host_map (the (hosts c)) = host_map (the (hosts s))) \<and>
    (is_changed_service_info (cache_get (e_cache e) (service_key s)) s \<longrightarrow> Some s \<in> {ev1, ev2}) \<and> {ev1, ev2} \<subseteq> {None, Some s} \<and>
    (\<forall>k. k \<noteq> service_key s \<longrightarrow> cache_get (e_cache e2) k = cache_get (e_cache e) k) \<and> ut_running t2 \<and> failed_count t2 = 0"
proof -
  have new: "\<forall>old. cache_get (e_cache e) (service_key s) = Some old \<longrightarrow> \<not> is_outdated_data old s"
    using assms(7) by (auto simp: is_outdated_data_def)
  obtain ev e' cmds where em: "emit to_vec s e = (ev, e', cmds)" by (metis prod_cases3)
  note em1 = emit_converges[OF assms(2,6) new em]
  note r1 = round_emits[OF assms(1,3,4,5), of to_vec rid1 e]
  show ?thesis
  proof (cases "fst (need_query (cached_of e t) t)")
    case False
    note n = skipped_round_asks_next[OF False]
    have t1: "t1 = snd (need_query (cached_of e t) t)" "e1 = e" "ev1 = None" using r1 assms(8) False by auto
    then have "update_round to_vec query rid2 t1 e = (t1\<lparr>last_refresh_time := last_ref_time s,
        delay_time := cache_millis s * DEFAULT_UPDATE_CACHE_TIME_MULTIPLE, failed_count := 0\<rparr>, e', ev)"
      using round_emits[of t1 query resp s to_vec rid2 e] assms(1,3,4,5) n em by simp
    then have "t2 = t1\<lparr>last_refresh_time := last_ref_time s, delay_time := cache_millis s * DEFAULT_UPDATE_CACHE_TIME_MULTIPLE, failed_count := 0\<rparr>"
      "e2 = e'" "ev2 = ev" using assms(9) t1(2) by auto
    then show ?thesis using em1 t1 n(4) assms(1) by (auto split: if_splits)
  next
    case True
    let ?t = "t\<lparr>last_refresh_time := last_ref_time s, delay_time := cache_millis s * DEFAULT_UPDATE_CACHE_TIME_MULTIPLE, failed_count := 0\<rparr>"
    have t1: "t1 = ?t" "e1 = e'" "ev1 = ev" using r1 assms(8) True em by auto
    obtain c where c: "cache_get (e_cache e1) (service_key s) = Some c" "host_map (the (hosts c)) = host_map (the (hosts s))"
      "sint (last_ref_time c) \<le> sint (last_ref_time s)" using em1(1) assms(7) t1(2) by (auto split: option.splits)
    have ok: "emitter_ok e1" "\<not> is_empty_or_error_push e1 s" using emit_ok[OF assms(2) em] t1(2) assms(6)
      by (simp_all add: is_empty_or_error_push_def)
    obtain ev' e'' cmds' where em': "emit to_vec s e1 = (ev', e'', cmds')" by (metis prod_cases3)
    have new': "\<forall>old. cache_get (e_cache e1) (service_key s) = Some old \<longrightarrow> \<not> is_outdated_data old s"
      using c by (simp add: is_outdated_data_def)
    note em2 = emit_converges[OF ok new' em']
    have q: "\<forall>rid. query (task_query rid t1) = Ok resp" "ut_running t1" using assms(1,3) t1(1) by (simp_all add: task_query_def)
    have "(e2 = e1 \<and> ev2 = None \<and> t2 = snd (need_query (cached_of e1 t1) t1)) \<or> (e2 = e'' \<and> ev2 = ev' \<and> ut_running t2 \<and> failed_count t2 = 0)"
      using round_emits[OF q(2,1) assms(4,5), of to_vec rid2 e1] assms(9) em' q(2) by (auto split: if_splits)
    moreover have "ut_running (snd (need_query x t1))" "failed_count (snd (need_query x t1)) = 0" for x
      using q(2) t1(1) by (auto simp: need_query_def split: option.splits)
    ultimately have 2: "(e2 = e1 \<and> ev2 = None \<or> e2 = e'' \<and> ev2 = ev') \<and> ut_running t2 \<and> failed_count t2 = 0" by auto
    have "\<exists>c. cache_get (e_cache e2) (service_key s) = Some c \<and> host_map (the (hosts c)) = host_map (the (hosts s))"
      using 2 c em2(1) by auto
    moreover have "\<forall>k. k \<noteq> service_key s \<longrightarrow> cache_get (e_cache e2) k = cache_get (e_cache e) k"
      using 2 em1(3) em2(3) t1(2) by auto
    ultimately show ?thesis using 2 em1(2) em2(2) t1(3) by auto
  qed
qed

definition demo_task :: update_task where
  "demo_task = task_start (update_task_new ''svc'' ''public'' ''G'' [])"

definition demo_polled :: QueryServiceResponse where
  "demo_polled = grpc_response.extend response_ok \<lparr>qs_service_info = demo_service 1 ''a''\<rparr>"

lemma polling_converges_witness:
  "\<exists>t1 e1 ev1 t2 e2 ev2 c. update_round (\<lambda>_. Inl []) (\<lambda>_. Ok demo_polled) ''1'' demo_task demo_emitter = (t1, e1, ev1) \<and>
    update_round (\<lambda>_. Inl []) (\<lambda>_. Ok demo_polled) ''2'' t1 e1 = (t2, e2, ev2) \<and>
    cache_get (e_cache e2) ''G@@svc'' = Some c \<and> host_map (the (hosts c)) = host_map [ServiceInstance_default\<lparr>ip := ''a''\<rparr>]"
proof -
  let ?s = "demo_service 1 ''a''" and ?q = "\<lambda>_ :: ServiceQueryRequest. Ok demo_polled :: QueryServiceResponse result"
  obtain t1 e1 ev1 where 1: "update_round (\<lambda>_. Inl []) ?q ''1'' demo_task demo_emitter = (t1, e1, ev1)" by (metis prod_cases3)
  obtain t2 e2 ev2 where 2: "update_round (\<lambda>_. Inl []) ?q ''2'' t1 e1 = (t2, e2, ev2)" by (metis prod_cases3)
  have k: "service_key ?s = ''G@@svc''" by code_simp
  have run: "ut_running demo_task" by (simp add: demo_task_def task_start_def update_task_new_def)
  have resp: "is_success demo_polled" "?s = qs_service_info demo_polled"
    by (simp_all add: demo_polled_def grpc_response.extend_def response_ok_def is_success_def)
  have v: "\<not> is_empty_or_error_push demo_emitter ?s"
    by (simp add: is_empty_or_error_push_def demo_emitter_def validate_def is_all_ips_def demo_service_def ServiceInfo_default_def
        ServiceInstance_default_def)
  have t: "\<forall>old. cache_get (e_cache demo_emitter) (service_key ?s) = Some old \<longrightarrow> sint (last_ref_time old) \<le> sint (last_ref_time ?s)"
    by (simp add: demo_emitter_def cache_get_def)
  have h: "the (hosts ?s) = [ServiceInstance_default\<lparr>ip := ''a''\<rparr>]" by (simp add: demo_service_def)
  have "\<forall>rid. ?q (task_query rid demo_task) = Ok demo_polled" by simp
  from polling_converges[OF run demo_emitter_ok this resp v t 1 2] obtain c where
    "cache_get (e_cache e2) ''G@@svc'' = Some c" "host_map (the (hosts c)) = host_map [ServiceInstance_default\<lparr>ip := ''a''\<rparr>]"
    unfolding k h by (elim conjE exE)
  then show ?thesis using 1 2 by (intro exI conjI)
qed

end
