(* ===== verification/HealthTask.thy ===== *)
theory HealthTask
  imports Connection
begin

text \<open>
  The health check task of a connection in time (\<^verbatim>\<open>FailoverConnection\<close> of
  src/common/remote/grpc/nacos\_grpc\_connection.rs): how long a dead connection goes unnoticed, and what
  replaces it. Times are in milliseconds.
\<close>

section \<open>The task\<close>

definition HEALTH_CHECK_REQUEST_TIMEOUT :: nat where "HEALTH_CHECK_REQUEST_TIMEOUT = 3000"

text \<open>An attempt: the pause before it, the wait for the buffer, and the request with its outcome.\<close>

record timed_attempt =
  ta_jitter :: nat
  ta_wait :: nat
  ta_took :: nat
  ta_outcome :: attempt

definition in_time :: "nat \<Rightarrow> timed_attempt \<Rightarrow> bool" where
  "in_time w a = (ta_jitter a < 500 \<and> ta_wait a \<le> w \<and> ta_took a \<le> HEALTH_CHECK_REQUEST_TIMEOUT \<and>
     (ta_outcome a = NoReply \<longrightarrow> ta_took a = HEALTH_CHECK_REQUEST_TIMEOUT))"

text \<open>How long the attempts take; there is no pause before the first.\<close>

fun probe_time :: "(payload \<Rightarrow> bool) \<Rightarrow> nat \<Rightarrow> timed_attempt list \<Rightarrow> nat" where
  "probe_time good i [] = 0"
| "probe_time good i (a # as) =
    (if i < HEALTH_CHECK_RETRY_TIMES then
       (if 0 < i then ta_jitter a else 0) + ta_wait a +
       (case ta_outcome a of
          NotReady \<Rightarrow> 0
        | Reply p \<Rightarrow> ta_took a + (if good p then 0 else probe_time good (i + 1) as)
        | _ \<Rightarrow> ta_took a + probe_time good (i + 1) as)
     else 0)"

definition good_reply :: "grpc_response from_slice \<Rightarrow> grpc_response from_slice \<Rightarrow> payload \<Rightarrow> bool" where
  "good_reply from_slice err_slice p = is_ok (from_payload ''HealthCheckResponse'' from_slice err_slice p)"

text \<open>
  The loop from \<open>now\<close> on, when only it changes the connection: a round is whether the task is still
  wanted (dropping the connection clears the flag) and the attempts it would make. The result is when
  each round decided, and the connection then.
\<close>

fun health_task ::
    "grpc_response from_slice \<Rightarrow> grpc_response from_slice \<Rightarrow> (bool \<times> timed_attempt list) list \<Rightarrow> nat \<Rightarrow> conn \<Rightarrow> (nat \<times> conn) list" where
  "health_task from_slice err_slice [] now c = []"
| "health_task from_slice err_slice ((active_health_check, attempts) # rounds) now c =
    (if \<not> active_health_check then []
     else if now - cn_last_active c < HEALTH_CHECK_INTERVAL then
       (now, c) # health_task from_slice err_slice rounds (now + HEALTH_CHECK_INTERVAL) c
     else
       (let later = now + probe_time (good_reply from_slice err_slice) 0 attempts;
            c' = health_check from_slice err_slice now later (map ta_outcome attempts) c
        in (later, c') # health_task from_slice err_slice rounds (later + HEALTH_CHECK_INTERVAL) c'))"

section \<open>Lemmas\<close>

lemma probe_time_bound:
  assumes "\<forall>a\<in>set as. in_time w a" "i + n = 3"
  shows "probe_time good i as \<le> n * (w + 3500)"
  using assms
proof (induction as arbitrary: i n)
  case (Cons a as)
  show ?case
  proof (cases n)
    case (Suc m)
    have a: "ta_jitter a < 500" "ta_wait a \<le> w" "ta_took a \<le> 3000"
      using Cons.prems(1) by (simp_all add: in_time_def HEALTH_CHECK_REQUEST_TIMEOUT_def)
    have "probe_time good (i + 1) as \<le> m * (w + 3500)" by (rule Cons.IH) (use Cons.prems Suc in auto)
    then show ?thesis using a Suc by (auto split: attempt.split)
  qed (use Cons.prems in \<open>simp add: HEALTH_CHECK_RETRY_TIMES_def\<close>)
qed simp

lemma health_check_keeps:
  "health_check fs es now later as c = c\<lparr>cn_last_active := cn_last_active (health_check fs es now later as c),
    cn_health := cn_health (health_check fs es now later as c)\<rparr>"
  by (simp add: health_check_def failover_def)

lemma silent_probe:
  assumes "\<forall>a\<in>set as. \<forall>p. ta_outcome a = Reply p \<longrightarrow> \<not> good_reply fs es p" "HEALTH_CHECK_INTERVAL \<le> now - cn_last_active c"
  shows "health_check fs es now later (map ta_outcome as) c = c\<lparr>cn_health := False\<rparr>"
proof -
  have "\<not> probe (\<lambda>p. is_ok (from_payload ''HealthCheckResponse'' fs es p)) n (map ta_outcome as)" for n
  proof
    assume "probe (\<lambda>p. is_ok (from_payload ''HealthCheckResponse'' fs es p)) n (map ta_outcome as)"
    then obtain i where i: "i < length as"
      "case map ta_outcome as ! i of Reply p \<Rightarrow> is_ok (from_payload ''HealthCheckResponse'' fs es p) | _ \<Rightarrow> False"
      unfolding probe_iff by auto
    then obtain p where "i < length as" "ta_outcome (as ! i) = Reply p" "good_reply fs es p"
      by (simp add: good_reply_def split: attempt.splits)
    then show False using assms(1) nth_mem[of i as] by blast
  qed
  then show ?thesis using assms(2) by (cases c) (auto simp: health_check_def failover_def)
qed

lemma silent_round:
  assumes "\<forall>a\<in>set as. in_time w a \<and> (\<forall>p. ta_outcome a = Reply p \<longrightarrow> \<not> good_reply fs es p)"
    "HEALTH_CHECK_INTERVAL \<le> now - cn_last_active c"
  obtains t rest where "health_task fs es ((True, as) # rounds) now c = (t, c\<lparr>cn_health := False\<rparr>) # rest"
    "t \<le> now + 10500 + 3 * w"
proof -
  let ?t = "now + probe_time (good_reply fs es) 0 as"
  have e: "health_check fs es now ?t (map ta_outcome as) c = c\<lparr>cn_health := False\<rparr>"
    by (rule silent_probe) (use assms in auto)
  have "probe_time (good_reply fs es) 0 as \<le> 3 * (w + 3500)" by (rule probe_time_bound) (use assms(1) in auto)
  then have t: "?t \<le> now + 10500 + 3 * w" by simp
  have n: "\<not> now - cn_last_active c < HEALTH_CHECK_INTERVAL" using assms(2) by simp
  show thesis by (rule that[OF _ t]) (simp only: health_task.simps n e Let_def not_True_eq_False if_False)
qed

text \<open>Polls of a connection found dead, against a server that works.\<close>

lemma dead_is_replaced:
  assumes "conn_ok c" "cn_state c = Connected" "\<not> cn_health c"
    "pe_make e = Some (Ok ())" "pe_init e = Some (Ok cid)" "pe_service e = Some (Ok ())" "pe_slept e"
  shows "\<exists>c'. poll_ready [e, e, e, e, e, e] c = Some (PollReady, c') \<and> cn_connection_id c' = Some cid \<and> cn_health c' \<and>
    cn_watch c' = cn_watch c @ [None, Some cid]"
proof -
  have "cn_initialized c" using assms(1,2) by (simp add: conn_ok_def)
  then show ?thesis using assms(2-) by (simp add: poll_iter_def given_up_def start_retry_def)
qed

definition demo_silence :: timed_attempt where
  "demo_silence = \<lparr>ta_jitter = 100, ta_wait = 1, ta_took = 3000, ta_outcome = NoReply\<rparr>"

section \<open>Properties\<close>

text \<open>
  C11: a dead connection is replaced: when the server no longer answers, two rounds of the health check,
  15.5 seconds and whatever the buffer makes the attempts wait, are enough to mark the connection; the
  polls of the next request then make a new one, and the listeners are told of the disconnect and the
  new id.
\<close>

theorem dead_connection_replaced:
  assumes "conn_reach max_retries c" "cn_state c = Connected" "cn_last_active c \<le> now"
    "\<forall>a\<in>set as1 \<union> set as2. in_time w a \<and> (\<forall>p. ta_outcome a = Reply p \<longrightarrow> \<not> good_reply fs es p)"
    "pe_make e = Some (Ok ())" "pe_init e = Some (Ok cid)" "pe_service e = Some (Ok ())" "pe_slept e"
  shows "\<exists>t c' c''. (t, c') \<in> set (health_task fs es [(True, as1), (True, as2)] now c) \<and> t \<le> now + 15500 + 3 * w \<and>
    c' = c\<lparr>cn_health := False\<rparr> \<and> poll_ready [e, e, e, e, e, e] c' = Some (PollReady, c'') \<and>
    cn_connection_id c'' = Some cid \<and> cn_health c'' \<and> cn_watch c'' = cn_watch c @ [None, Some cid]"
proof -
  let ?c' = "c\<lparr>cn_health := False\<rparr>"
  have ok: "conn_ok ?c'" using other_steps_ok(2)[OF conn_reach_ok[OF assms(1)]] by (cases "cn_health c") (auto simp: failover_def conn_ok_def)
  from dead_is_replaced[OF ok _ _ assms(5-8)] assms(2) obtain c'' where
    r: "poll_ready [e, e, e, e, e, e] ?c' = Some (PollReady, c'')" "cn_connection_id c'' = Some cid" "cn_health c''"
      "cn_watch c'' = cn_watch c @ [None, Some cid]" by auto
  have silent: "\<forall>a\<in>set as1. in_time w a \<and> (\<forall>p. ta_outcome a = Reply p \<longrightarrow> \<not> good_reply fs es p)"
    "\<forall>a\<in>set as2. in_time w a \<and> (\<forall>p. ta_outcome a = Reply p \<longrightarrow> \<not> good_reply fs es p)" using assms(4) by blast+
  have "\<exists>t. (t, ?c') \<in> set (health_task fs es [(True, as1), (True, as2)] now c) \<and> t \<le> now + 15500 + 3 * w"
  proof (cases "now - cn_last_active c < HEALTH_CHECK_INTERVAL")
    case True
    have "HEALTH_CHECK_INTERVAL \<le> now + HEALTH_CHECK_INTERVAL - cn_last_active c" using assms(3) by simp
    from silent_round[OF silent(2) this, where rounds = "[]"] obtain t rest where
      t: "health_task fs es [(True, as2)] (now + HEALTH_CHECK_INTERVAL) c = (t, ?c') # rest"
        "t \<le> now + HEALTH_CHECK_INTERVAL + 10500 + 3 * w" .
    show ?thesis by (rule exI[of _ t]) (use True t in \<open>auto simp: HEALTH_CHECK_INTERVAL_def simp del: health_task.simps(2) simp: health_task.simps(2)[of _ _ _ as1]\<close>)
  next
    case False
    then have "HEALTH_CHECK_INTERVAL \<le> now - cn_last_active c" by simp
    from silent_round[OF silent(1) this, where rounds = "[(True, as2)]"] obtain t rest where
      t: "health_task fs es [(True, as1), (True, as2)] now c = (t, ?c') # rest" "t \<le> now + 10500 + 3 * w" .
    show ?thesis by (rule exI[of _ t]) (use t in simp)
  qed
  then show ?thesis using r by blast
qed

text \<open>A connection whose checks are answered is never marked, however long the task runs.\<close>

lemma answered_checks_keep:
  assumes "\<forall>(b, as)\<in>set rounds. probe (good_reply fs es) HEALTH_CHECK_RETRY_TIMES (map ta_outcome as)"
    "(t, c') \<in> set (health_task fs es rounds now c)"
  shows "cn_health c' = cn_health c"
  using assms
proof (induction rounds arbitrary: now c)
  case (Cons r rounds)
  obtain b as where r: "r = (b, as)" by fastforce
  have keep: "cn_health (health_check fs es now later (map ta_outcome as) c) = cn_health c" for later
    using Cons.prems(1) r by (simp add: health_check_def good_reply_def)
  have "(t, c') \<in> set (health_task fs es rounds now1 c1) \<Longrightarrow> cn_health c' = cn_health c1" for now1 c1
    using Cons.IH Cons.prems(1) by simp
  then show ?case using Cons.prems(2) r keep by (auto simp: Let_def split: if_splits)
qed simp

lemma dead_connection_replaced_witness:
  "\<exists>t c' c''. (t, c') \<in> set (health_task (\<lambda>_. Inl []) (\<lambda>_. Inl []) [(True, [demo_silence]), (True, [demo_silence])] 2000 demo_run) \<and>
    t \<le> 17503 \<and> poll_ready (replicate 6 (demo_poll ''c'')) c' = Some (PollReady, c'') \<and> cn_connection_id c'' = Some ''c''"
proof -
  have s: "\<forall>a\<in>set [demo_silence] \<union> set [demo_silence].
      in_time 1 a \<and> (\<forall>p. ta_outcome a = Reply p \<longrightarrow> \<not> good_reply (\<lambda>_. Inl []) (\<lambda>_. Inl []) p)"
    by (simp add: demo_silence_def in_time_def HEALTH_CHECK_REQUEST_TIMEOUT_def)
  have d: "cn_state demo_run = Connected" "cn_last_active demo_run \<le> 2000" by (simp_all add: demo_run_value)
  from dead_connection_replaced[OF demo_run_reach d s, of "demo_poll ''c''" "''c''"] obtain t c' c'' where
    "(t, c') \<in> set (health_task (\<lambda>_. Inl []) (\<lambda>_. Inl []) [(True, [demo_silence]), (True, [demo_silence])] 2000 demo_run)"
    "t \<le> 2000 + 15500 + 3 * 1" "poll_ready (replicate 6 (demo_poll ''c'')) c' = Some (PollReady, c'')"
    "cn_connection_id c'' = Some ''c''"
    by (auto simp: demo_poll_def numeral_eq_Suc simp del: health_task.simps)
  then show ?thesis by (intro exI[of _ t] exI[of _ c'] exI[of _ c'']) simp
qed

end
