(* ===== verification/BiStream.thy ===== *)
theory BiStream
  imports Connection
begin

text \<open>
  The bidirectional stream of a connection (\<^verbatim>\<open>setup\<close> in src/common/remote/grpc/nacos\_grpc\_connection.rs):
  the channel of messages for the server, the local stream that takes them from it, and the task that
  waits for the server's stream and for the connection id, and then answers the server's messages.
\<close>

section \<open>The task\<close>

text \<open>\<open>Closed\<close> holds the connection id if the task came to know one.\<close>

datatype stream_phase = Opening | Opened | Serving string | Sending string payload | Closed "string option"

text \<open>
  \<open>bs_local\<close> tells whether the transport still holds the local stream, and with it the receiver of the
  channel; \<open>bs_yielded\<close> and \<open>bs_seen\<close> record the traffic: what went to the server, and its messages
  with their times.
\<close>

record bi_stream =
  bs_phase :: stream_phase
  bs_queue :: "payload list"
  bs_local :: bool
  bs_health :: bool
  bs_last_active :: nat
  bs_yielded :: "payload list"
  bs_seen :: "(nat \<times> payload) list"

definition STREAM_CAPACITY :: nat where "STREAM_CAPACITY = 1024"

text \<open>\<^verbatim>\<open>setup\<close>: the set-up message is the first in the channel; the flag and the time are the connection's.\<close>

definition setup_stream :: "payload result \<Rightarrow> bool \<Rightarrow> nat \<Rightarrow> bi_stream result" where
  "setup_stream msg health last_active =
    and_then msg (\<lambda>payload. Ok \<lparr>bs_phase = Opening, bs_queue = [payload], bs_local = True, bs_health = health,
      bs_last_active = last_active, bs_yielded = [], bs_seen = []\<rparr>)"

definition receive :: "handler_map \<Rightarrow> nat \<Rightarrow> string \<Rightarrow> payload \<Rightarrow> bi_stream \<Rightarrow> bi_stream" where
  "receive handlers now cid response s =
    (let s = s\<lparr>bs_last_active := now, bs_seen := bs_seen s @ [(now, response)]\<rparr>
     in case stream_reply handlers response of None \<Rightarrow> s | Some ret \<Rightarrow> s\<lparr>bs_phase := Sending cid ret\<rparr>)"

definition served_stream_closed :: "string \<Rightarrow> bi_stream \<Rightarrow> bi_stream" where
  "served_stream_closed cid s = s\<lparr>bs_phase := Closed (Some cid), bs_health := (if bs_health s then False else bs_health s)\<rparr>"

inductive stream_step :: "handler_map \<Rightarrow> bi_stream \<Rightarrow> bi_stream \<Rightarrow> bool" for handlers where
  yield: "bs_local s \<Longrightarrow> bs_queue s = request # q \<Longrightarrow>
    stream_step handlers s (s\<lparr>bs_queue := q, bs_yielded := bs_yielded s @ [request]\<rparr>)"
| local_dropped: "stream_step handlers s (s\<lparr>bs_local := False\<rparr>)"
| opened: "bs_phase s = Opening \<Longrightarrow> stream_step handlers s (s\<lparr>bs_phase := Opened\<rparr>)"
| not_opened: "bs_phase s = Opening \<Longrightarrow> stream_step handlers s (s\<lparr>bs_phase := Closed None\<rparr>)"
| told_id: "bs_phase s = Opened \<Longrightarrow> stream_step handlers s (s\<lparr>bs_phase := Serving cid\<rparr>)"
| no_id: "bs_phase s = Opened \<Longrightarrow> stream_step handlers s (s\<lparr>bs_phase := Closed None\<rparr>)"
| message: "bs_phase s = Serving cid \<Longrightarrow> stream_step handlers s (receive handlers now cid response s)"
| sent: "bs_phase s = Sending cid ret \<Longrightarrow> bs_local s \<Longrightarrow> length (bs_queue s) < STREAM_CAPACITY \<Longrightarrow>
    stream_step handlers s (s\<lparr>bs_phase := Serving cid, bs_queue := bs_queue s @ [ret]\<rparr>)"
| not_sent: "bs_phase s = Sending cid ret \<Longrightarrow> \<not> bs_local s \<Longrightarrow> stream_step handlers s (served_stream_closed cid s)"
| ended: "bs_phase s = Serving cid \<Longrightarrow> stream_step handlers s (served_stream_closed cid s)"

inductive stream_reach :: "handler_map \<Rightarrow> bi_stream \<Rightarrow> bi_stream \<Rightarrow> bool" for handlers s0 where
  start: "stream_reach handlers s0 s0"
| step: "stream_reach handlers s0 s \<Longrightarrow> stream_step handlers s s' \<Longrightarrow> stream_reach handlers s0 s'"

section \<open>Invariant\<close>

text \<open>A reply that waits for room in the channel, or was lost because nobody reads it any more.\<close>

definition unsent_ok :: "bi_stream \<Rightarrow> payload list \<Rightarrow> bool" where
  "unsent_ok s unsent =
    (case bs_phase s of
       Sending cid ret \<Rightarrow> unsent = [ret]
     | Closed (Some cid) \<Rightarrow> unsent = [] \<or> (\<not> bs_local s \<and> length unsent = 1)
     | _ \<Rightarrow> unsent = [])"

definition replies :: "handler_map \<Rightarrow> bi_stream \<Rightarrow> payload list" where
  "replies handlers s = stream_task handlers (map (Inr \<circ> snd) (bs_seen s))"

definition stream_ok :: "handler_map \<Rightarrow> payload \<Rightarrow> bool \<Rightarrow> nat \<Rightarrow> bi_stream \<Rightarrow> bool" where
  "stream_ok handlers msg health t s =
    ((\<exists>unsent. unsent_ok s unsent \<and> bs_yielded s @ bs_queue s @ unsent = msg # replies handlers s) \<and>
     length (bs_queue s) \<le> STREAM_CAPACITY \<and>
     (bs_phase s \<in> {Opening, Opened, Closed None} \<longrightarrow> bs_seen s = []) \<and>
     bs_health s = (health \<and> (\<forall>cid. bs_phase s \<noteq> Closed (Some cid))) \<and>
     bs_last_active s = last (t # map fst (bs_seen s)))"

lemma stream_task_snoc:
  "stream_task handlers (map Inr ps @ [Inr p]) =
    stream_task handlers (map Inr ps) @ (case stream_reply handlers p of None \<Rightarrow> [] | Some ret \<Rightarrow> [ret])"
  by (induction ps) (auto split: option.split)

lemma replies_receive:
  "replies handlers (receive handlers now cid p s) =
    replies handlers s @ (case stream_reply handlers p of None \<Rightarrow> [] | Some ret \<Rightarrow> [ret])"
  using stream_task_snoc[of handlers "map snd (bs_seen s)" p]
  by (simp add: replies_def receive_def Let_def split: option.split)

lemma stream_okI:
  assumes "unsent_ok s unsent" "bs_yielded s @ bs_queue s @ unsent = msg # replies handlers s" "length (bs_queue s) \<le> STREAM_CAPACITY"
    "bs_phase s \<in> {Opening, Opened, Closed None} \<longrightarrow> bs_seen s = []"
    "bs_health s = (health \<and> (\<forall>cid. bs_phase s \<noteq> Closed (Some cid)))" "bs_last_active s = last (t # map fst (bs_seen s))"
  shows "stream_ok handlers msg health t s"
  using assms unfolding stream_ok_def by blast

lemma stream_step_ok [wf_preserve]:
  assumes "stream_step handlers s s'" "stream_ok handlers msg health t s"
  shows "stream_ok handlers msg health t s'"
proof -
  from assms(2) obtain unsent where
    u: "unsent_ok s unsent" "bs_yielded s @ bs_queue s @ unsent = msg # replies handlers s" and
    r: "length (bs_queue s) \<le> STREAM_CAPACITY" "bs_phase s \<in> {Opening, Opened, Closed None} \<longrightarrow> bs_seen s = []"
      "bs_health s = (health \<and> (\<forall>cid. bs_phase s \<noteq> Closed (Some cid)))" "bs_last_active s = last (t # map fst (bs_seen s))"
    unfolding stream_ok_def by blast
  from assms(1) show ?thesis
  proof (cases rule: stream_step.cases)
    case (message cid now response)
    then have "unsent = []" using u(1) by (simp add: unsent_ok_def)
    then show ?thesis using u(2) r message replies_receive[of handlers now cid response s]
      by (intro stream_okI[where unsent = "case stream_reply handlers response of None \<Rightarrow> [] | Some ret \<Rightarrow> [ret]"])
        (auto simp: unsent_ok_def receive_def Let_def split: option.splits)
  next
    case (sent cid ret)
    then have "unsent = [ret]" using u(1) by (simp add: unsent_ok_def)
    then show ?thesis using u(2) r sent by (intro stream_okI[where unsent = "[]"]) (auto simp: unsent_ok_def replies_def)
  next
    case (yield request q)
    then show ?thesis using u r
      by (intro stream_okI[where unsent = unsent]) (auto simp: unsent_ok_def replies_def split: stream_phase.splits option.splits)
  next
    case local_dropped
    then show ?thesis using u r
      by (intro stream_okI[where unsent = unsent]) (auto simp: unsent_ok_def replies_def split: stream_phase.splits option.splits)
  qed (use u r in \<open>intro stream_okI[where unsent = unsent]; simp add: unsent_ok_def replies_def served_stream_closed_def\<close>)+
qed

section \<open>Property\<close>

text \<open>
  C13: the server's messages are answered in order: in every run of a stream, what went to the server and
  what waits for it is the set-up message and then one reply for each of the server's messages that a
  handler answers, in the order of the messages; only the last may still wait for room, or be lost when
  nobody reads the stream any more. Nothing is handled before the connection id is known, the connection
  counts as active since the last message, and the stream takes the connection's health away exactly
  when it ends after it served.
\<close>

theorem stream_answers_in_order:
  assumes "setup_stream (Ok msg) health t = Ok s0" "stream_reach handlers s0 s"
  shows "(\<exists>unsent. bs_yielded s @ bs_queue s @ unsent = msg # stream_task handlers (map (Inr \<circ> snd) (bs_seen s)) \<and> length unsent \<le> 1 \<and>
      (unsent \<noteq> [] \<and> bs_local s \<longrightarrow> (\<exists>cid ret. bs_phase s = Sending cid ret \<and> unsent = [ret]))) \<and>
    length (bs_queue s) \<le> 1024 \<and> (bs_phase s \<in> {Opening, Opened, Closed None} \<longrightarrow> bs_seen s = []) \<and>
    bs_health s = (health \<and> (\<forall>cid. bs_phase s \<noteq> Closed (Some cid))) \<and> bs_last_active s = last (t # map fst (bs_seen s))"
proof -
  from assms(1) have "stream_ok handlers msg health t s0"
    by (auto simp: setup_stream_def STREAM_CAPACITY_def replies_def unsent_ok_def intro!: stream_okI[where unsent = "[]"])
  with assms(2) have "stream_ok handlers msg health t s" by (induction) (auto intro: stream_step_ok)
  then obtain unsent where "unsent_ok s unsent" "bs_yielded s @ bs_queue s @ unsent = msg # replies handlers s"
      "length (bs_queue s) \<le> STREAM_CAPACITY" "bs_phase s \<in> {Opening, Opened, Closed None} \<longrightarrow> bs_seen s = []"
      "bs_health s = (health \<and> (\<forall>cid. bs_phase s \<noteq> Closed (Some cid)))" "bs_last_active s = last (t # map fst (bs_seen s))"
    unfolding stream_ok_def by blast
  then show ?thesis unfolding STREAM_CAPACITY_def replies_def
    by (intro conjI exI[of _ unsent]) (auto simp: unsent_ok_def split: stream_phase.splits option.splits)
qed

definition demo_message :: "string \<Rightarrow> payload" where
  "demo_message kind = \<lparr>p_metadata = Some \<lparr>m_type = kind, m_client_ip = [], m_headers = Map.empty\<rparr>, p_body = None\<rparr>"

definition demo_stream :: bi_stream where
  "demo_stream = \<lparr>bs_phase = Serving ''c'', bs_queue = [demo_message ''r''], bs_local = True, bs_health = True, bs_last_active = 7,
    bs_yielded = [demo_message ''s''], bs_seen = [(7, demo_message ''q'')]\<rparr>"

lemma demo_stream_reach:
  "\<exists>s0. setup_stream (Ok (demo_message ''s'')) True 3 = Ok s0 \<and> stream_reach [''q'' \<mapsto> \<lambda>p. Some (demo_message ''r'')] s0 demo_stream"
proof -
  let ?h = "[''q'' \<mapsto> \<lambda>p. Some (demo_message ''r'')]"
  let ?s0 = "\<lparr>bs_phase = Opening, bs_queue = [demo_message ''s''], bs_local = True, bs_health = True, bs_last_active = 3,
    bs_yielded = [], bs_seen = []\<rparr>"
  note go = stream_reach.step
  note 1 = go[OF stream_reach.start[of ?h ?s0] yield[of ?s0 "demo_message ''s''" "[]"], simplified]
  note 2 = go[OF 1 opened, simplified]
  note 3 = go[OF 2 told_id[where cid = "''c''"], simplified]
  note 4 = go[OF 3 message[where cid = "''c''" and now = 7 and response = "demo_message ''q''"], simplified]
  have 5: "stream_reply ?h (demo_message ''q'') = Some (demo_message ''r'')" by (simp add: stream_reply_def demo_message_def)
  note 6 = go[OF 4[unfolded receive_def 5] sent[where cid = "''c''" and ret = "demo_message ''r''"], simplified]
  have "stream_reach ?h ?s0 demo_stream" using 6 by (simp add: demo_stream_def STREAM_CAPACITY_def)
  then show ?thesis by (simp add: setup_stream_def)
qed

lemma stream_answers_in_order_witness:
  "\<exists>unsent. bs_yielded demo_stream @ bs_queue demo_stream @ unsent = [demo_message ''s'', demo_message ''r''] \<and> bs_health demo_stream"
proof -
  obtain s0 where "setup_stream (Ok (demo_message ''s'')) True 3 = Ok s0"
    "stream_reach [''q'' \<mapsto> \<lambda>p. Some (demo_message ''r'')] s0 demo_stream" using demo_stream_reach by blast
  from stream_answers_in_order[OF this] show ?thesis
    by (simp add: demo_stream_def stream_reply_def demo_message_def)
qed

end
