(* ===== verification/EventFlow.thy ===== *)
theory EventFlow
  imports Observable
begin

text \<open>
  The way of a change from a push or poll to the listeners (src/naming/observable/service\_info\_observable.rs),
  with everything that runs at the same time: several emissions, each deciding, storing and sending; the
  bounded channel; the observer task; a task for each notification; and calls that register and
  unregister listeners.
\<close>

section \<open>Emissions in parts\<close>

text \<open>\<^verbatim>\<open>process_service_info\<close>: the look at the cache, whose lock is released, and the insertion.\<close>

definition emit_decide :: "ServiceInfo \<Rightarrow> emitter \<Rightarrow> bool" where
  "emit_decide s e =
    (\<not> is_empty_or_error_push e s \<and>
     is_changed_service_info (cache_get (e_cache e) (get_key_without_clusters (name s) (group_name s))) s)"

definition emit_store :: "ServiceInfo to_vec \<Rightarrow> ServiceInfo \<Rightarrow> emitter \<Rightarrow> emitter \<times> store_cmd list" where
  "emit_store to_vec s e =
    (let (_, c', cmds) = cache_insert to_vec (get_key_without_clusters (name s) (group_name s)) s (e_cache e)
     in (e\<lparr>e_cache := c'\<rparr>, cmds))"

lemma process_in_parts:
  "process_service_info to_vec s e = (if emit_decide s e then (let (e', cmds) = emit_store to_vec s e in (True, e', cmds)) else (False, e, []))"
  by (simp add: process_service_info_def emit_decide_def emit_store_def Let_def split: prod.split)

section \<open>Runs\<close>

datatype emission = Deciding ServiceInfo | Storing ServiceInfo | Sending ServiceInfo

text \<open>
  \<open>ef_changes\<close>, \<open>ef_observed\<close> and \<open>ef_told\<close> record what was stored, what the observer took from the
  channel with the listeners it found, and what listeners were told.
\<close>

record 'l event_flow =
  ef_emitter :: emitter
  ef_emissions :: "emission list"
  ef_channel :: "ServiceInfo list"
  ef_registry :: "'l observers"
  ef_spawned :: "('l \<times> NamingChangeEvent) list"
  ef_changes :: "ServiceInfo list"
  ef_observed :: "(ServiceInfo \<times> 'l list) list"
  ef_told :: "('l \<times> NamingChangeEvent) list"

definition EVENT_CAPACITY :: nat where "EVENT_CAPACITY = 1024"

text \<open>\<^verbatim>\<open>create\<close>: an empty channel and registry, and the cache of the service.\<close>

definition create_event_flow :: "ServiceInfo cache \<Rightarrow> bool \<Rightarrow> 'l event_flow" where
  "create_event_flow cache protection =
    \<lparr>ef_emitter = \<lparr>e_cache = cache, push_empty_protection = protection\<rparr>, ef_emissions = [], ef_channel = [],
     ef_registry = Map.empty, ef_spawned = [], ef_changes = [], ef_observed = [], ef_told = []\<rparr>"

definition observe_step :: "ServiceInfo \<Rightarrow> ServiceInfo list \<Rightarrow> 'l event_flow \<Rightarrow> 'l event_flow" where
  "observe_step s rest f =
    f\<lparr>ef_channel := rest, ef_spawned := ef_spawned f @ observe_one s (ef_registry f),
      ef_observed := ef_observed f @ [(s, observers_of (get_key_without_clusters (name s) (group_name s)) (ef_registry f))]\<rparr>"

inductive flow_step :: "'l event_flow \<Rightarrow> 'l event_flow \<Rightarrow> bool" where
  arrive: "flow_step f (f\<lparr>ef_emissions := ef_emissions f @ [Deciding s]\<rparr>)"
| decide: "i < length (ef_emissions f) \<Longrightarrow> ef_emissions f ! i = Deciding s \<Longrightarrow> emit_decide s (ef_emitter f) \<Longrightarrow>
    flow_step f (f\<lparr>ef_emissions := (ef_emissions f)[i := Storing s]\<rparr>)"
| ignore: "i < length (ef_emissions f) \<Longrightarrow> ef_emissions f ! i = Deciding s \<Longrightarrow> \<not> emit_decide s (ef_emitter f) \<Longrightarrow>
    flow_step f (f\<lparr>ef_emissions := vec_remove i (ef_emissions f)\<rparr>)"
| store: "i < length (ef_emissions f) \<Longrightarrow> ef_emissions f ! i = Storing s \<Longrightarrow> emit_store to_vec s (ef_emitter f) = (e', cmds) \<Longrightarrow>
    flow_step f (f\<lparr>ef_emissions := (ef_emissions f)[i := Sending s], ef_emitter := e', ef_changes := ef_changes f @ [s]\<rparr>)"
| send: "i < length (ef_emissions f) \<Longrightarrow> ef_emissions f ! i = Sending s \<Longrightarrow> length (ef_channel f) < EVENT_CAPACITY \<Longrightarrow>
    flow_step f (f\<lparr>ef_emissions := vec_remove i (ef_emissions f), ef_channel := ef_channel f @ [s]\<rparr>)"
| observe: "ef_channel f = s # rest \<Longrightarrow> flow_step f (observe_step s rest f)"
| deliver: "i < length (ef_spawned f) \<Longrightarrow>
    flow_step f (f\<lparr>ef_spawned := vec_remove i (ef_spawned f), ef_told := ef_told f @ [ef_spawned f ! i]\<rparr>)"
| subscribe: "flow_step f (f\<lparr>ef_registry := subscribe key l (ef_registry f)\<rparr>)"
| unsubscribe: "flow_step f (f\<lparr>ef_registry := unsubscribe key l (ef_registry f)\<rparr>)"

inductive flow_reach :: "'l event_flow \<Rightarrow> 'l event_flow \<Rightarrow> bool" for f0 where
  start: "flow_reach f0 f0"
| step: "flow_reach f0 f \<Longrightarrow> flow_step f f' \<Longrightarrow> flow_reach f0 f'"

section \<open>Invariant\<close>

fun sending :: "emission \<Rightarrow> ServiceInfo multiset" where
  "sending (Sending s) = {#s#}"
| "sending _ = {#}"

definition notifications :: "(ServiceInfo \<times> 'l list) list \<Rightarrow> ('l \<times> NamingChangeEvent) multiset" where
  "notifications obs = mset (concat (map (\<lambda>(s, ls). map (\<lambda>l. (l, event_of s)) ls) obs))"

definition flow_ok :: "'l event_flow \<Rightarrow> bool" where
  "flow_ok f =
    (mset (ef_changes f) = mset (map fst (ef_observed f)) + mset (ef_channel f) + \<Sum>\<^sub># (image_mset sending (mset (ef_emissions f))) \<and>
     notifications (ef_observed f) = mset (ef_told f) + mset (ef_spawned f) \<and>
     length (ef_channel f) \<le> EVENT_CAPACITY \<and>
     (\<forall>k. distinct (observers_of k (ef_registry f))) \<and> (\<forall>(s, ls)\<in>set (ef_observed f). distinct ls))"

lemma sending_update:
  assumes "i < length es"
  shows "\<Sum>\<^sub># (image_mset sending (mset (es[i := e]))) + sending (es ! i) = \<Sum>\<^sub># (image_mset sending (mset es)) + sending e"
    "\<Sum>\<^sub># (image_mset sending (mset (vec_remove i es))) + sending (es ! i) = \<Sum>\<^sub># (image_mset sending (mset es))"
proof -
  have es: "mset es = add_mset (es ! i) (mset (vec_remove i es))" using vec_remove_mset[OF assms] by simp
  have "mset (es[i := e]) = add_mset e (mset es - {#es ! i#})" using mset_update[OF assms] .
  then show "\<Sum>\<^sub># (image_mset sending (mset (es[i := e]))) + sending (es ! i) = \<Sum>\<^sub># (image_mset sending (mset es)) + sending e"
    unfolding es by simp
  show "\<Sum>\<^sub># (image_mset sending (mset (vec_remove i es))) + sending (es ! i) = \<Sum>\<^sub># (image_mset sending (mset es))"
    unfolding es by simp
qed

lemma registry_distinct:
  assumes "\<forall>k. distinct (observers_of k m)"
  shows "\<forall>k. distinct (observers_of k (subscribe key l m))" "\<forall>k. distinct (observers_of k (unsubscribe key l m))"
  using assms subscribe_members[of key m l] unsubscribe_members[of key m l] other_key_untouched[of _ key l m] by metis+

lemma flow_step_ok [wf_preserve]:
  assumes "flow_step f f'" "flow_ok f"
  shows "flow_ok f'"
  using assms(1)
proof (cases rule: flow_step.cases)
  case (decide i s)
  then show ?thesis using assms(2) sending_update(1)[OF decide(2), of "Storing s"] by (simp add: flow_ok_def)
next
  case (ignore i s)
  then show ?thesis using assms(2) sending_update(2)[OF ignore(2)] by (simp add: flow_ok_def)
next
  case (store i s to_vec e' cmds)
  then show ?thesis using assms(2) sending_update(1)[OF store(2), of "Sending s"] by (simp add: flow_ok_def)
next
  case (send i s)
  then show ?thesis using assms(2) sending_update(2)[OF send(2)] by (simp add: flow_ok_def)
next
  case (observe s rest)
  then show ?thesis using assms(2) by (auto simp: flow_ok_def observe_step_def notifications_def observe_one_pairs service_key_def)
next
  case (deliver i)
  then show ?thesis using assms(2) vec_remove_mset[OF deliver(2)] by (simp add: flow_ok_def)
next
  case (subscribe key l)
  have "flow_ok f \<Longrightarrow> \<forall>k. distinct (observers_of k (subscribe key l (ef_registry f)))" by (simp add: flow_ok_def registry_distinct)
  then show ?thesis using assms(2) subscribe by (simp add: flow_ok_def)
next
  case (unsubscribe key l)
  have "flow_ok f \<Longrightarrow> \<forall>k. distinct (observers_of k (unsubscribe key l (ef_registry f)))" by (simp add: flow_ok_def registry_distinct)
  then show ?thesis using assms(2) unsubscribe by (simp add: flow_ok_def)
qed (use assms(2) in \<open>simp add: flow_ok_def\<close>)

text \<open>The cache holds what it held at the start or what a change stored under its key.\<close>

definition stored_from :: "ServiceInfo cache \<Rightarrow> 'l event_flow \<Rightarrow> bool" where
  "stored_from cache f = (\<forall>k s. cache_get (e_cache (ef_emitter f)) k = Some s \<longrightarrow>
     cache_get cache k = Some s \<or> (s \<in> set (ef_changes f) \<and> service_key s = k))"

lemma flow_step_stored:
  assumes "flow_step f f'" "stored_from cache f"
  shows "stored_from cache f'"
  using assms(1)
proof (cases rule: flow_step.cases)
  case (store i s to_vec e' cmds)
  then have "cache_get (e_cache e') = (cache_get (e_cache (ef_emitter f)))(service_key s \<mapsto> s)"
    by (auto simp: emit_store_def service_key_def case_prod_unfold cache_insert_def cache_get_def Let_def)
  then show ?thesis using assms(2) store by (auto simp: stored_from_def)
qed (use assms(2) in \<open>auto simp: stored_from_def observe_step_def\<close>)

section \<open>Properties\<close>

text \<open>
  C19: no change is lost or told twice: in every run, with any number of emissions at a time, each change
  stored in the cache is on its way to the observer exactly once, and what the observer takes from the
  channel becomes one notification for each listener registered at that moment, told once; when nothing
  is on its way any more, the listeners have been told of all changes. The channel stays within its
  bound, and the cache holds for each service what it started with or one of its changes.
\<close>

theorem changes_told_once:
  assumes "flow_reach (create_event_flow cache protection) f"
  shows "mset (ef_changes f) = mset (map fst (ef_observed f)) + mset (ef_channel f) + \<Sum>\<^sub># (image_mset sending (mset (ef_emissions f))) \<and>
    notifications (ef_observed f) = mset (ef_told f) + mset (ef_spawned f) \<and>
    (\<forall>(s, ls)\<in>set (ef_observed f). distinct ls) \<and> length (ef_channel f) \<le> 1024 \<and>
    (ef_emissions f = [] \<and> ef_channel f = [] \<and> ef_spawned f = [] \<longrightarrow>
      mset (map fst (ef_observed f)) = mset (ef_changes f) \<and> mset (ef_told f) = notifications (ef_observed f)) \<and>
    (\<forall>k s. cache_get (e_cache (ef_emitter f)) k = Some s \<longrightarrow>
      cache_get cache k = Some s \<or> (s \<in> set (ef_changes f) \<and> service_key s = k))"
proof -
  let ?f0 = "create_event_flow cache protection :: 'a event_flow"
  have "flow_ok ?f0" "stored_from cache ?f0"
    by (simp_all add: flow_ok_def stored_from_def create_event_flow_def notifications_def observers_of_def)
  with assms have "flow_ok f \<and> stored_from cache f"
    by (induction) (auto intro: flow_step_ok flow_step_stored)
  then show ?thesis unfolding flow_ok_def stored_from_def EVENT_CAPACITY_def by auto
qed

text \<open>A run with a listener that is told of one change.\<close>

definition demo_flow :: "nat event_flow" where
  "demo_flow = \<lparr>ef_emitter = fst (emit_store (\<lambda>_. Inl []) (demo_service 1 ''a'') demo_emitter), ef_emissions = [], ef_channel = [],
     ef_registry = [''G@@svc'' \<mapsto> [7]], ef_spawned = [], ef_changes = [demo_service 1 ''a''],
     ef_observed = [(demo_service 1 ''a'', [7])], ef_told = [(7, event_of (demo_service 1 ''a''))]\<rparr>"

lemma demo_decides: "emit_decide (demo_service t x) demo_emitter"
  by (simp add: emit_decide_def is_empty_or_error_push_def is_changed_service_info_def demo_emitter_def cache_get_def demo_service_def
      validate_def is_all_ips_def ServiceInfo_default_def ServiceInstance_default_def)

lemma demo_service_key: "get_key_without_clusters (name (demo_service t x)) (group_name (demo_service t x)) = ''G@@svc''"
  by (simp add: get_key_without_clusters_def get_grouped_service_name_def demo_service_def SERVICE_INFO_SEPARATOR_def ServiceInfo_default_def)

lemma demo_flow_reach: "flow_reach (create_event_flow (e_cache demo_emitter) True) demo_flow"
proof -
  let ?s = "demo_service 1 ''a''" and ?f0 = "create_event_flow (e_cache demo_emitter) True :: nat event_flow"
  obtain e' cmds where e': "emit_store (\<lambda>_. Inl []) ?s demo_emitter = (e', cmds)" by fastforce
  have e: "\<lparr>e_cache = e_cache demo_emitter, push_empty_protection = True\<rparr> = demo_emitter" by (simp add: demo_emitter_def)
  note go = flow_reach.step
  note 1 = go[OF go[OF flow_reach.start[of ?f0] arrive[of _ ?s]] decide[of 0 _ ?s], simplified create_event_flow_def e, simplified, OF demo_decides]
  note 2 = go[OF 1 store[of 0 _ ?s "\<lambda>_. Inl []" e' cmds], simplified, OF e']
  note 3 = go[OF go[OF 2 send[of 0 _ ?s]] subscribe[of _ "''G@@svc''" 7], simplified, unfolded EVENT_CAPACITY_def, simplified]
  note 4 = go[OF 3 observe[of _ ?s "[]"], simplified]
  have o: "observe_one ?s (subscribe ''G@@svc'' 7 Map.empty) = [(7 :: nat, event_of ?s)]"
    "observers_of ''G@@svc'' (subscribe ''G@@svc'' (7 :: nat) Map.empty) = [7]"
    by (simp_all add: observe_one_pairs service_key_def demo_service_key observers_of_def subscribe_def)
  note 5 = go[OF 4 deliver[of 0], simplified observe_step_def, simplified, unfolded o, simplified]
  show ?thesis using 5 by (simp add: demo_flow_def e' create_event_flow_def e demo_service_key observers_of_def vec_remove_def subscribe_def)
qed

lemma changes_told_once_witness:
  "mset (ef_told demo_flow) = notifications (ef_observed demo_flow) \<and> ef_told demo_flow = [(7, event_of (demo_service 1 ''a''))]"
proof -
  have "notifications (ef_observed demo_flow) = mset (ef_told demo_flow) + mset (ef_spawned demo_flow)"
    using changes_told_once[OF demo_flow_reach] by (elim conjE)
  then show ?thesis by (simp add: demo_flow_def)
qed

text \<open>
  The look and the insertion are not one step: of two emissions of one service that look at the cache at
  the same time, as they may with more than one worker thread, the older can overwrite the newer.
\<close>

lemma concurrent_emissions_go_back:
  "\<exists>f. flow_reach (create_event_flow (e_cache demo_emitter) True :: nat event_flow) f \<and>
    ef_changes f = [demo_service 2 ''b'', demo_service 1 ''a''] \<and>
    cache_get (e_cache (ef_emitter f)) ''G@@svc'' = Some (demo_service 1 ''a'')"
proof -
  let ?a = "demo_service 1 ''a''" and ?b = "demo_service 2 ''b''" and ?f0 = "create_event_flow (e_cache demo_emitter) True :: nat event_flow"
  obtain e1 c1 where e1: "emit_store (\<lambda>_. Inl []) ?b demo_emitter = (e1, c1)" by fastforce
  obtain e2 c2 where e2: "emit_store (\<lambda>_. Inl []) ?a e1 = (e2, c2)" by fastforce
  have e: "\<lparr>e_cache = e_cache demo_emitter, push_empty_protection = True\<rparr> = demo_emitter" by (simp add: demo_emitter_def)
  note go = flow_reach.step
  note 1 = go[OF go[OF flow_reach.start[of ?f0] arrive[of _ ?a]] arrive[of _ ?b], simplified create_event_flow_def e, simplified]
  note 2 = go[OF 1 decide[of 0 _ ?a], simplified, OF demo_decides]
  note 3 = go[OF 2 decide[of 1 _ ?b], simplified, OF demo_decides]
  note 4 = go[OF 3 store[of 1 _ ?b "\<lambda>_. Inl []" e1 c1], simplified, OF e1]
  note 5 = go[OF 4 store[of 0 _ ?a "\<lambda>_. Inl []" e2 c2], simplified, OF e2]
  have "cache_get (e_cache e2) ''G@@svc'' = Some ?a"
    using e2 by (auto simp: emit_store_def demo_service_key case_prod_unfold cache_insert_def cache_get_def Let_def)
  then show ?thesis using 5 unfolding create_event_flow_def e by - (intro exI conjI, assumption, simp_all)
qed

end
