(* ===== verification/Failover.thy ===== *)
theory Failover
  imports GrpcClient Providers
begin

text \<open>
  A connection over a list of servers (src/common/remote/grpc and src/common/remote/server\_list): the
  state machine of nacos\_grpc\_connection.rs with the round robin service as the source of the address of
  each attempt, and the channel, layers and set-up of tonic.rs as the attempt. The futures of an attempt
  are resolved when they are polled, and pauses are counted, not waited for.
\<close>

section \<open>Runs\<close>

text \<open>
  What an attempt is made of: \<open>ap_make\<close> is the call of the tonic builder (None: it panics), \<open>ap_request\<close>
  and \<open>ap_stream\<close> what the servers answer, by the URI of the channel.
\<close>

record attempt_parts =
  ap_make :: "(string \<times> 16 word) result \<Rightarrow> tonic result option"
  ap_setup :: "payload result"
  ap_check :: "payload result"
  ap_from_slice :: "ServerCheckResponse from_slice"
  ap_err_slice :: "grpc_response from_slice"
  ap_request :: "string \<Rightarrow> payload \<Rightarrow> string + payload"
  ap_stream :: "string \<Rightarrow> payload list \<Rightarrow> string + (string + payload) list"

definition attempt_result :: "attempt_parts \<Rightarrow> tonic \<Rightarrow> string result" where
  "attempt_result ap t = init_attempt (ap_request ap (tn_endpoint_uri t)) (ap_stream ap (tn_endpoint_uri t))
    (ap_setup ap) (ap_check ap) (ap_from_slice ap) (ap_err_slice ap) t"

definition attempt_env :: "attempt_parts \<Rightarrow> (string \<times> 16 word) result option \<Rightarrow> nat \<Rightarrow> poll_env" where
  "attempt_env ap address now =
    (case Option.bind address (ap_make ap) of
       None \<Rightarrow> \<lparr>pe_make = None, pe_init = None, pe_service = None, pe_slept = True, pe_now = now\<rparr>
     | Some (Inl e) \<Rightarrow> \<lparr>pe_make = Some (Err e), pe_init = None, pe_service = None, pe_slept = True, pe_now = now\<rparr>
     | Some (Inr t) \<Rightarrow> \<lparr>pe_make = Some (Ok ()), pe_init = Some (attempt_result ap t),
         pe_service = tonic_ready True (Some (Inr ())), pe_slept = True, pe_now = now\<rparr>)"

text \<open>The connection, its server list, the attempt under way, and what was tried and slept.\<close>

record failover_run =
  fr_conn :: conn
  fr_servers :: "provider polling"
  fr_address :: "(string \<times> 16 word) result option"
  fr_attempts :: "(string \<times> 16 word) result list"
  fr_slept :: nat

definition next_address :: "fetch_env \<Rightarrow> failover_run \<Rightarrow> failover_run" where
  "next_address fe s =
    (let (address, servers) = polling_call (current_server_list fe) (fr_servers s)
     in s\<lparr>fr_servers := servers, fr_address := Some address, fr_attempts := fr_attempts s @ [address]\<rparr>)"

text \<open>An iteration of \<^verbatim>\<open>poll_ready\<close>: an idle connection takes the next address. None is a panic.\<close>

definition failover_iter ::
    "attempt_parts \<Rightarrow> fetch_env \<Rightarrow> nat \<Rightarrow> failover_run \<Rightarrow> (poll_outcome option \<times> failover_run) option" where
  "failover_iter ap fe now s =
    (let c = fr_conn s;
         s = (if \<not> given_up c \<and> cn_state c = Idle then next_address fe s else s);
         (out, c') = poll_iter (attempt_env ap (fr_address s) now) c
     in if \<not> given_up c \<and> cn_state c = Connecting \<and> Option.bind (fr_address s) (ap_make ap) = None then None
        else Some (out, s\<lparr>fr_conn := c',
          fr_slept := fr_slept s + (case cn_state c of Retry secs \<Rightarrow> if given_up c then 0 else secs | _ \<Rightarrow> 0)\<rparr>))"

fun failover_poll :: "attempt_parts \<Rightarrow> fetch_env \<Rightarrow> nat \<Rightarrow> nat \<Rightarrow> failover_run \<Rightarrow> (poll_outcome \<times> failover_run) option" where
  "failover_poll ap fe now 0 s = None"
| "failover_poll ap fe now (Suc n) s =
    (case failover_iter ap fe now s of
       None \<Rightarrow> None
     | Some (Some out, s') \<Rightarrow> Some (out, s')
     | Some (None, s') \<Rightarrow> failover_poll ap fe now n s')"

section \<open>Lemmas\<close>

lemma given_up_upd:
  "given_up (c\<lparr>cn_state := x\<rparr>) = given_up c" "given_up (c\<lparr>cn_watch := w\<rparr>) = given_up c"
  by (simp_all add: given_up_def)

text \<open>The iterations of an attempt from an idle connection.\<close>

lemma iter_idle:
  assumes "\<not> given_up (fr_conn s)" "cn_state (fr_conn s) = Idle"
    "polling_call (current_server_list fe) (fr_servers s) = (a, servers)"
  shows "failover_iter ap fe now s = Some (None, s\<lparr>
      fr_conn := (fr_conn s)\<lparr>cn_watch := cn_watch (fr_conn s) @ [None], cn_state := Connecting\<rparr>,
      fr_servers := servers, fr_address := Some a, fr_attempts := fr_attempts s @ [a]\<rparr>)"
  using assms by (cases s) (simp add: failover_iter_def next_address_def poll_iter_def)

lemma iter_connecting:
  assumes "\<not> given_up (fr_conn s)" "cn_state (fr_conn s) = Connecting" "fr_address s = Some a" "ap_make ap a = Some (Ok t)"
  shows "failover_iter ap fe now s = Some (None, s\<lparr>fr_conn := (fr_conn s)\<lparr>cn_state := Initializing\<rparr>\<rparr>)"
  using assms by (cases s) (simp add: failover_iter_def poll_iter_def attempt_env_def)

lemma iter_initializing:
  assumes "\<not> given_up (fr_conn s)" "cn_state (fr_conn s) = Initializing" "fr_address s = Some a" "ap_make ap a = Some (Ok t)"
  shows "failover_iter ap fe now s = Some (None, s\<lparr>fr_conn := (case attempt_result ap t of
      Inl e \<Rightarrow> start_retry (fr_conn s)
    | Inr cid \<Rightarrow> (fr_conn s)\<lparr>cn_watch := cn_watch (fr_conn s) @ [Some cid], cn_retry_count := 0, cn_health := True, cn_last_active := now,
        cn_initialized := True, cn_state := Connected, cn_connection_id := Some cid, cn_streams := cid # cn_streams (fr_conn s)\<rparr>)\<rparr>)"
  using assms by (cases s) (simp add: failover_iter_def poll_iter_def attempt_env_def split: sum.split)

lemma iter_retry:
  assumes "\<not> given_up (fr_conn s)" "cn_state (fr_conn s) = Retry secs"
  shows "failover_iter ap fe now s = Some (None, s\<lparr>fr_conn := (fr_conn s)\<lparr>cn_state := Idle\<rparr>, fr_slept := fr_slept s + secs\<rparr>)"
proof -
  have "pe_slept (attempt_env ap (fr_address s) now)" by (simp add: attempt_env_def split: option.split sum.split)
  then show ?thesis using assms by (cases s) (simp add: failover_iter_def poll_iter_def)
qed

lemma iter_connected:
  assumes "\<not> given_up (fr_conn s)" "cn_state (fr_conn s) = Connected" "fr_address s = Some a" "ap_make ap a = Some (Ok t)"
  shows "failover_iter ap fe now s = Some (if cn_health (fr_conn s) then (Some PollReady, s)
    else (None, s\<lparr>fr_conn := start_retry (fr_conn s)\<rparr>))"
  using assms by (cases s) (simp add: failover_iter_def poll_iter_def attempt_env_def tonic_ready_def)

lemmas iters = iter_idle iter_connecting iter_initializing iter_retry iter_connected

lemma attempt_fails:
  assumes "\<not> given_up (fr_conn s)" "\<not> given_up (start_retry (fr_conn s))" "cn_state (fr_conn s) = Idle"
    "polling_call (current_server_list fe) (fr_servers s) = (a, servers)" "ap_make ap a = Some (Ok t)" "attempt_result ap t = Err e"
  shows "\<exists>s'. failover_poll ap fe now (n + 4) s = failover_poll ap fe now n s' \<and> fr_servers s' = servers \<and>
    fr_attempts s' = fr_attempts s @ [a] \<and> fr_slept s' = fr_slept s + sleep_time (cn_retry_count (fr_conn s) + 1) \<and>
    fr_conn s' = (fr_conn s)\<lparr>cn_watch := cn_watch (fr_conn s) @ [None], cn_retry_count := cn_retry_count (fr_conn s) + 1, cn_state := Idle\<rparr>"
proof -
  have g: "\<not> given_up ((fr_conn s)\<lparr>cn_watch := w, cn_retry_count := Suc (cn_retry_count (fr_conn s)), cn_state := x\<rparr>)" for w x
    using assms(2) by (simp add: start_retry_def given_up_def)
  show ?thesis using assms g
    by (simp add: numeral_eq_Suc iter_idle iter_connecting iter_initializing iter_retry given_up_upd start_retry_def)
      (intro exI conjI, rule refl, simp_all)
qed

lemma attempt_succeeds:
  assumes "\<not> given_up (fr_conn s)" "cn_state (fr_conn s) = Idle"
    "polling_call (current_server_list fe) (fr_servers s) = (a, servers)" "ap_make ap a = Some (Ok t)" "attempt_result ap t = Ok cid"
  shows "\<exists>s'. failover_poll ap fe now 4 s = Some (PollReady, s') \<and>
    fr_attempts s' = fr_attempts s @ [a] \<and> fr_slept s' = fr_slept s \<and> fr_address s' = Some a \<and>
    fr_conn s' = (fr_conn s)\<lparr>cn_watch := cn_watch (fr_conn s) @ [None, Some cid], cn_retry_count := 0, cn_health := True, cn_last_active := now,
        cn_initialized := True, cn_state := Connected, cn_connection_id := Some cid, cn_streams := cid # cn_streams (fr_conn s)\<rparr>"
  using assms
  by (simp add: numeral_eq_Suc iter_idle iter_connecting iter_initializing iter_connected given_up_upd given_up_def)

section \<open>Rotations\<close>

definition rotated :: "(string \<times> 16 word) list \<Rightarrow> 64 word \<Rightarrow> nat \<Rightarrow> string \<times> 16 word" where
  "rotated parsed i j = parsed ! ((unat i + j) mod length parsed)"

text \<open>A connection that was never made may fail this often before it gives up.\<close>

definition may_fail :: "nat \<Rightarrow> conn \<Rightarrow> bool" where
  "may_fail k c = (cn_initialized c \<or> cn_retry_count c + k < (case cn_max_retries c of None \<Rightarrow> 1 | Some n \<Rightarrow> n))"

lemma static_polling_call:
  assumes "parse_host_port_vec l = Inr parsed" "provider s = StaticProvider l"
  shows "polling_call (current_server_list fe) s =
    (Ok (rotated parsed (poll_index s) 0), \<lparr>provider = StaticProvider l, poll_index = poll_index s + 1\<rparr>)"
  using assms by (simp add: polling_call_def Let_def rotated_def)

lemma rotated_suc: "unat i + 1 < 2 ^ 64 \<Longrightarrow> rotated parsed (i + 1) j = rotated parsed i (Suc j)"
  using unat_suc_word[of i] by (simp add: rotated_def)

lemma rotated_in: "parsed \<noteq> [] \<Longrightarrow> rotated parsed i j \<in> set parsed"
  by (simp add: rotated_def)

lemma rotation_reaches:
  assumes "a \<in> set parsed"
  shows "\<exists>j<length parsed. rotated parsed i j = a"
proof -
  have n: "length parsed > 0" using assms by (cases parsed) auto
  obtain m where m: "m < length parsed" "parsed ! m = a" using assms by (auto simp: in_set_conv_nth)
  have "m \<in># image_mset (\<lambda>j. (unat i + j) mod length parsed) (mset [0..<length parsed])"
    unfolding mset_rotation[OF n] using m(1) by simp
  then show ?thesis using m(2) by (auto simp: rotated_def)
qed

lemma rotation_finds:
  assumes l: "parse_host_port_vec l = Inr parsed" and tn: "\<forall>a\<in>set parsed. ap_make ap (Ok a) = Some (Ok (tn a))"
    and "provider (fr_servers s) = StaticProvider l" "unat (poll_index (fr_servers s)) + k < 2 ^ 64"
    "cn_state (fr_conn s) = Idle" "may_fail k (fr_conn s)"
    "\<forall>j<k. \<not> is_ok (attempt_result ap (tn (rotated parsed (poll_index (fr_servers s)) j)))"
    "attempt_result ap (tn (rotated parsed (poll_index (fr_servers s)) k)) = Ok cid"
  shows "\<exists>s'. failover_poll ap fe now (4 * Suc k) s = Some (PollReady, s') \<and>
    fr_attempts s' = fr_attempts s @ map (\<lambda>j. Ok (rotated parsed (poll_index (fr_servers s)) j)) [0..<Suc k] \<and>
    fr_slept s' = fr_slept s + (\<Sum>j<k. sleep_time (cn_retry_count (fr_conn s) + Suc j)) \<and>
    fr_address s' = Some (Ok (rotated parsed (poll_index (fr_servers s)) k)) \<and>
    cn_watch (fr_conn s') = cn_watch (fr_conn s) @ replicate (Suc k) None @ [Some cid] \<and>
    cn_connection_id (fr_conn s') = Some cid \<and> cn_health (fr_conn s') \<and> cn_state (fr_conn s') = Connected"
  using assms(3-)
proof (induction k arbitrary: s)
  case 0
  let ?a = "rotated parsed (poll_index (fr_servers s)) 0"
  have "parsed \<noteq> []" using parse_host_port_vec_nonempty[OF l] by simp
  then have m: "ap_make ap (Ok ?a) = Some (Ok (tn ?a))" using tn rotated_in by blast
  have g: "\<not> given_up (fr_conn s)" using 0(4) by (auto simp: may_fail_def given_up_def)
  from attempt_succeeds[OF g 0(3) static_polling_call[OF l 0(1), of fe] m 0(6), of now] show ?case by auto
next
  case (Suc k)
  let ?i = "poll_index (fr_servers s)" let ?a = "rotated parsed ?i 0" let ?c = "fr_conn s"
  have "parsed \<noteq> []" using parse_host_port_vec_nonempty[OF l] by simp
  then have m: "ap_make ap (Ok ?a) = Some (Ok (tn ?a))" using tn rotated_in by blast
  have g: "\<not> given_up ?c" "\<not> given_up (start_retry ?c)" using Suc.prems(4) by (auto simp: may_fail_def given_up_def start_retry_def)
  obtain e where e: "attempt_result ap (tn ?a) = Err e"
    using Suc.prems(5) by (cases "attempt_result ap (tn ?a)") (auto simp: is_ok_iff)
  from attempt_fails[OF g Suc.prems(3) static_polling_call[OF l Suc.prems(1), of fe] m e, of now "4 * Suc k"] obtain s1 where
    s1: "failover_poll ap fe now (4 * Suc k + 4) s = failover_poll ap fe now (4 * Suc k) s1"
      "fr_servers s1 = \<lparr>provider = StaticProvider l, poll_index = ?i + 1\<rparr>" "fr_attempts s1 = fr_attempts s @ [Ok ?a]"
      "fr_slept s1 = fr_slept s + sleep_time (cn_retry_count ?c + 1)"
      "fr_conn s1 = ?c\<lparr>cn_watch := cn_watch ?c @ [None], cn_retry_count := cn_retry_count ?c + 1, cn_state := Idle\<rparr>" by blast
  have rot: "rotated parsed (?i + 1) j = rotated parsed ?i (Suc j)" for j using rotated_suc Suc.prems(2) by simp
  have "unat (?i + 1) = unat ?i + 1" using unat_suc_word Suc.prems(2) by simp
  then have "\<exists>s'. failover_poll ap fe now (4 * Suc k) s1 = Some (PollReady, s') \<and>
      fr_attempts s' = fr_attempts s1 @ map (\<lambda>j. Ok (rotated parsed (poll_index (fr_servers s1)) j)) [0..<Suc k] \<and>
      fr_slept s' = fr_slept s1 + (\<Sum>j<k. sleep_time (cn_retry_count (fr_conn s1) + Suc j)) \<and>
      fr_address s' = Some (Ok (rotated parsed (poll_index (fr_servers s1)) k)) \<and>
      cn_watch (fr_conn s') = cn_watch (fr_conn s1) @ replicate (Suc k) None @ [Some cid] \<and>
      cn_connection_id (fr_conn s') = Some cid \<and> cn_health (fr_conn s') \<and> cn_state (fr_conn s') = Connected"
    by (intro Suc.IH) (use Suc.prems s1 rot in \<open>auto simp: may_fail_def\<close>)
  moreover have "map (\<lambda>j. Ok (rotated parsed ?i j)) [0..<Suc (Suc k)] = Ok ?a # map (\<lambda>j. Ok (rotated parsed ?i (Suc j))) [0..<Suc k]"
    by (simp only: upt_conv_Cons[of 0 "Suc (Suc k)"] zero_less_Suc list.map map_Suc_upt[symmetric] map_map comp_def)
  moreover have "(\<Sum>j<Suc k. sleep_time (cn_retry_count ?c + Suc j)) =
      sleep_time (cn_retry_count ?c + 1) + (\<Sum>j<k. sleep_time (cn_retry_count ?c + 1 + Suc j))"
    unfolding sum.lessThan_Suc_shift by simp
  ultimately show ?case using s1 rot unfolding \<open>(\<Sum>j<Suc k. _ j) = _\<close> by (auto simp: add.commute)
qed

lemma events_append:
  "connected_events p (ws @ vs) = connected_events p ws @ connected_events (last (p # ws)) vs"
  "disconnected_events p (ws @ vs) = disconnected_events p ws @ disconnected_events (last (p # ws)) vs"
  by (induction ws arbitrary: p) auto

lemma reconnect_events:
  "connected_events p (replicate k None @ [Some cid]) = (if p = None \<or> 0 < k then [cid] else [])"
  "disconnected_events p (replicate k None @ [Some cid]) = (case p of Some old \<Rightarrow> if 0 < k then [old] else [] | None \<Rightarrow> [])"
  by (induction k arbitrary: p) (auto split: option.split)

lemma connected_answers:
  assumes "cn_state c = Connected" "\<And>sv. tn_unary_layer t sv = sv"
  shows "failover_send_request boxed (unary_exchange client t) later c p =
    (case client p of Inr r \<Rightarrow> Ok r | Inl status \<Rightarrow> Err (GrpcBufferRequest (boxed (TonicGrpcStatus status))))"
  by (simp add: failover_send_request_def conn_call_def assms unary_exchange_eq UnaryCallService_def recv_response_def
      unary_call_def split: sum.split)

section \<open>Property\<close>

text \<open>
  C10: failover: a connection that is lost finds a working server among those of its list. It tries the
  servers in the order of the list from where the last attempt left off, each at most once, until the
  first one that works, pausing at most 64 seconds before each attempt; it is ready under the id that
  server gave, its listeners are told of the one disconnect and the one new connection, and every request
  from then on is answered by that server.
\<close>

theorem failover_finds_server:
  assumes "conn_reach max_retries (fr_conn s)" "cn_state (fr_conn s) = Connected" "\<not> cn_health (fr_conn s)"
    "fr_address s = Some a0" "ap_make ap a0 = Some (Ok lost)" "i = poll_index (fr_servers s)"
    "parse_host_port_vec l = Inr parsed" "provider (fr_servers s) = StaticProvider l" "unat i + length parsed < 2 ^ 64"
    "stacks ustack" "stacks bstack" "gb_unary_layer b = None" "gb_bi_layer b = None"
    "ap_make ap = (\<lambda>address. tonic_builder_call tls ca_cert_path read_file build_uri address (built_tonic ustack bstack b))"
    "\<forall>a\<in>set parsed. ap_make ap (Ok a) = Some (Ok (tn a))" "works \<in> set parsed" "is_ok (attempt_result ap (tn works))"
  shows "\<exists>k cid s'. k < length parsed \<and> failover_poll ap fe now (4 * k + 6) s = Some (PollReady, s') \<and>
    fr_attempts s' = fr_attempts s @ map (\<lambda>j. Ok (rotated parsed i j)) [0..<Suc k] \<and>
    (\<forall>j<k. \<not> is_ok (attempt_result ap (tn (rotated parsed i j)))) \<and> attempt_result ap (tn (rotated parsed i k)) = Ok cid \<and>
    cn_connection_id (fr_conn s') = Some cid \<and> cn_health (fr_conn s') \<and> fr_slept s' \<le> fr_slept s + 64 * Suc k \<and>
    connected_events None (cn_watch (fr_conn s')) = connected_events None (cn_watch (fr_conn s)) @ [cid] \<and>
    disconnected_events None (cn_watch (fr_conn s')) =
      disconnected_events None (cn_watch (fr_conn s)) @ [the (cn_connection_id (fr_conn s))] \<and>
    (\<forall>p. failover_send_request boxed (unary_exchange (ap_request ap (tn_endpoint_uri (tn (rotated parsed i k)))) (tn (rotated parsed i k)))
        later (fr_conn s') p =
      (case ap_request ap (tn_endpoint_uri (tn (rotated parsed i k))) p of
         Inr r \<Rightarrow> Ok r | Inl status \<Rightarrow> Err (GrpcBufferRequest (boxed (TonicGrpcStatus status)))))"
proof -
  let ?c = "fr_conn s" let ?works = "\<lambda>j. is_ok (attempt_result ap (tn (rotated parsed i j)))"
  obtain j where j: "j < length parsed" "?works j" using rotation_reaches[OF assms(16), of i] assms(17) by auto
  define k where "k = (LEAST j. ?works j)"
  have k: "?works k" "k \<le> j" "\<forall>j<k. \<not> ?works j" unfolding k_def using LeastI[of ?works, OF j(2)] Least_le[of ?works, OF j(2)] not_less_Least by blast+
  then obtain cid where cid: "attempt_result ap (tn (rotated parsed i k)) = Ok cid" by (auto simp: is_ok_iff)
  from conn_reach_ok[OF assms(1)] assms(2) have ok: "cn_initialized ?c" "cn_watch ?c \<noteq> []" "last (cn_watch ?c) = cn_connection_id ?c"
    "cn_connection_id ?c \<noteq> None" by (simp_all add: conn_ok_def)
  let ?r = "cn_retry_count ?c + 1"
  let ?s2 = "s\<lparr>fr_conn := ?c\<lparr>cn_retry_count := ?r, cn_state := Idle\<rparr>, fr_slept := fr_slept s + sleep_time ?r\<rparr>"
  have 2: "failover_poll ap fe now (Suc (Suc n)) s = failover_poll ap fe now n ?s2" for n
    using assms(2-5) ok(1) by (simp add: iter_connected iter_retry given_up_def start_retry_def)
  have "\<exists>s'. failover_poll ap fe now (4 * Suc k) ?s2 = Some (PollReady, s') \<and>
      fr_attempts s' = fr_attempts ?s2 @ map (\<lambda>j. Ok (rotated parsed (poll_index (fr_servers ?s2)) j)) [0..<Suc k] \<and>
      fr_slept s' = fr_slept ?s2 + (\<Sum>j<k. sleep_time (cn_retry_count (fr_conn ?s2) + Suc j)) \<and>
      fr_address s' = Some (Ok (rotated parsed (poll_index (fr_servers ?s2)) k)) \<and>
      cn_watch (fr_conn s') = cn_watch (fr_conn ?s2) @ replicate (Suc k) None @ [Some cid] \<and>
      cn_connection_id (fr_conn s') = Some cid \<and> cn_health (fr_conn s') \<and> cn_state (fr_conn s') = Connected"
    by (rule rotation_finds[OF assms(7,15)]) (use assms(6,8,9) k cid j(1) ok(1) in \<open>auto simp: may_fail_def\<close>)
  then obtain s' where s': "failover_poll ap fe now (4 * k + 6) s = Some (PollReady, s')"
      "fr_attempts s' = fr_attempts s @ map (\<lambda>j. Ok (rotated parsed i j)) [0..<Suc k]"
      "fr_slept s' = fr_slept s + sleep_time ?r + (\<Sum>j<k. sleep_time (?r + Suc j))"
      "cn_watch (fr_conn s') = cn_watch ?c @ replicate (Suc k) None @ [Some cid]"
      "cn_connection_id (fr_conn s') = Some cid" "cn_health (fr_conn s')" "cn_state (fr_conn s') = Connected"
    using 2[of "4 * Suc k"] assms(6) by (auto simp: algebra_simps numeral_eq_Suc)
  have "(\<Sum>j<k. sleep_time (?r + Suc j)) \<le> (\<Sum>j<k. 64)" by (rule sum_mono) (rule sleep_time_le)
  then have slept: "fr_slept s' \<le> fr_slept s + 64 * Suc k" using s'(3) sleep_time_le[of ?r] by simp
  have tn: "ap_make ap (Ok (rotated parsed i k)) = Some (Ok (tn (rotated parsed i k)))" using assms(15,16) rotated_in[of parsed i k] by force
  then have "tonic_builder_call tls ca_cert_path read_file build_uri (Ok (rotated parsed i k)) (built_tonic ustack bstack b) =
      Some (Ok (tn (rotated parsed i k)))" using assms(14) by simp
  then have layer: "tn_unary_layer (tn (rotated parsed i k)) sv = sv" for sv
    using tonic_builder_layers built_tonic_layers(1)[OF assms(10,11), of b] assms(12) by (metis option.simps(4))
  note connected_answers[OF s'(7) layer, of boxed _ later]
  moreover have "connected_events None (cn_watch (fr_conn s')) = connected_events None (cn_watch ?c) @ [cid]"
    "disconnected_events None (cn_watch (fr_conn s')) = disconnected_events None (cn_watch ?c) @ [the (cn_connection_id ?c)]"
    using ok by (simp_all only: s'(4) events_append[of _ "cn_watch ?c"] reconnect_events) (auto split: option.split)
  moreover have "k < length parsed" using j(1) k(2) by simp
  ultimately show ?thesis using s'(1,2,5,6) slept k(3) cid by blast
qed

definition demo_tonic :: "string \<times> 16 word \<Rightarrow> tonic" where
  "demo_tonic a = \<lparr>tn_unary_layer = UnaryCallIdentityLayer, tn_bi_layer = BiStreamingCallIdentityLayer,
    tn_endpoint_uri = ''http'' @ tonic_authority (fst a) (Some (snd a + 1000)),
    tn_options = endpoint_options (server_config a GrpcConfiguration_default), tn_server_address = a\<rparr>"

definition demo_parts :: attempt_parts where
  "demo_parts = \<lparr>ap_make = (\<lambda>address. tonic_builder_call False None (\<lambda>_. None) (\<lambda>scheme auth. Some (scheme @ auth)) address
      (built_tonic demo_stack demo_stack (grpc_builder_new :: unit grpc_builder))),
    ap_setup = Ok demo_server_reply, ap_check = Ok demo_server_reply, ap_from_slice = demo_check_slice, ap_err_slice = (\<lambda>_. Inl []),
    ap_request = (\<lambda>uri p. if uri = ''httpb:1002'' then Inr demo_server_reply else Inl ''down''), ap_stream = (\<lambda>uri ps. Inr [])\<rparr>"

definition demo_lost :: failover_run where
  "demo_lost = \<lparr>fr_conn = failover demo_run, fr_servers = \<lparr>provider = StaticProvider [format_host_port ''a'' 1, format_host_port ''b'' 2], poll_index = 4\<rparr>,
    fr_address = Some (Ok (''b'', 2)), fr_attempts = [], fr_slept = 0\<rparr>"

lemma demo_make: "ap_make demo_parts (Ok a) = Some (Ok (demo_tonic a))"
  by (simp add: demo_parts_def tonic_builder_call_def Tonic_new_def tls_options_def demo_tonic_def built_tonic_def TonicBuilder_new_def
      grpc_builder_new_def server_config_def GrpcConfiguration_default_def)

lemma demo_works: "attempt_result demo_parts (demo_tonic (''b'', 2)) = Ok ''c1''"
proof -
  have u: "tonic_authority ''b'' (Some 1002) = ''b:1002''" by code_simp
  show ?thesis
    by (simp add: attempt_result_def demo_parts_def init_attempt_def init_connection_def convert_def check_server_def unary_exchange_eq
        bi_exchange_eq demo_tonic_def u UnaryCallIdentityLayer_def BiStreamingCallIdentityLayer_def UnaryCallService_def
        BiStreamingCallService_def unary_call_def bi_streaming_call_def recv_response_def unwrap_option_def from_payload_def
        demo_server_reply_def from_proto_any_def demo_check_slice_def)
qed

lemma failover_finds_server_witness:
  "\<exists>k s'. failover_poll demo_parts \<lparr>env_props = Map.empty, t0 = 0, t1 = 0, resp = Body []\<rparr> 9 (4 * k + 6) demo_lost = Some (PollReady, s') \<and>
    k < 2 \<and> fr_slept s' \<le> 64 * Suc k \<and> cn_health (fr_conn s')"
proof -
  have r: "conn_reach None (fr_conn demo_lost)"
    by (simp add: demo_lost_def conn_reach.step[OF demo_run_reach conn_step.fail])
  have st: "cn_state (fr_conn demo_lost) = Connected" "\<not> cn_health (fr_conn demo_lost)" "fr_address demo_lost = Some (Ok (''b'', 2))"
    by (simp_all add: demo_lost_def failover_def demo_run_value)
  have l: "parse_host_port_vec [format_host_port ''a'' 1, format_host_port ''b'' 2] = Inr [(''a'', 1), (''b'', 2)]"
    "provider (fr_servers demo_lost) = StaticProvider [format_host_port ''a'' 1, format_host_port ''b'' 2]"
    "unat (poll_index (fr_servers demo_lost)) + length [(''a'', 1 :: 16 word), (''b'', 2)] < 2 ^ 64"
    using parse_host_port_vec_formatted[of "[(''a'', 1), (''b'', 2)]"]
    by (simp_all add: demo_lost_def wf_host_def host_char_def visible_def is_separator_def code_def)
  have b: "gb_unary_layer (grpc_builder_new :: unit grpc_builder) = None" "gb_bi_layer (grpc_builder_new :: unit grpc_builder) = None"
    by (simp_all add: grpc_builder_new_def)
  have m: "ap_make demo_parts = (\<lambda>address. tonic_builder_call False None (\<lambda>_. None) (\<lambda>scheme auth. Some (scheme @ auth)) address
      (built_tonic demo_stack demo_stack (grpc_builder_new :: unit grpc_builder)))" by (simp add: demo_parts_def)
  have w: "(''b'', 2) \<in> set [(''a'', 1 :: 16 word), (''b'', 2)]" "is_ok (attempt_result demo_parts (demo_tonic (''b'', 2)))"
    by (simp_all add: demo_works is_ok_iff)
  have all: "\<forall>a\<in>set [(''a'', 1 :: 16 word), (''b'', 2)]. ap_make demo_parts (Ok a) = Some (Ok (demo_tonic a))" by (simp add: demo_make)
  have "fr_slept demo_lost = 0" by (simp add: demo_lost_def)
  moreover from failover_finds_server[OF r st demo_make refl l demo_stacks demo_stacks b m all w,
      of "\<lparr>env_props = Map.empty, t0 = 0, t1 = 0, resp = Body []\<rparr>" 9]
  obtain k s' where "failover_poll demo_parts \<lparr>env_props = Map.empty, t0 = 0, t1 = 0, resp = Body []\<rparr> 9 (4 * k + 6) demo_lost =
      Some (PollReady, s')" "k < length [(''a'', 1 :: 16 word), (''b'', 2)]" "fr_slept s' \<le> fr_slept demo_lost + 64 * Suc k" "cn_health (fr_conn s')"
    by blast
  ultimately show ?thesis by (intro exI[of _ k] exI[of _ s']) (simp del: failover_poll.simps)
qed

end
