(* ===== verification/AuthTask.thy ===== *)
theory AuthTask
  imports Auth Providers
begin

text \<open>
  The task that keeps a client logged in (\<^verbatim>\<open>init_auth_plugin\<close> of src/api/plugin/auth/mod.rs) with the login
  over HTTP, in time: how long the token a request carries is valid. Times are in milliseconds.
\<close>

section \<open>The task\<close>

text \<open>
  A round: what the provider's fetch meets, how long a login takes if one is made, the random index and
  the server's answer.
\<close>

record auth_round =
  ar_env :: fetch_env
  ar_took :: nat
  ar_index :: nat
  ar_post :: "string \<Rightarrow> string \<Rightarrow> string \<Rightarrow> login_reply"

text \<open>
  One login with the list of the provider: None when it panics. \<open>as_until\<close> is not in the code: it says
  until when the server takes the token, from the time it was asked for.
\<close>

record auth_state =
  as_provider :: provider
  as_plugin :: http_plugin
  as_until :: "nat option"

definition login_due :: "nat \<Rightarrow> http_plugin \<Rightarrow> bool" where
  "login_due now p = (next_login_refresh p < now)"

definition login_answer :: "bool \<Rightarrow> headers \<Rightarrow> auth_round \<Rightarrow> string list \<Rightarrow> HttpLoginResponse option" where
  "login_answer tls params r servers =
    (case (params USERNAME, params PASSWORD) of
       (Some username, Some password) \<Rightarrow>
         Option.bind (login_response (ar_post r (login_url tls (servers ! (ar_index r mod length servers))) username password)) id
     | _ \<Rightarrow> None)"

definition auth_login :: "bool \<Rightarrow> headers \<Rightarrow> auth_round \<Rightarrow> nat \<Rightarrow> auth_state \<Rightarrow> (nat \<times> auth_state) option" where
  "auth_login tls params r now s =
    (let (server_list, provider') = current_server_list (ar_env r) (as_provider s);
         later = (if login_due now (as_plugin s) then now + ar_took r else now)
     in map_option (\<lambda>plugin'. (later, \<lparr>as_provider = provider', as_plugin = plugin',
            as_until = (if login_due now (as_plugin s) then
                (case login_answer tls params r server_list of
                   None \<Rightarrow> as_until s | Some answer \<Rightarrow> Some (now + 1000 * unat (token_ttl answer)))
              else as_until s)\<rparr>))
          (http_login tls (ar_post r) now later (ar_index r) server_list params (as_plugin s)))"

text \<open>The loop: a login, then a pause of 30 seconds. The result is when each login ended, and the state then.\<close>

fun auth_task :: "bool \<Rightarrow> headers \<Rightarrow> auth_round list \<Rightarrow> nat \<Rightarrow> auth_state \<Rightarrow> (nat \<times> auth_state) list option" where
  "auth_task tls params [] now s = Some []"
| "auth_task tls params (r # rs) now s =
    Option.bind (auth_login tls params r now s) (\<lambda>(later, s').
    Option.bind (auth_task tls params rs (later + 30000) s') (\<lambda>run. Some ((later, s') # run)))"

text \<open>\<^verbatim>\<open>init_auth_plugin\<close>: the first login is awaited, and the task starts with another one.\<close>

definition init_auth_plugin ::
    "bool \<Rightarrow> headers \<Rightarrow> auth_round \<Rightarrow> auth_round list \<Rightarrow> nat \<Rightarrow> auth_state \<Rightarrow> (nat \<times> auth_state) list option" where
  "init_auth_plugin tls auth_params r rs now s =
    (let params = add_params auth_params Map.empty
     in Option.bind (auth_login tls params r now s) (\<lambda>(later, s').
        Option.bind (auth_task tls params rs later s') (\<lambda>run. Some ((later, s') # run))))"

section \<open>Rounds\<close>

text \<open>
  Logins take at most \<open>d\<close>, no body breaks off, answers promise at least \<open>ttl\<close> seconds, and at most \<open>f\<close>
  rounds in a row, \<open>n\<close> of them past, have a server that does not answer.
\<close>

definition round_ok :: "nat \<Rightarrow> nat \<Rightarrow> auth_round \<Rightarrow> bool" where
  "round_ok d ttl r = (ar_took r \<le> d \<and> (\<forall>url u p. login_response (ar_post r url u p) \<noteq> None) \<and>
    (\<forall>url u p answer. login_response (ar_post r url u p) = Some (Some answer) \<longrightarrow> ttl \<le> unat (token_ttl answer)))"

definition round_answers :: "auth_round \<Rightarrow> bool" where
  "round_answers r = (\<forall>url u p. login_response (ar_post r url u p) \<noteq> Some None)"

fun steady :: "nat \<Rightarrow> nat \<Rightarrow> auth_round list \<Rightarrow> bool" where
  "steady f n [] = True"
| "steady f n (r # rs) = (if round_answers r then steady f 0 rs else n < f \<and> steady f (n + 1) rs)"

lemma auth_login_cases:
  assumes "provider_wf (as_provider s)" "params USERNAME = Some u" "params PASSWORD = Some p" "\<forall>url u p. login_response (ar_post r url u p) \<noteq> None"
  obtains provider' where "provider_wf provider'" "\<not> login_due now (as_plugin s)"
      "auth_login tls params r now s = Some (now, s\<lparr>as_provider := provider'\<rparr>)"
    | provider' url where "provider_wf provider'" "login_due now (as_plugin s)" "login_response (ar_post r url u p) = Some None"
      "auth_login tls params r now s = Some (now + ar_took r, s\<lparr>as_provider := provider'\<rparr>)"
    | provider' url answer where "provider_wf provider'" "login_due now (as_plugin s)" "login_response (ar_post r url u p) = Some (Some answer)"
      "auth_login tls params r now s = Some (now + ar_took r, \<lparr>as_provider = provider',
        as_plugin = \<lparr>login_identity = [ACCESS_TOKEN \<mapsto> access_token answer],
          next_login_refresh = now + ar_took r + 1000 * (unat (token_ttl answer) div 10)\<rparr>,
        as_until = Some (now + 1000 * unat (token_ttl answer))\<rparr>)"
proof -
  obtain l provider' where l: "current_server_list (ar_env r) (as_provider s) = (l, provider')" by fastforce
  then have wf: "provider_wf provider'" "l \<noteq> []"
    using provider.current_wf[OF assms(1), of "ar_env r"] provider.current_nonempty[OF assms(1), of "ar_env r"] by simp_all
  let ?url = "login_url tls (l ! (ar_index r mod length l))"
  obtain a where a: "login_response (ar_post r ?url u p) = Some a" using assms(4) by blast
  show thesis
  proof (cases "login_due now (as_plugin s)")
    case False
    then have "auth_login tls params r now s = Some (now, s\<lparr>as_provider := provider'\<rparr>)"
      using l by (cases s) (simp add: auth_login_def http_login_def login_due_def)
    with wf(1) False show thesis by (rule that(1))
  next
    case True
    then have n: "\<not> now \<le> next_login_refresh (as_plugin s)" by (simp add: login_due_def)
    show thesis
    proof (cases a)
      case None
      then have "auth_login tls params r now s = Some (now + ar_took r, s\<lparr>as_provider := provider'\<rparr>)"
        using a l True n wf(2) assms(2,3) by (cases s) (simp add: auth_login_def http_login_def login_answer_def Let_def)
      with wf(1) True a[unfolded None] show thesis by (rule that(2))
    next
      case (Some answer)
      then have "auth_login tls params r now s = Some (now + ar_took r, \<lparr>as_provider = provider',
        as_plugin = \<lparr>login_identity = [ACCESS_TOKEN \<mapsto> access_token answer],
          next_login_refresh = now + ar_took r + 1000 * (unat (token_ttl answer) div 10)\<rparr>,
        as_until = Some (now + 1000 * unat (token_ttl answer))\<rparr>)"
        using a True n wf(2) assms(2,3) by (simp add: auth_login_def l http_login_def login_answer_def Let_def add_context_def)
      with wf(1) True a[unfolded Some] show thesis by (rule that(3))
    qed
  qed
qed

text \<open>
  Between rounds: logged out and due, or holding a token that outlasts the next refresh with all the
  failures that may still come.
\<close>

definition logged_in :: "nat \<Rightarrow> nat \<Rightarrow> nat \<Rightarrow> nat \<Rightarrow> auth_state \<Rightarrow> bool" where
  "logged_in d f n now s =
    (let refresh = next_login_refresh (as_plugin s)
     in case as_until s of
          None \<Rightarrow> login_due now (as_plugin s)
        | Some e \<Rightarrow> now \<le> refresh + 30000 + n * (30000 + d) \<and> refresh + 30000 + f * (30000 + d) + d \<le> e \<and>
            (\<exists>token. login_identity (as_plugin s) = [ACCESS_TOKEN \<mapsto> token]))"

lemma logged_in_step:
  assumes "provider_wf (as_provider s)" "params USERNAME = Some u" "params PASSWORD = Some p"
    "logged_in d f n now s" "round_ok d ttl r" "if round_answers r then n' = 0 else n' = n + 1" "n \<le> f" "pause \<le> 30000"
    "30000 + f * (30000 + d) + 2 * d \<le> 900 * ttl"
  shows "\<exists>later s'. auth_login tls params r now s = Some (later, s') \<and> provider_wf (as_provider s') \<and>
    logged_in d f n' (later + pause) s' \<and> (\<forall>e. as_until s = Some e \<longrightarrow> later \<le> e) \<and>
    (as_until s' = None \<longrightarrow> as_until s = None \<and> \<not> round_answers r)"
proof -
  have late: "\<forall>e. as_until s = Some e \<longrightarrow> later \<le> e" if "later \<le> now + d" for later
  proof -
    have "n * (30000 + d) \<le> f * (30000 + d)" using assms(7) by (rule mult_le_mono1)
    moreover have "\<forall>e. as_until s = Some e \<longrightarrow> now \<le> next_login_refresh (as_plugin s) + 30000 + n * (30000 + d) \<and>
        next_login_refresh (as_plugin s) + 30000 + f * (30000 + d) + d \<le> e"
      using assms(4) by (auto simp: logged_in_def Let_def split: option.splits)
    ultimately show ?thesis using that by (meson add_le_mono add_left_mono add_right_mono le_trans)
  qed
  have read: "\<forall>url u p. login_response (ar_post r url u p) \<noteq> None" using assms(5) by (simp add: round_ok_def)
  show ?thesis
proof (cases rule: auth_login_cases[OF assms(1-3) read, of now tls])
  case (1 provider')
  then obtain e where "as_until s = Some e" using assms(4) by (auto simp: logged_in_def split: option.splits)
  then show ?thesis using 1 assms(4,8) by (auto simp: logged_in_def login_due_def)
next
  case (2 provider' url)
  have na: "\<not> round_answers r" using 2(3) unfolding round_answers_def by blast
  then have n: "\<not> round_answers r" "n' = n + 1" using assms(6) by simp_all
  have "logged_in d f n' (now + ar_took r + pause) (s\<lparr>as_provider := provider'\<rparr>)"
    using 2(2) n(2) assms(4,5,8) by (auto simp: logged_in_def login_due_def round_ok_def Let_def split: option.splits)
  moreover have "\<forall>e. as_until s = Some e \<longrightarrow> now + ar_took r \<le> e" using late assms(5) by (simp add: round_ok_def)
  ultimately show ?thesis using 2 n by auto
next
  case (3 provider' url answer)
  let ?ttl = "unat (token_ttl answer)"
  have ttl: "ttl \<le> ?ttl" "ar_took r \<le> d" using 3(3) assms(5) by (auto simp: round_ok_def)
  have old: "\<forall>e. as_until s = Some e \<longrightarrow> now + ar_took r \<le> e" using late ttl(2) by simp
  have "1000 * (?ttl div 10) \<le> 100 * ?ttl" by simp
  then have "logged_in d f n' (now + ar_took r + pause) \<lparr>as_provider = provider',
      as_plugin = \<lparr>login_identity = [ACCESS_TOKEN \<mapsto> access_token answer],
        next_login_refresh = now + ar_took r + 1000 * (?ttl div 10)\<rparr>,
      as_until = Some (now + 1000 * ?ttl)\<rparr>"
    using ttl assms(8,9) by (auto simp: logged_in_def)
  then show ?thesis using 3 old by auto
qed
qed

text \<open>What the runs are about: a token, once there, is replaced before the server stops taking it.\<close>

fun token_kept :: "nat option \<Rightarrow> (nat \<times> auth_state) list \<Rightarrow> bool" where
  "token_kept until [] = True"
| "token_kept until ((t, s) # run) =
    ((case until of None \<Rightarrow> True
      | Some e \<Rightarrow> t \<le> e \<and> as_until s \<noteq> None \<and> (\<exists>token. http_login_identity (as_plugin s) = (\<lambda>_. [ACCESS_TOKEN \<mapsto> token]))) \<and>
     token_kept (as_until s) run)"

lemma auth_task_keeps:
  assumes "provider_wf (as_provider s)" "params USERNAME = Some u" "params PASSWORD = Some p"
    "logged_in d f n now s" "\<forall>r\<in>set rs. round_ok d ttl r" "steady f n rs" "n \<le> f" "30000 + f * (30000 + d) + 2 * d \<le> 900 * ttl"
  shows "\<exists>run. auth_task tls params rs now s = Some run \<and> token_kept (as_until s) run \<and> length run = length rs \<and>
    (f - n < length rs \<longrightarrow> as_until (snd (run ! (f - n))) \<noteq> None) \<and> (as_until s \<noteq> None \<longrightarrow> (\<forall>x\<in>set run. as_until (snd x) \<noteq> None))"
  using assms
proof (induction rs arbitrary: now s n)
  case (Cons r rs)
  define n' where "n' = (if round_answers r then 0 else n + 1)"
  have n': "steady f n' rs" "n' \<le> f" using Cons.prems(6) by (auto simp: n'_def split: if_splits)
  have step: "round_ok d ttl r" "if round_answers r then n' = 0 else n' = n + 1" using Cons.prems(5) by (simp_all add: n'_def)
  from logged_in_step[OF Cons.prems(1-4) step Cons.prems(7) _ Cons.prems(8), of 30000 tls] obtain later s' where
    s': "auth_login tls params r now s = Some (later, s')" "provider_wf (as_provider s')" "logged_in d f n' (later + 30000) s'"
      "\<forall>e. as_until s = Some e \<longrightarrow> later \<le> e" "as_until s' = None \<longrightarrow> as_until s = None \<and> \<not> round_answers r"
    by auto
  from Cons.IH[OF s'(2) Cons.prems(2,3) s'(3) _ n' Cons.prems(8)] Cons.prems(5) obtain run where
    run: "auth_task tls params rs (later + 30000) s' = Some run" "token_kept (as_until s') run" "length run = length rs"
      "f - n' < length rs \<longrightarrow> as_until (snd (run ! (f - n'))) \<noteq> None"
      "as_until s' \<noteq> None \<longrightarrow> (\<forall>x\<in>set run. as_until (snd x) \<noteq> None)" by auto
  have tok: "\<exists>token. login_identity (as_plugin s') = [ACCESS_TOKEN \<mapsto> token]" if "as_until s' \<noteq> None"
    using s'(3) that by (auto simp: logged_in_def Let_def)
  have first: "as_until (snd (((later, s') # run) ! (f - n))) \<noteq> None" if "f - n < Suc (length rs)"
  proof (cases "as_until s' = None")
    case True
    then have "n' = n + 1" "f - n = Suc (f - n')" using s'(5) n'(2) by (auto simp: n'_def)
    then show ?thesis using run(3,4) that by simp
  next
    case False
    then show ?thesis using run(3,5) that by (cases "f - n") auto
  qed
  show ?case using s' run tok first
    by (auto simp: http_login_identity_def fun_eq_iff split: option.split)
qed simp

text \<open>
  The shared HTTP client ends a login after ten seconds: tokens of \<open>ttl\<close> seconds survive this many
  unanswered rounds in a row.
\<close>

lemma client_slack:
  "50000 + 40000 * f \<le> 900 * ttl \<Longrightarrow>
    30000 + f * (30000 + http_timeout HTTP_CLIENT) + 2 * http_timeout HTTP_CLIENT \<le> 900 * ttl"
  by (simp add: HTTP_CLIENT_def)

text \<open>A body that breaks off while a login is due ends the task for good: no round follows it.\<close>

lemma broken_body_ends_task:
  assumes "login_due now (as_plugin s)" "\<forall>url u p. ar_post r url u p = LoginTextFailed"
  shows "auth_task tls params (r # rs) now s = None"
  using assms by (auto simp: auth_login_def http_login_def login_due_def Let_def split: prod.splits option.splits)

section \<open>Property\<close>


definition demo_round :: "string option \<Rightarrow> auth_round" where
  "demo_round token = \<lparr>ar_env = \<lparr>env_props = Map.empty, t0 = 0, t1 = 0, resp = Body []\<rparr>, ar_took = 1000, ar_index = 3,
    ar_post = (\<lambda>url u p. LoginText (map_option (\<lambda>x. \<lparr>access_token = x, token_ttl = 400\<rparr>) token))\<rparr>"


end
