(* ===== verification/Builders.thy ===== *)
theory Builders
  imports Startup Auth ConfigApi
begin

text \<open>
  The builders a user starts with (\<^verbatim>\<open>ConfigServiceBuilder\<close> in src/api/config.rs and
  \<^verbatim>\<open>NamingServiceBuilder\<close> in src/api/naming.rs): settings, login plugin and filters, and the service
  they make.
\<close>

section \<open>Plugins\<close>

text \<open>A plugin of the SDK, or one of the user with the identity it gives a request.\<close>

datatype auth_plugin =
    NoopAuthPlugin
  | HttpLoginAuthPlugin http_plugin
  | AliyunRamAuthPlugin aliyun_plugin
  | UserAuthPlugin "RequestResource \<Rightarrow> headers"

text \<open>\<^verbatim>\<open>get_login_identity\<close>; None when the plugin panics.\<close>

fun plugin_identity :: "crypto \<Rightarrow> string \<Rightarrow> nat \<Rightarrow> auth_plugin \<Rightarrow> RequestResource \<Rightarrow> headers option" where
  "plugin_identity cr today timestamp NoopAuthPlugin r = Some (noop_login_identity r)"
| "plugin_identity cr today timestamp (HttpLoginAuthPlugin p) r = Some (http_login_identity p r)"
| "plugin_identity cr today timestamp (AliyunRamAuthPlugin p) r = aliyun_login_identity cr today timestamp p r"
| "plugin_identity cr today timestamp (UserAuthPlugin f) r = Some (f r)"

section \<open>Configuration service\<close>

record config_builder =
  cfb_client_props :: ClientProps
  cfb_auth_plugin :: "auth_plugin option"
  cfb_filters :: "ConfigFilter list"

definition config_builder_new :: "ClientProps \<Rightarrow> config_builder" where
  "config_builder_new p = \<lparr>cfb_client_props = p, cfb_auth_plugin = None, cfb_filters = []\<rparr>"

definition config_builder_default :: "string \<Rightarrow> config_builder" where
  "config_builder_default version =
    \<lparr>cfb_client_props = client_props_new version, cfb_auth_plugin = None, cfb_filters = []\<rparr>"

definition with_auth_plugin :: "auth_plugin \<Rightarrow> config_builder \<Rightarrow> config_builder" where
  "with_auth_plugin p b = b\<lparr>cfb_auth_plugin := Some p\<rparr>"

definition enable_auth_plugin_http :: "nat \<Rightarrow> config_builder \<Rightarrow> config_builder" where
  "enable_auth_plugin_http now b = with_auth_plugin (HttpLoginAuthPlugin (http_plugin_new now)) b"

definition enable_auth_plugin_aliyun :: "config_builder \<Rightarrow> config_builder" where
  "enable_auth_plugin_aliyun b = with_auth_plugin (AliyunRamAuthPlugin aliyun_new) b"

definition with_config_filters :: "ConfigFilter list \<Rightarrow> config_builder \<Rightarrow> config_builder" where
  "with_config_filters fs b = b\<lparr>cfb_filters := fs\<rparr>"

definition add_config_filter :: "ConfigFilter \<Rightarrow> config_builder \<Rightarrow> config_builder" where
  "add_config_filter f b = b\<lparr>cfb_filters := cfb_filters b @ [f]\<rparr>"

definition with_encryption_plugins :: "EncryptionPlugin list \<Rightarrow> config_builder \<Rightarrow> config_builder" where
  "with_encryption_plugins ps b = add_config_filter (ConfigEncryptionFilter ps) b"

text \<open>\<^verbatim>\<open>build\<close>; \<open>identity_of\<close> is what the service asks of its plugin from then on.\<close>

definition config_service_build ::
    "(auth_plugin \<Rightarrow> RequestResource \<Rightarrow> headers) \<Rightarrow> outside \<Rightarrow> (string list \<Rightarrow> string \<rightharpoonup> 'l CacheData) \<Rightarrow> (payload \<Rightarrow> payload option) \<Rightarrow>
      config_builder \<Rightarrow> 64 word \<Rightarrow> ('l config_worker \<times> grpc_client \<times> string) result option \<times> 64 word" where
  "config_service_build identity_of out load change b seq =
    (let plugin = (case cfb_auth_plugin b of None \<Rightarrow> NoopAuthPlugin | Some p \<Rightarrow> p)
     in NacosConfigService_new out load (identity_of plugin) change (cfb_client_props b) (cfb_filters b) seq)"

section \<open>Naming service\<close>

record naming_builder =
  nb_client_props :: ClientProps
  nb_auth_plugin :: "auth_plugin option"

definition naming_builder_new :: "ClientProps \<Rightarrow> naming_builder" where
  "naming_builder_new p = \<lparr>nb_client_props = p, nb_auth_plugin = None\<rparr>"

definition naming_builder_default :: "string \<Rightarrow> naming_builder" where
  "naming_builder_default version = \<lparr>nb_client_props = client_props_new version, nb_auth_plugin = None\<rparr>"

definition naming_with_auth_plugin :: "auth_plugin \<Rightarrow> naming_builder \<Rightarrow> naming_builder" where
  "naming_with_auth_plugin p b = b\<lparr>nb_auth_plugin := Some p\<rparr>"

definition naming_enable_auth_plugin_http :: "nat \<Rightarrow> naming_builder \<Rightarrow> naming_builder" where
  "naming_enable_auth_plugin_http now b = naming_with_auth_plugin (HttpLoginAuthPlugin (http_plugin_new now)) b"

definition naming_enable_auth_plugin_aliyun :: "naming_builder \<Rightarrow> naming_builder" where
  "naming_enable_auth_plugin_aliyun b = naming_with_auth_plugin (AliyunRamAuthPlugin aliyun_new) b"

definition naming_service_build ::
    "(auth_plugin \<Rightarrow> RequestResource \<Rightarrow> headers) \<Rightarrow> outside \<Rightarrow> (string list \<Rightarrow> string \<rightharpoonup> ServiceInfo) \<Rightarrow>
      (emitter \<Rightarrow> payload \<Rightarrow> payload option) \<Rightarrow> naming_builder \<Rightarrow> 64 word \<Rightarrow>
      ('l naming_service \<times> grpc_client \<times> string) result option \<times> 64 word" where
  "naming_service_build identity_of out load push b seq =
    (let plugin = (case nb_auth_plugin b of None \<Rightarrow> NoopAuthPlugin | Some p \<Rightarrow> p)
     in NacosNamingService_new out load (identity_of plugin) push (nb_client_props b) seq)"

section \<open>Lemmas\<close>

datatype config_builder_call =
    WithAuthPlugin auth_plugin
  | EnableHttp nat
  | EnableAliyun
  | WithConfigFilters "ConfigFilter list"
  | AddConfigFilter ConfigFilter
  | WithEncryptionPlugins "EncryptionPlugin list"

fun config_builder_apply :: "config_builder_call \<Rightarrow> config_builder \<Rightarrow> config_builder" where
  "config_builder_apply (WithAuthPlugin p) b = with_auth_plugin p b"
| "config_builder_apply (EnableHttp now) b = enable_auth_plugin_http now b"
| "config_builder_apply EnableAliyun b = enable_auth_plugin_aliyun b"
| "config_builder_apply (WithConfigFilters fs) b = with_config_filters fs b"
| "config_builder_apply (AddConfigFilter f) b = add_config_filter f b"
| "config_builder_apply (WithEncryptionPlugins ps) b = with_encryption_plugins ps b"

lemmas config_builder_defs = config_builder_new_def with_auth_plugin_def enable_auth_plugin_http_def enable_auth_plugin_aliyun_def
  with_config_filters_def add_config_filter_def with_encryption_plugins_def

text \<open>What a call adds to the filters; \<^verbatim>\<open>with_config_filters\<close> drops those before it, encryption included.\<close>

fun added_filters :: "config_builder_call \<Rightarrow> ConfigFilter list" where
  "added_filters (AddConfigFilter f) = [f]"
| "added_filters (WithEncryptionPlugins ps) = [ConfigEncryptionFilter ps]"
| "added_filters _ = []"

lemma filters_in_order:
  assumes "\<forall>c\<in>set cs. \<forall>fs. c \<noteq> WithConfigFilters fs"
  shows "cfb_filters (fold config_builder_apply cs b) = cfb_filters b @ concat (map added_filters cs)"
  using assms
proof (induction cs arbitrary: b)
  case (Cons c cs)
  have "cfb_filters (config_builder_apply c b) = cfb_filters b @ added_filters c"
    using Cons.prems by (cases c) (simp_all add: config_builder_defs)
  then show ?case using Cons by simp
qed simp

lemma filters_replaced:
  assumes "\<forall>c\<in>set cs. \<forall>fs. c \<noteq> WithConfigFilters fs"
  shows "cfb_filters (fold config_builder_apply (cs0 @ WithConfigFilters fs # cs) b) = fs @ concat (map added_filters cs)"
  using filters_in_order[OF assms] by (simp add: with_config_filters_def)

text \<open>A built worker has the filters of its builder, and a client whose identity is that of the plugin.\<close>

lemma built_identity: "grpc_client_build auth request transport b = Ok client \<Longrightarrow> gc_identity client = auth"
proof -
  assume "grpc_client_build auth request transport b = Ok client"
  then obtain r where "(case transport r of Inl e \<Rightarrow> if gb_emergency_start b then Ok \<lparr>gc_app_name = gb_app_name b, gc_identity = auth\<rparr> else Err e
      | Inr _ \<Rightarrow> Ok \<lparr>gc_app_name = gb_app_name b, gc_identity = auth\<rparr>) = Ok client"
    by (auto simp: grpc_client_build_def and_then_Ok)
  then show ?thesis by (cases "transport r") (auto split: if_splits)
qed

lemma built_config_service:
  assumes "config_service_build identity_of out load change b seq = (Some (Ok (w, client, client_id)), seq')"
  shows "w_filters w = cfb_filters b \<and>
    gc_identity client = identity_of (case cfb_auth_plugin b of None \<Rightarrow> NoopAuthPlugin | Some p \<Rightarrow> p)"
  using assms
  by (auto simp: config_service_build_def NacosConfigService_new_def ConfigWorker_new_def Let_def and_then_Ok case_prod_unfold
      dest!: built_identity)

lemma built_naming_service:
  assumes "naming_service_build identity_of out load push b seq = (Some (Ok (s, client, client_id)), seq')"
  shows "gc_identity client = identity_of (case nb_auth_plugin b of None \<Rightarrow> NoopAuthPlugin | Some p \<Rightarrow> p)"
  using assms
  by (auto simp: naming_service_build_def NacosNamingService_new_def Let_def and_then_Ok case_prod_unfold dest!: built_identity)

end
