(* ===== verification/Runtime.thy ===== *)
theory Runtime
  imports Common
begin

text \<open>
  The process around a client: where the properties come from (src/lib.rs) and the executor
  (src/common/executor/mod.rs).
\<close>

section \<open>The properties of the process\<close>

text \<open>
  The crate dotenvy works on the environment of the process: \<open>from_path\<close> loads a file, \<open>dotenv\<close> the
  nearest \<^verbatim>\<open>.env\<close>; each may fail, and tells so. Their documented behaviour is that what a file sets is
  added to the environment without replacing what is there.
\<close>

definition ENV_NACOS_CLIENT_PROPS_FILE_PATH :: string where
  "ENV_NACOS_CLIENT_PROPS_FILE_PATH = ''NACOS_CLIENT_PROPS_FILE_PATH''"

type_synonym env_loader = "props \<Rightarrow> (string + unit) \<times> props"

definition PROPERTIES :: "(string \<Rightarrow> env_loader) \<Rightarrow> env_loader \<Rightarrow> props \<Rightarrow> props" where
  "PROPERTIES from_path dotenv env =
    (let env1 = (case env ENV_NACOS_CLIENT_PROPS_FILE_PATH of
           None \<Rightarrow> env
         | Some file_path \<Rightarrow>
             (case from_path file_path env of
                (Inr _, e) \<Rightarrow> e
              | (Inl _, e) \<Rightarrow> snd (dotenv e)))
     in snd (dotenv env1))"

definition adds :: "env_loader \<Rightarrow> props \<Rightarrow> bool" where
  "adds load file = (\<forall>env. snd (load env) = file ++ env)"

text \<open>
  the environment of the process comes first, then the properties file it names, then the \<^verbatim>\<open>.env\<close>
  file; a properties file that cannot be read, or read only in part, leaves the rest to the others.
\<close>

lemma properties_precedence:
  assumes "adds dotenv dot" "\<forall>path. adds (from_path path) (file path)"
  shows "PROPERTIES from_path dotenv env k =
    (case env k of Some v \<Rightarrow> Some v
     | None \<Rightarrow>
         (case Option.bind (env ENV_NACOS_CLIENT_PROPS_FILE_PATH) (\<lambda>path. file path k) of
            Some v \<Rightarrow> Some v
          | None \<Rightarrow> dot k))"
proof -
  have from_file: "snd (from_path path e) = file path ++ e" and dot: "snd (dotenv e) = dot ++ e" for path e
    using assms by (simp_all add: adds_def)
  show ?thesis
  proof (cases "env ENV_NACOS_CLIENT_PROPS_FILE_PATH")
    case None
    then show ?thesis by (simp add: PROPERTIES_def dot map_add_def split: option.split)
  next
    case (Some path)
    obtain r e where e: "from_path path env = (r, e)" by fastforce
    then have "e = file path ++ env" using from_file[of path env] by simp
    then show ?thesis using Some e
      by (cases r) (auto simp: PROPERTIES_def dot map_add_def split: option.split)
  qed
qed

lemma properties_precedence_witness:
  "PROPERTIES (\<lambda>path env. (Inr (), [''b'' \<mapsto> ''file'', ''c'' \<mapsto> ''file''] ++ env)) (\<lambda>env. (Inr (), [''c'' \<mapsto> ''dot''] ++ env))
    [ENV_NACOS_CLIENT_PROPS_FILE_PATH \<mapsto> ''p'', ''b'' \<mapsto> ''env''] ''c'' = Some ''file''"
  using properties_precedence[of "\<lambda>env. (Inr (), [''c'' \<mapsto> ''dot''] ++ env)" "[''c'' \<mapsto> ''dot'']"
      "\<lambda>path env. (Inr (), [''b'' \<mapsto> ''file'', ''c'' \<mapsto> ''file''] ++ env)" "\<lambda>_. [''b'' \<mapsto> ''file'', ''c'' \<mapsto> ''file'']"
      "[ENV_NACOS_CLIENT_PROPS_FILE_PATH \<mapsto> ''p'', ''b'' \<mapsto> ''env'']" "''c''"]
  by (simp add: adds_def ENV_NACOS_CLIENT_PROPS_FILE_PATH_def)

section \<open>The executor\<close>

text \<open>\<^verbatim>\<open>usize\<close> has 64 bits.\<close>

definition COMMON_THREAD_CORES :: "string option \<Rightarrow> nat" where
  "COMMON_THREAD_CORES v =
    (case Option.bind v (\<lambda>v. case parse_uint (2 ^ 64 - 1) v of Some n \<Rightarrow> if 0 < n then Some n else None | None \<Rightarrow> None) of
       None \<Rightarrow> 1
     | Some n \<Rightarrow> n)"

lemma COMMON_THREAD_CORES_pos: "0 < COMMON_THREAD_CORES v"
  by (auto simp: COMMON_THREAD_CORES_def split: option.splits bind_splits if_splits)

text \<open>
  The scheduled loops, over what their runs return and how long they take; the result is when each
  run starts. \<open>interval_tick n now\<close> is when the nth tick of a tokio interval awaited at \<open>now\<close> completes.
\<close>

definition schedule :: "nat \<Rightarrow> nat \<Rightarrow> nat" where
  "schedule delay now = now + delay"

fun schedule_at_fixed_rate :: "nat \<Rightarrow> nat \<Rightarrow> (unit result \<times> nat) list \<Rightarrow> nat list" where
  "schedule_at_fixed_rate duration now [] = []"
| "schedule_at_fixed_rate duration now ((ret, len) # runs) =
    now # (case ret of Inl e \<Rightarrow> [] | Inr _ \<Rightarrow> schedule_at_fixed_rate duration (now + len + duration) runs)"

fun schedule_at_fixed_delay :: "(nat \<Rightarrow> nat \<Rightarrow> nat) \<Rightarrow> nat \<Rightarrow> nat \<Rightarrow> (unit result \<times> nat) list \<Rightarrow> nat list" where
  "schedule_at_fixed_delay interval_tick n now [] = []"
| "schedule_at_fixed_delay interval_tick n now ((ret, len) # runs) =
    (let t = interval_tick n now
     in t # (case ret of Inl e \<Rightarrow> [] | Inr _ \<Rightarrow> schedule_at_fixed_delay interval_tick (Suc n) (t + len) runs))"

text \<open>
  The names are the wrong way round: the loop called fixed rate pauses for the duration after each
  run, the one called fixed delay starts its runs at multiples of the duration, as long as no run
  takes longer than it. Both end with the first error.
\<close>

lemma fixed_rate_pauses:
  assumes "schedule_at_fixed_rate d now runs ! i = t" "Suc i < length (schedule_at_fixed_rate d now runs)"
  shows "schedule_at_fixed_rate d now runs ! Suc i = t + snd (runs ! i) + d"
  using assms
proof (induction d now runs arbitrary: i rule: schedule_at_fixed_rate.induct)
  case (2 d now ret len runs)
  obtain u where ok: "ret = Inr u" using 2(3) by (cases ret) simp_all
  show ?case
  proof (cases i)
    case 0
    then show ?thesis using 2(2,3) ok by (cases runs) auto
  next
    case (Suc j)
    then show ?thesis using 2 ok by simp
  qed
qed simp

lemma fixed_delay_starts:
  assumes "\<And>n now. interval_tick n now = max now (start + n * d)" "now \<le> start + n * d" "\<forall>r\<in>set runs. snd r \<le> d"
    "i < length (schedule_at_fixed_delay interval_tick n now runs)"
  shows "schedule_at_fixed_delay interval_tick n now runs ! i = start + (n + i) * d"
  using assms(2-4)
proof (induction runs arbitrary: i n now)
  case (Cons r runs)
  obtain ret len where r: "r = (ret, len)" by (cases r)
  have t: "interval_tick n now = start + n * d" using assms(1) Cons.prems(1) by simp
  show ?case
  proof (cases i)
    case (Suc j)
    then obtain u where ok: "ret = Inr u" using Cons.prems(3) r by (cases ret) (simp_all add: Let_def)
    have "start + n * d + len \<le> start + Suc n * d" using Cons.prems(2) r by simp
    then show ?thesis using Cons.IH[of "start + n * d + len" "Suc n" j] Cons.prems Suc r ok t by (simp add: Let_def)
  qed (simp add: r t Let_def)
qed simp

lemma schedules_stop_at_error:
  "length (schedule_at_fixed_rate d now runs) = length (schedule_at_fixed_delay tick n now' runs)"
  "length (schedule_at_fixed_rate d now runs) = min (length runs) (Suc (length (takeWhile (is_ok \<circ> fst) runs)))"
proof -
  show "length (schedule_at_fixed_rate d now runs) = length (schedule_at_fixed_delay tick n now' runs)"
    by (induction runs arbitrary: now n now') (auto simp: Let_def split: sum.split)
  show "length (schedule_at_fixed_rate d now runs) = min (length runs) (Suc (length (takeWhile (is_ok \<circ> fst) runs)))"
    by (induction d now runs rule: schedule_at_fixed_rate.induct) (auto split: sum.split)
qed

end
