(* ===== verification/Spec2Isabelle.thy ===== *)
theory Spec2Isabelle
  imports ConfigRun NamingSpec NamingRun NamingSync HealthTask BiStream EventFlow Failover AuthTask Builders Runtime
begin

text \<open>
  A model of the Nacos client for Rust (nacos-sdk-rust) and of what makes it correct.

  \<^bold>\<open>The program.\<close> A client talks to a Nacos server over one gRPC connection. The configuration
  service reads, publishes and watches configurations; the naming service registers instances of
  services, looks services up and subscribes to them. Both sit on the same parts: a connection that is
  made again when it breaks, a client that adds the login identity to every request, a list of servers
  taken in turn, a cache with an optional copy on disk, and the settings.

  \<^bold>\<open>Theories and sources\<close> (paths below src/ of the crate).

  \<^item> \<open>Prelude\<close>, \<open>Decimal\<close>: Rust's operations on strings, vectors and numerals the code uses.
    \<open>Float64\<close>: IEEE 754 doubles with rounding to nearest even.
  \<^item> \<open>Common\<close>: api/error.rs, lib.rs (process settings), common/util.rs, common/error.rs, and the
    request ids of common/remote/mod.rs, a 64 bit counter with a reset that callers race for, with the
    limits of its HTTP client.
  \<^item> \<open>Messages\<close>: the envelope of common/remote/grpc/message and the code its macros generate
    (nacos-macro).
  \<^item> \<open>ServerList\<close>, \<open>Providers\<close>: common/remote/server_list (parsing, providers, round robin).
  \<^item> \<open>Cache\<close>, \<open>DiskStore\<close>: common/cache. The cache returns the save and remove commands it spawns;
    the disk store runs them as tasks whose system calls interleave and fail.
  \<^item> \<open>Connection\<close>, \<open>BiStream\<close>, \<open>Transport\<close>, \<open>GrpcClient\<close>: common/remote/grpc. The state machine of a
    connection with its listeners and health check (nacos\_grpc\_connection.rs, utils.rs, handlers); its
    stream, with the channel of messages to the server and the task that answers it (\<^verbatim>\<open>setup\<close> there);
    what an attempt goes through (config.rs, nacos\_grpc\_service.rs, tonic.rs: options, layers,
    callbacks, call tasks); the client and its builder (nacos\_grpc\_client.rs).
  \<^item> \<open>Auth\<close>, \<open>Props\<close>, \<open>Runtime\<close>: api/plugin/auth, api/props.rs, and the process around a client: its
    properties (lib.rs) and the executor (common/executor).
  \<^item> \<open>Plugins\<close>, \<open>ConfigKey\<close>, \<open>ConfigData\<close>, \<open>ConfigWorker\<close>, \<open>ConfigProps\<close>, \<open>ConfigApi\<close>: the
    configuration service (api/plugin/config\_filter.rs and encryption.rs, config/util.rs,
    config/cache.rs, config/worker.rs with config/message and config/handler.rs, its properties,
    and api/config.rs with config/mod.rs).
  \<^item> \<open>ServiceInfo\<close>, \<open>Observable\<close>, \<open>Redo\<close>, \<open>Updater\<close>, \<open>Chooser\<close>, \<open>NamingService\<close>, \<open>NamingProps\<close>:
    the naming service (naming/dto and the difference of snapshots, naming/observable and the push
    handler, naming/message and naming/redo, naming/updater, naming/chooser, naming/mod.rs with
    api/naming.rs, and its properties).
  \<^item> Composition: \<open>Startup\<close> puts the two services together as their constructors do; \<open>Recovery\<close> runs
    connection, watch channel, listeners, spawned handlers, registrations and redo ticks as one
    transition relation; \<open>NamingRun\<close> runs a started naming service through everything that can happen
    to it; \<open>NamingSpec\<close> is its abstract specification; \<open>NamingSync\<close> runs a polling loop against a
    server; \<open>Persistence\<close> runs the cache with its disk store; \<open>ConfigSync\<close> the listening loop with the
    handling of the keys it sends, and \<open>ConfigRun\<close> a started configuration service through everything
    that can happen to it; \<open>HealthTask\<close> runs the health check of a connection in time, \<open>Failover\<close> a
    connection over a list of servers, \<open>AuthTask\<close> the login task with the login over HTTP in time, and
    \<open>EventFlow\<close> changes on their way to the listeners, with everything that overlaps;
    \<open>Builders\<close> is what a user starts the services with.

  \<^bold>\<open>How state and operations correspond.\<close> A struct is a record with its fields in the code's order,
  an enum a datatype. A function that changes state takes it and returns it; one that awaits a server
  takes the answers as an argument: a function from the request to the result, or the list of answers
  of its attempts. What runs in the background is returned as a value (\<open>store_cmd\<close>,
  \<open>config_effect\<close>, the spawned query of a subscription) and its own theory says how it runs. Shared
  objects that outlive their place in a map (redo tasks, polling loops) have a number that stands for
  the pointer. Errors are the left of a sum, a panic is None. Integers keep their width where they can
  wrap: ports, page numbers, delays and the request counter are words.

  \<^bold>\<open>Interfaces.\<close> \<open>server_list_provider\<close> (Providers, interpreted on the provider the code creates):
  a well-formed provider always has a server to offer. \<open>keyed_store\<close> (Cache, interpreted on it): the
  laws of lookup after insertion, removal and update, used by the configuration worker, the emitter
  and the updater. \<open>listener_registry\<close> (ConfigData, interpreted there and on the naming observers of
  Observable): registering twice is registering once, and the last call for a listener decides.
  \<open>server_request_handler\<close> (Startup, interpreted on the three handlers): only a request that decodes
  is answered, with a success under its id.
  Doubles are an instance of the class \<open>ord\<close>, with the partial comparison of the code.

  \<^bold>\<open>What the lemmas show.\<close> Each component has an invariant (\<open>redo_ok\<close>, \<open>updater_ok\<close>, \<open>emitter_ok\<close>,
  \<open>conn_ok\<close>, \<open>provider_wf\<close>, \<open>seq_inv\<close>, the disk invariant, \<open>naming_ok\<close>), shown for each operation
  and collected in \<open>wf_preserve\<close>. On these rest the properties C1 to C40, in order of importance:

  \<^item> the naming service: registrations survive lost connections, each call does what the abstract
    specification says, a started service stays sound in every run, redo tasks, subscriptions,
    polling loops, their convergence, and selection (C1 to C5, C17, C18, C30, C31);
  \<^item> the cache of services is never out of step with the pushes, events are changes, each is told once,
    and a listener can rebuild the cache from them (C6, C19 to C21, C33);
  \<^item> the connection is ready when it is usable, its listeners hear of each connect and disconnect
    once, it gives up in time, a dead one is noticed in time, a lost one finds a working server of its
    list, and the messages of the server are answered in order (C7 to C13, C26 to C28, C35);
  \<^item> configurations: what is cached, told and returned is the server's answer in every run, convergence,
    one notification per change, listeners, keys, encryption (C14 to C16, C32, C39, C40);
  \<^item> the cache with its files is a persistent map, and files are complete under any interleaving and
    failure (C22, C23);
  \<^item> requests, logins and signatures reach the server, and a login does not run out (C24, C25, C34);
  \<^item> choice by weight, request ids, server lists (C29, C36 to C38).

  Further behaviour of the code a user would not expect is stated as lemmas of its component
  (\<open>late_disconnect_forgets\<close>: the handlers of a disconnect and a reconnect
  are not ordered; \<open>old_stream_ends_new_connection\<close>, \<open>first_publish_not_notified\<close>, \<open>unsubscribe_one_stops_all\<close>,
  \<open>broken_body_ends_task\<close> and others).

  \<^bold>\<open>Bounds and fuel.\<close> A save tries three times, as in the code, so its task ends after at most nine
  system calls (\<open>save_terminates\<close>). The loop of \<open>poll_ready\<close> takes the answers of its iterations as
  a list; a list longer than \<open>attempts_left\<close>, four iterations for each attempt left, is enough for a
  connection never made to return. Back-off is capped at \<open>2 ^ 6\<close> seconds for the connection and a
  minute for polling. The binary search is a total function. No theorem about a result assumes that
  the code returns without its totality being stated or the function being total.

  \<^bold>\<open>Parameters.\<close> Code outside the crate is an argument: JSON (\<open>to_vec\<close>, \<open>from_slice\<close>), HMAC, base64,
  HTTP, URL, URI and header parsers, clocks, random numbers, the environment and the crate dotenvy, the
  iteration order of hash maps, tower's \<open>stack\<close> of two layers, tonic's channel and generated clients.
  What is relied on (decoding inverts encoding, a stack's outer layer wraps what the inner one makes, for
  instance) is a hypothesis of the theorem.

  \<^bold>\<open>Not modelled.\<close> Logging and tracing; the tokio runtime, whose scheduling appears as interleaving
  of steps; the wrappers that only box and delegate; the code below tonic's endpoint and the
  options of the generated clients, which the crate does not use; tests and examples. Strings are UTF-8 byte sequences.
\<close>

end
